(* ===== verification/Prelude.thy ===== *)
theory Prelude
  imports Main "HOL-Library.Word"
begin

text \<open>
  The shared vocabulary of the development: Go's machine integers and byte slices as words and
  lists, the outcome of a piece of Go code (a value, a run-time panic, or a loop that used up its
  fuel), Go's built-in \<open>copy\<close> and \<open>make\<close>, and the generic lemmas on them that the components
  share.  \<open>go_simps\<close> collects the equations that evaluate outcomes, \<open>byte_simps\<close> the facts on
  byte lists.
\<close>

unbundle bit_operations_syntax

named_theorems go_simps
named_theorems byte_simps

section \<open>Machine integers and byte slices\<close>

type_synonym byte = "8 word"
type_synonym bytes = "byte list"
type_synonym u32 = "32 word"
type_synonym u64 = "64 word"
type_synonym word256 = "256 word"

section \<open>Outcomes of Go code\<close>

text \<open>
  \<open>Ret x\<close> is a normal return, \<open>Panic\<close> a run-time panic (index or slice bounds out of range, a
  \<open>make\<close> of impossible length, a nil dereference), which aborts the whole program, and \<open>NoFuel\<close>
  says that a bounded unrolling of a Go loop or recursion stopped before the code did.
\<close>

datatype 'a go = Ret 'a | Panic | NoFuel

fun go_bind :: "'a go \<Rightarrow> ('a \<Rightarrow> 'b go) \<Rightarrow> 'b go" where
  "go_bind (Ret x) k = k x"
| "go_bind Panic k = Panic"
| "go_bind NoFuel k = NoFuel"

declare go_bind.simps [go_simps]

lemma go_bind_Ret_iff:
  "go_bind r k = Ret y \<longleftrightarrow> (\<exists>x. r = Ret x \<and> k x = Ret y)"
  by (cases r) auto

lemma go_bind_Panic_iff:
  "go_bind r k = Panic \<longleftrightarrow> r = Panic \<or> (\<exists>x. r = Ret x \<and> k x = Panic)"
  by (cases r) auto

lemma go_bind_NoFuel_iff:
  "go_bind r k = NoFuel \<longleftrightarrow> r = NoFuel \<or> (\<exists>x. r = Ret x \<and> k x = NoFuel)"
  by (cases r) auto

lemma go_bind_assoc: "go_bind (go_bind r k) h = go_bind r (\<lambda>x. go_bind (k x) h)"
  by (cases r) auto

text \<open>A predicate on the value of an outcome that holds of every outcome that is not a return.\<close>

fun go_all :: "('a \<Rightarrow> bool) \<Rightarrow> 'a go \<Rightarrow> bool" where
  "go_all P (Ret x) = P x"
| "go_all P Panic = True"
| "go_all P NoFuel = True"

lemma go_all_iff: "go_all P r \<longleftrightarrow> (\<forall>x. r = Ret x \<longrightarrow> P x)"
  by (cases r) auto

lemma go_all_bind:
  assumes "go_all P r" and "\<And>x. P x \<Longrightarrow> go_all Q (k x)"
  shows "go_all Q (go_bind r k)"
  using assms by (cases r) auto

lemma go_all_mono: "go_all P r \<Longrightarrow> (\<And>x. P x \<Longrightarrow> Q x) \<Longrightarrow> go_all Q r"
  by (cases r) auto

section \<open>Go's built-in \<open>make\<close> and \<open>copy\<close>\<close>

text \<open>
  The Go runtime refuses to allocate more than \<open>2 ^ 48\<close> bytes at once (\<open>maxAlloc\<close> on 64-bit
  platforms): \<open>make\<close> then panics.  Exhausting the machine's memory below that is not modelled.
\<close>

definition maxAlloc :: nat where
  "maxAlloc = 2 ^ 48"

definition go_make :: "nat \<Rightarrow> bytes go" where
  "go_make n = (if n \<le> maxAlloc then Ret (replicate n 0) else Panic)"

text \<open>\<open>copy(dst[off:], src)\<close> on the bytes of \<open>dst\<close>: as many bytes as fit are overwritten.\<close>

definition copy_at :: "bytes \<Rightarrow> nat \<Rightarrow> bytes \<Rightarrow> bytes" where
  "copy_at dst off src =
     take off dst @ take (length dst - off) src @ drop (off + length src) dst"

lemma length_copy_at [simp, byte_simps]: "off \<le> length dst \<Longrightarrow> length (copy_at dst off src) = length dst"
  by (auto simp: copy_at_def)

lemma nth_copy_at [byte_simps]:
  assumes "i < length dst" and "off \<le> length dst"
  shows "copy_at dst off src ! i =
           (if off \<le> i \<and> i < off + length src then src ! (i - off) else dst ! i)"
  using assms by (auto simp: copy_at_def nth_append min_def)

lemma copy_at_full: "length src = length dst \<Longrightarrow> copy_at dst 0 src = src"
  by (simp add: copy_at_def)

lemma copy_at_end:
  "off + length src = length dst \<Longrightarrow> copy_at dst off src = take off dst @ src"
  by (simp add: copy_at_def)

section \<open>Big-endian words\<close>

text \<open>
  The big-endian reading of a byte list and the \<open>n\<close> low bytes of a word, most significant first.
\<close>

definition be_word :: "bytes \<Rightarrow> 'a::len word" where
  "be_word bs = foldl (\<lambda>w b. push_bit 8 w OR ucast b) 0 bs"

definition be_bytes :: "nat \<Rightarrow> 'a::len word \<Rightarrow> bytes" where
  "be_bytes n w = map (\<lambda>i. ucast (drop_bit (8 * (n - 1 - i)) w)) [0..<n]"

lemma length_be_bytes [simp, byte_simps]: "length (be_bytes n w) = n"
  by (simp add: be_bytes_def)

lemma be_word_Nil [simp]: "be_word [] = 0"
  by (simp add: be_word_def)

lemma be_word_snoc: "be_word (bs @ [b]) = push_bit 8 (be_word bs) OR ucast b"
  by (simp add: be_word_def)

lemma bit_be_word:
  "bit (be_word bs :: 'a::len word) k \<longleftrightarrow>
     k < LENGTH('a) \<and> k div 8 < length bs \<and> bit (rev bs ! (k div 8)) (k mod 8)"
proof (induction bs arbitrary: k rule: rev_induct)
  case Nil
  then show ?case by simp
next
  case (snoc b bs)
  show ?case
  proof (cases "k < 8")
    case True
    then show ?thesis
      by (auto simp: be_word_snoc bit_or_iff bit_push_bit_iff bit_ucast_iff)
  next
    case False
    then have k: "k div 8 = Suc ((k - 8) div 8)" and m: "k mod 8 = (k - 8) mod 8"
      by (simp_all add: le_div_geq le_mod_geq)
    have nb: "\<not> bit (ucast b :: 'a word) k"
      using False bit_imp_le_length [of b k] by (auto simp: bit_ucast_iff)
    show ?thesis
      using False nb snoc.IH [of "k - 8"]
      by (auto simp: be_word_snoc bit_or_iff bit_push_bit_iff k m)
  qed
qed

lemma be_word_be_bytes:
  assumes "LENGTH('a) \<le> 8 * n"
  shows "be_word (be_bytes n w) = (w :: 'a::len word)"
proof (rule bit_word_eqI)
  fix k assume k: "k < LENGTH('a)"
  with assms have d: "k div 8 < n" by auto
  then have i: "n - 1 - (n - 1 - k div 8) = k div 8" by simp
  have "rev (be_bytes n w) ! (k div 8) = ucast (drop_bit (8 * (k div 8)) w)"
    using d i by (simp add: be_bytes_def rev_nth)
  then have "bit (rev (be_bytes n w) ! (k div 8)) (k mod 8) \<longleftrightarrow> bit w (8 * (k div 8) + k mod 8)"
    by (simp add: bit_ucast_iff bit_drop_bit_eq)
  then show "bit (be_word (be_bytes n w) :: 'a word) k = bit w k"
    using k d by (simp add: bit_be_word)
qed

lemma be_bytes_be_word:
  assumes "length bs = n" and "8 * n \<le> LENGTH('a)"
  shows "be_bytes n (be_word bs :: 'a::len word) = bs"
proof (rule nth_equalityI)
  show "length (be_bytes n (be_word bs :: 'a word)) = length bs"
    using assms by simp
next
  fix i assume "i < length (be_bytes n (be_word bs :: 'a word))"
  then have i: "i < n" by simp
  show "be_bytes n (be_word bs :: 'a word) ! i = bs ! i"
  proof (rule bit_word_eqI)
    fix k assume "k < LENGTH(8)"
    then have k: "k < 8" by simp
    let ?j = "8 * (n - 1 - i) + k"
    have d: "?j div 8 = n - 1 - i" and m: "?j mod 8 = k"
      using k by auto
    have lt: "?j < LENGTH('a)"
      using i k assms by (auto simp: algebra_simps)
    have r: "rev bs ! (n - 1 - i) = bs ! i"
      using i assms by (simp add: rev_nth)
    have "bit (be_bytes n (be_word bs :: 'a word) ! i) k = bit (be_word bs :: 'a word) ?j"
      using i k by (simp add: be_bytes_def bit_ucast_iff bit_drop_bit_eq)
    also have "\<dots> = bit (bs ! i) k"
      unfolding bit_be_word d m r using lt i assms by simp
    finally show "bit (be_bytes n (be_word bs :: 'a word) ! i) k = bit (bs ! i) k" .
  qed
qed

lemma be_word_inj:
  assumes "length xs = length ys" and "8 * length xs \<le> LENGTH('a)"
    and "(be_word xs :: 'a::len word) = be_word ys"
  shows "xs = ys"
  using assms be_bytes_be_word [of xs "length xs", where 'a = 'a]
    be_bytes_be_word [of ys "length xs", where 'a = 'a] by simp

lemma be_word_zeros [simp]: "be_word (replicate n 0) = 0"
  by (induction n) (simp_all add: replicate_append_same [symmetric] be_word_snoc)

lemma be_word_app_zeros [simp]: "be_word (replicate n 0 @ bs) = be_word bs"
proof -
  have "foldl (\<lambda>w b. push_bit 8 w OR ucast b) 0 (replicate n (0::byte)) = (0 :: 'a::len word)"
    by (induction n) simp_all
  then show ?thesis by (simp add: be_word_def)
qed

section \<open>Words as naturals\<close>

lemma unat_u64_bound [simp]: "unat (w :: u64) < 18446744073709551616"
  using unsigned_less [of w] by simp

lemma unat_add_no_wrap:
  "unat a + unat b < 2 ^ LENGTH('a) \<Longrightarrow> unat (a + b) = unat a + unat (b :: 'a::len word)"
  by (simp add: unat_word_ariths)

lemma unat_diff: "b \<le> a \<Longrightarrow> unat (a - b) = unat a - unat (b :: 'a::len word)"
  by (simp add: unat_sub_if' word_le_nat_alt)

lemma word_less_eq_unat: "a \<le> b \<longleftrightarrow> unat a \<le> unat (b :: 'a::len word)"
  by (simp add: word_le_nat_alt)

lemma word_less_unat: "a < b \<longleftrightarrow> unat a < unat (b :: 'a::len word)"
  by (simp add: word_less_nat_alt)

lemma unat_add_le:
  assumes "a \<le> a + b"
  shows "unat (a + b) = unat a + unat (b :: 'a::len word)"
proof -
  have "unat b < 2 ^ LENGTH('a)" by (rule unsigned_less)
  moreover have "unat a \<le> unat (a + b)" using assms by (simp add: word_le_nat_alt)
  moreover have "unat (a + b) = unat a + unat b - 2 ^ LENGTH('a)" if "\<not> unat a + unat b < 2 ^ LENGTH('a)"
    using that by (simp only: unat_plus_if' if_False)
  ultimately have "unat a + unat b < 2 ^ LENGTH('a)" by linarith
  then show ?thesis by (rule unat_add_no_wrap)
qed

text \<open>Go's conversion of a \<open>uint64\<close> below \<open>2 ^ 63\<close> to \<open>int\<close>.\<close>

lemma sint_u64_small:
  assumes "unat (w :: u64) < 2 ^ 63"
  shows "sint w = int (unat w)"
proof -
  have "int (unat w) < 2 ^ 63" using assms by (metis of_nat_less_numeral_power_cancel_iff of_nat_numeral of_nat_power)
  then have "uint w < 2 ^ 63" by simp
  then have "signed_take_bit 63 (uint w) = uint w"
    using uint_ge_0 [of w] by (intro signed_take_bit_int_eq_self) linarith+
  then show ?thesis by (simp add: sint_uint)
qed

end
