(* ===== verification/Types.thy ===== *)
theory Types
  imports Prelude
begin

text \<open>
  The value types of \<open>types/types.go\<close> with their conversions, the error values of all packages,
  and the parameter \<open>lib\<close>: the methods of the third-party packages the program calls.

  \<^item> \<open>uint256.Int\<close> (github.com/holiman/uint256) is a 256-bit integer, here \<open>256 word\<close>.  Moving
    values in and out of that representation (\<open>Set\<close>, \<open>SetUint64\<close>, \<open>Uint64\<close>, \<open>Bytes32\<close>,
    \<open>SetBytes\<close>, \<open>IsZero\<close>) is the representation itself; the arithmetic of the package is a group
    of fields of \<open>lib\<close>.
  \<^item> The Keccak-256 of golang.org/x/crypto/sha3 and the other hash and curve packages are fields of
    \<open>lib\<close> as well.
  \<^item> What the proofs need of them is stated in the locales \<open>uint256_pkg\<close> and \<open>keccak_pkg\<close>.
\<close>

section \<open>Values\<close>

type_synonym Gas = u64
type_synonym Address = bytes
type_synonym Hash = bytes

text \<open>Go's fixed-size arrays \<open>[20]byte\<close> and \<open>[32]byte\<close> are byte lists of that length.\<close>

definition address_ok :: "Address \<Rightarrow> bool" where
  "address_ok a \<longleftrightarrow> length a = 20"

definition hash_ok :: "Hash \<Rightarrow> bool" where
  "hash_ok h \<longleftrightarrow> length h = 32"

definition ZeroAddress :: Address where
  "ZeroAddress = replicate 20 0"

definition ZeroHash :: Hash where
  "ZeroHash = replicate 32 0"

lemma hash_ok_ZeroHash [simp]: "hash_ok ZeroHash"
  by (simp add: hash_ok_def ZeroHash_def)

text \<open>The representation of \<open>uint256.Int\<close>: big-endian bytes and the low 64-bit limb.\<close>

abbreviation SetBytes :: "bytes \<Rightarrow> word256" where
  "SetBytes \<equiv> be_word"

abbreviation Bytes32 :: "word256 \<Rightarrow> bytes" where
  "Bytes32 \<equiv> be_bytes 32"

abbreviation Uint64 :: "word256 \<Rightarrow> u64" where
  "Uint64 \<equiv> ucast"

abbreviation SetUint64 :: "u64 \<Rightarrow> word256" where
  "SetUint64 \<equiv> ucast"

definition IsUint64 :: "word256 \<Rightarrow> bool" where
  "IsUint64 w \<longleftrightarrow> ucast (ucast w :: u64) = w"

section \<open>Conversions (types/types.go)\<close>

definition WordFromBytes32 :: "bytes \<Rightarrow> word256" where
  "WordFromBytes32 b = SetBytes b"

definition WordToBytes32 :: "word256 \<Rightarrow> bytes" where
  "WordToBytes32 w = Bytes32 w"

definition AddressToWord :: "Address \<Rightarrow> word256" where
  "AddressToWord a = SetBytes (copy_at (replicate 32 0) 12 a)"

definition WordToAddress :: "word256 \<Rightarrow> Address" where
  "WordToAddress w = copy_at (replicate 20 0) 0 (drop 12 (Bytes32 w))"

definition HashToWord :: "Hash \<Rightarrow> word256" where
  "HashToWord h = SetBytes h"

definition WordToHash :: "word256 \<Rightarrow> Hash" where
  "WordToHash w = Bytes32 w"

lemma address_ok_WordToAddress [simp]: "address_ok (WordToAddress w)"
  by (simp add: address_ok_def WordToAddress_def)

lemma WordToAddress_drop: "WordToAddress w = drop 12 (Bytes32 w)"
  by (simp add: WordToAddress_def copy_at_full)

lemma AddressToWord_be: "address_ok a \<Longrightarrow> AddressToWord a = be_word a"
  by (simp add: AddressToWord_def address_ok_def copy_at_end)

lemma drop_be_bytes:
  "k \<le> n \<Longrightarrow> drop k (be_bytes n w) = be_bytes (n - k) (w :: 'a::len word)"
  by (rule nth_equalityI) (auto simp: be_bytes_def algebra_simps)

lemma WordToAddress_AddressToWord:
  assumes "address_ok a"
  shows "WordToAddress (AddressToWord a) = a"
  using assms be_bytes_be_word [of a 20, where 'a = 256]
  by (simp add: AddressToWord_be WordToAddress_drop drop_be_bytes address_ok_def)

lemma Bytes32_SetBytes [byte_simps]: "hash_ok h \<Longrightarrow> Bytes32 (SetBytes h) = h"
  by (simp add: be_bytes_be_word hash_ok_def)

lemma SetBytes_Bytes32 [byte_simps]: "SetBytes (Bytes32 w) = w"
  by (simp add: be_word_be_bytes)

section \<open>Error values\<close>

text \<open>
  Go's error variables, one constructor each.  The packages \<open>stack\<close> and \<open>interpreter\<close> declare
  different variables with the same text for stack overflow and underflow; the stack's methods
  return their own package's.
\<close>

datatype error =
    Stack_ErrStackOverflow
  | Stack_ErrStackUnderflow
  | Memory_ErrGasOverflow
  | ErrOutOfGas
  | ErrStackOverflow
  | ErrStackUnderflow
  | ErrInvalidJump
  | ErrWriteProtection
  | ErrReturnDataOOB
  | ErrInvalidOpcode
  | ErrDepthLimit
  | ErrInsufficientFunds
  | ErrGasUintOverflow
  | ErrRevert
  | ErrIntrinsicGas

section \<open>Call kinds (interpreter/frame.go)\<close>

datatype CallType =
    CallTypeCall | CallTypeCallCode | CallTypeDelegateCall | CallTypeStaticCall
  | CallTypeCreate | CallTypeCreate2

section \<open>JSON-RPC messages\<close>

text \<open>
  The requests and replies of \<open>forkdb/forkdb.go\<close>, as far as the code reads them: a reply's result is
  \<open>None\<close> when its raw message does not decode, and a decoded value is a string or something else.
\<close>

datatype json = JString string | JOther

record rpcReq =
  req_Method :: string
  req_Params :: "string list"
  req_ID :: int

record rpcResponse =
  resp_ID :: int
  resp_Result :: "json option"
  resp_Error :: "string option"

section \<open>Third-party packages as a parameter\<close>

text \<open>
  Each \<open>u_\<close> field is a method \<open>z.Op(x, y)\<close> of \<open>uint256.Int\<close> as the value it stores in \<open>z\<close>.
  \<open>keccak\<close> is Write followed by Sum of \<open>sha3.NewLegacyKeccak256\<close>, \<open>ripemd160\<close> that of
  \<open>ripemd160.New\<close>.  \<open>recover_pubkey sig hash\<close> is \<open>ecdsa.RecoverCompact\<close> followed by
  \<open>SerializeUncompressed\<close>, \<open>None\<close> for an error.  A point of \<open>bn256\<close> is held by an opaque byte
  string; \<open>Pair\<close> followed by \<open>Marshal\<close> of the target group is \<open>bn_pair_marshal\<close>.
  \<open>rpc_batch\<close> and \<open>rpc_call\<close> are the remote node behind the HTTP client, given the number of requests
  sent before: \<open>None\<close> is a transport or decoding error, and a single call returns its result and error
  message.  \<open>code_ptr\<close> is the address of a code slice's first byte, which the jump table cache uses.
\<close>

record lib =
  u_add :: "word256 \<Rightarrow> word256 \<Rightarrow> word256"
  u_sub :: "word256 \<Rightarrow> word256 \<Rightarrow> word256"
  u_mul :: "word256 \<Rightarrow> word256 \<Rightarrow> word256"
  u_div :: "word256 \<Rightarrow> word256 \<Rightarrow> word256"
  u_sdiv :: "word256 \<Rightarrow> word256 \<Rightarrow> word256"
  u_mod :: "word256 \<Rightarrow> word256 \<Rightarrow> word256"
  u_smod :: "word256 \<Rightarrow> word256 \<Rightarrow> word256"
  u_addmod :: "word256 \<Rightarrow> word256 \<Rightarrow> word256 \<Rightarrow> word256"
  u_mulmod :: "word256 \<Rightarrow> word256 \<Rightarrow> word256 \<Rightarrow> word256"
  u_exp :: "word256 \<Rightarrow> word256 \<Rightarrow> word256"
  u_extendsign :: "word256 \<Rightarrow> word256 \<Rightarrow> word256"
  u_not :: "word256 \<Rightarrow> word256"
  u_and :: "word256 \<Rightarrow> word256 \<Rightarrow> word256"
  u_or :: "word256 \<Rightarrow> word256 \<Rightarrow> word256"
  u_xor :: "word256 \<Rightarrow> word256 \<Rightarrow> word256"
  u_lsh :: "word256 \<Rightarrow> u64 \<Rightarrow> word256"
  u_rsh :: "word256 \<Rightarrow> u64 \<Rightarrow> word256"
  u_srsh :: "word256 \<Rightarrow> u64 \<Rightarrow> word256"
  u_lt :: "word256 \<Rightarrow> word256 \<Rightarrow> bool"
  u_gt :: "word256 \<Rightarrow> word256 \<Rightarrow> bool"
  u_slt :: "word256 \<Rightarrow> word256 \<Rightarrow> bool"
  u_sgt :: "word256 \<Rightarrow> word256 \<Rightarrow> bool"
  u_sign :: "word256 \<Rightarrow> int"
  u_bitlen :: "word256 \<Rightarrow> nat"
  keccak :: "bytes \<Rightarrow> bytes"
  ripemd160 :: "bytes \<Rightarrow> bytes"
  recover_pubkey :: "bytes \<Rightarrow> bytes \<Rightarrow> bytes option"
  bn_g1_unmarshal :: "bytes \<Rightarrow> bytes option"
  bn_g2_unmarshal :: "bytes \<Rightarrow> bytes option"
  bn_g1_add :: "bytes \<Rightarrow> bytes \<Rightarrow> bytes"
  bn_g1_scalar_mult :: "bytes \<Rightarrow> nat \<Rightarrow> bytes"
  bn_g1_marshal :: "bytes \<Rightarrow> bytes"
  bn_pair_marshal :: "bytes \<Rightarrow> bytes \<Rightarrow> bytes"
  rpc_batch :: "nat \<Rightarrow> rpcReq list \<Rightarrow> rpcResponse list option"
  rpc_call :: "nat \<Rightarrow> rpcReq \<Rightarrow> (string \<times> string option) option"
  code_ptr :: "bytes \<Rightarrow> nat"

text \<open>
  The documented behaviour of the arithmetic the proofs use: results modulo \<open>2 ^ 256\<close>, division and
  remainder of the unsigned values, the signed ones on the two's complement reading rounding towards
  zero, and the two modular operations without intermediate overflow.
\<close>

definition trunc_div :: "int \<Rightarrow> int \<Rightarrow> int" where
  "trunc_div x y = (let q = \<bar>x\<bar> div \<bar>y\<bar> in if (x < 0) = (y < 0) then q else - q)"

definition trunc_mod :: "int \<Rightarrow> int \<Rightarrow> int" where
  "trunc_mod x y = (let r = \<bar>x\<bar> mod \<bar>y\<bar> in if x < 0 then - r else r)"

locale uint256_pkg =
  fixes L :: lib
  assumes add: "u_add L x y = x + y"
    and sub: "u_sub L x y = x - y"
    and mul: "u_mul L x y = x * y"
    and div: "y \<noteq> 0 \<Longrightarrow> u_div L x y = x div y"
    and mod: "y \<noteq> 0 \<Longrightarrow> u_mod L x y = x mod y"
    and sdiv: "y \<noteq> 0 \<Longrightarrow> u_sdiv L x y = word_of_int (trunc_div (sint x) (sint y))"
    and smod: "y \<noteq> 0 \<Longrightarrow> u_smod L x y = word_of_int (trunc_mod (sint x) (sint y))"
    and addmod: "n \<noteq> 0 \<Longrightarrow> u_addmod L x y n = word_of_nat ((unat x + unat y) mod unat n)"
    and mulmod: "n \<noteq> 0 \<Longrightarrow> u_mulmod L x y n = word_of_nat ((unat x * unat y) mod unat n)"
    and exp: "u_exp L x y = x ^ unat y"
    and bitwise: "u_not L x = NOT x" "u_and L x y = x AND y" "u_or L x y = x OR y" "u_xor L x y = x XOR y"
    and lsh: "u_lsh L x k = push_bit (unat k) x"
    and rsh: "u_rsh L x k = drop_bit (unat k) x"
    and srsh: "u_srsh L x k = signed_drop_bit (unat k) x"
    and lt: "u_lt L x y \<longleftrightarrow> x < y"
    and gt: "u_gt L x y \<longleftrightarrow> y < x"
    and slt: "u_slt L x y \<longleftrightarrow> sint x < sint y"
    and sgt: "u_sgt L x y \<longleftrightarrow> sint y < sint x"
    and sign: "u_sign L x = sgn (sint x)"

locale keccak_pkg =
  fixes L :: lib
  assumes length_keccak: "length (keccak L d) = 32"

text \<open>
  A concrete instance: the arithmetic as documented, and arbitrary concrete functions of the right
  shape for the cryptographic packages.
\<close>

definition extend_sign :: "word256 \<Rightarrow> word256 \<Rightarrow> word256" where
  "extend_sign x b =
     (if unat b < 31 then word_of_int (signed_take_bit (8 * unat b + 7) (uint x)) else x)"

definition bit_len :: "word256 \<Rightarrow> nat" where
  "bit_len w = length (dropWhile (\<lambda>i. \<not> bit w i) (rev [0..<256]))"

definition std_lib :: lib where
  "std_lib = \<lparr>
     u_add = (+), u_sub = (-), u_mul = (\<lambda>x y. x * y),
     u_div = (\<lambda>x y. x div y),
     u_sdiv = (\<lambda>x y. word_of_int (trunc_div (sint x) (sint y))),
     u_mod = (\<lambda>x y. x mod y),
     u_smod = (\<lambda>x y. word_of_int (trunc_mod (sint x) (sint y))),
     u_addmod = (\<lambda>x y n. word_of_nat ((unat x + unat y) mod unat n)),
     u_mulmod = (\<lambda>x y n. word_of_nat ((unat x * unat y) mod unat n)),
     u_exp = (\<lambda>x y. x ^ unat y),
     u_extendsign = extend_sign,
     u_not = NOT, u_and = (AND), u_or = (OR), u_xor = (XOR),
     u_lsh = (\<lambda>x k. push_bit (unat k) x),
     u_rsh = (\<lambda>x k. drop_bit (unat k) x),
     u_srsh = (\<lambda>x k. signed_drop_bit (unat k) x),
     u_lt = (<), u_gt = (\<lambda>x y. y < x),
     u_slt = (\<lambda>x y. sint x < sint y),
     u_sgt = (\<lambda>x y. sint y < sint x),
     u_sign = (\<lambda>x. sgn (sint x)),
     u_bitlen = bit_len,
     keccak = (\<lambda>d. take 32 (d @ replicate 32 0)),
     ripemd160 = (\<lambda>d. take 20 (d @ replicate 20 0)),
     recover_pubkey = (\<lambda>sig h. None),
     bn_g1_unmarshal = (\<lambda>d. Some d),
     bn_g2_unmarshal = (\<lambda>d. Some d),
     bn_g1_add = (\<lambda>p q. p),
     bn_g1_scalar_mult = (\<lambda>p n. p),
     bn_g1_marshal = (\<lambda>p. take 64 (p @ replicate 64 0)),
     bn_pair_marshal = (\<lambda>p q. replicate 384 0),
     rpc_batch = (\<lambda>n reqs. None),
     rpc_call = (\<lambda>n req. Some (''0x2a'', None)),
     code_ptr = foldl (\<lambda>n b. 256 * n + unat b) 1 \<rparr>"

interpretation std: uint256_pkg std_lib
  by unfold_locales (auto simp: std_lib_def)

interpretation std_keccak: keccak_pkg std_lib
  by unfold_locales (simp add: std_lib_def)

end
