(* ===== verification/Stack.thy ===== *)
theory Stack
  imports Types
begin

text \<open>
  The operand stack (\<open>stack/stack.go\<close>): an array of \<open>MaxDepth\<close> words and the index of the next
  free slot.  The Go array is a function on the indices \<open>0 \<le> i < MaxDepth\<close>; every access outside
  them is a run-time panic.  A pointer into the array that a method returns is read before the next
  write to the stack everywhere in the program, so it is modelled by the word it points to, and the
  in-place updates through \<open>Back\<close> by \<open>SetBack\<close>.  An error return leaves the stack as it was.
\<close>

definition MaxDepth :: int where
  "MaxDepth = 1024"

record Stack =
  stk_data :: "int \<Rightarrow> word256"
  stk_top :: int

definition new_Stack :: Stack where
  "new_Stack = \<lparr>stk_data = (\<lambda>_. 0), stk_top = 0\<rparr>"

definition data_at :: "Stack \<Rightarrow> int \<Rightarrow> word256 go" where
  "data_at s i = (if 0 \<le> i \<and> i < MaxDepth then Ret (stk_data s i) else Panic)"

definition data_set :: "Stack \<Rightarrow> int \<Rightarrow> word256 \<Rightarrow> Stack go" where
  "data_set s i v =
     (if 0 \<le> i \<and> i < MaxDepth then Ret (s\<lparr>stk_data := (stk_data s)(i := v)\<rparr>) else Panic)"

section \<open>The methods\<close>

definition Stack_Reset :: "Stack \<Rightarrow> Stack" where
  "Stack_Reset s = s\<lparr>stk_top := 0\<rparr>"

definition Stack_Len :: "Stack \<Rightarrow> int" where
  "Stack_Len s = stk_top s"

definition Push :: "Stack \<Rightarrow> word256 \<Rightarrow> (error + Stack) go" where
  "Push s v =
     (if stk_top s = MaxDepth then Ret (Inl Stack_ErrStackOverflow)
      else go_bind (data_set s (stk_top s) v) (\<lambda>s'.
        Ret (Inr (s'\<lparr>stk_top := stk_top s' + 1\<rparr>))))"

definition PushRaw :: "Stack \<Rightarrow> u64 \<Rightarrow> (error + Stack) go" where
  "PushRaw s v =
     (if stk_top s = MaxDepth then Ret (Inl Stack_ErrStackOverflow)
      else go_bind (data_set s (stk_top s) (SetUint64 v)) (\<lambda>s'.
        Ret (Inr (s'\<lparr>stk_top := stk_top s' + 1\<rparr>))))"

definition Pop :: "Stack \<Rightarrow> (error + word256 \<times> Stack) go" where
  "Pop s =
     (if stk_top s = 0 then Ret (Inl Stack_ErrStackUnderflow)
      else let s' = s\<lparr>stk_top := stk_top s - 1\<rparr> in
        go_bind (data_at s' (stk_top s')) (\<lambda>v. Ret (Inr (v, s'))))"

definition Peek :: "Stack \<Rightarrow> (error + word256) go" where
  "Peek s =
     (if stk_top s = 0 then Ret (Inl Stack_ErrStackUnderflow)
      else go_bind (data_at s (stk_top s - 1)) (\<lambda>v. Ret (Inr v)))"

definition PeekN :: "Stack \<Rightarrow> int \<Rightarrow> (error + word256) go" where
  "PeekN s n =
     (let idx = stk_top s - 1 - n in
      if idx < 0 then Ret (Inl Stack_ErrStackUnderflow)
      else go_bind (data_at s idx) (\<lambda>v. Ret (Inr v)))"

definition SwapN :: "Stack \<Rightarrow> int \<Rightarrow> (error + Stack) go" where
  "SwapN s n =
     (if stk_top s < n + 1 then Ret (Inl Stack_ErrStackUnderflow)
      else
        go_bind (data_at s (stk_top s - 1 - n)) (\<lambda>x.
        go_bind (data_at s (stk_top s - 1)) (\<lambda>y.
        go_bind (data_set s (stk_top s - 1) x) (\<lambda>s1.
        go_bind (data_set s1 (stk_top s - 1 - n) y) (\<lambda>s2.
          Ret (Inr s2))))))"

definition DupN :: "Stack \<Rightarrow> int \<Rightarrow> (error + Stack) go" where
  "DupN s n =
     (if stk_top s < n then Ret (Inl Stack_ErrStackUnderflow)
      else if stk_top s = MaxDepth then Ret (Inl Stack_ErrStackOverflow)
      else
        go_bind (data_at s (stk_top s - n)) (\<lambda>v.
        go_bind (data_set s (stk_top s) v) (\<lambda>s'.
          Ret (Inr (s'\<lparr>stk_top := stk_top s' + 1\<rparr>)))))"

text \<open>\<open>Back\<close> has no bounds check of its own: an index below 0 panics.\<close>

definition Back :: "Stack \<Rightarrow> int \<Rightarrow> word256 go" where
  "Back s n = data_at s (stk_top s - 1 - n)"

definition SetBack :: "Stack \<Rightarrow> int \<Rightarrow> word256 \<Rightarrow> Stack go" where
  "SetBack s n v = data_set s (stk_top s - 1 - n) v"

definition RequireN :: "Stack \<Rightarrow> int \<Rightarrow> error option" where
  "RequireN s n = (if stk_top s < n then Some Stack_ErrStackUnderflow else None)"

text \<open>\<open>Data\<close> is the slice of the live part, bottom first.\<close>

definition Stack_Data :: "Stack \<Rightarrow> word256 list" where
  "Stack_Data s = map (stk_data s) (map int [0..<nat (stk_top s)])"

section \<open>Invariant and abstraction\<close>

definition stack_ok :: "Stack \<Rightarrow> bool" where
  "stack_ok s \<longleftrightarrow> 0 \<le> stk_top s \<and> stk_top s \<le> MaxDepth"

text \<open>The abstract stack: the live words, top first.\<close>

definition stack_abs :: "Stack \<Rightarrow> word256 list" where
  "stack_abs s = map (\<lambda>k. stk_data s (stk_top s - 1 - int k)) [0..<nat (stk_top s)]"

text \<open>The operations of a bounded stack of words on lists, top first: the specification.\<close>

definition spec_push :: "word256 list \<Rightarrow> word256 \<Rightarrow> error + word256 list" where
  "spec_push xs v = (if length xs = nat MaxDepth then Inl Stack_ErrStackOverflow else Inr (v # xs))"

definition spec_pop :: "word256 list \<Rightarrow> error + word256 \<times> word256 list" where
  "spec_pop xs = (case xs of [] \<Rightarrow> Inl Stack_ErrStackUnderflow | x # ys \<Rightarrow> Inr (x, ys))"

definition spec_dup :: "word256 list \<Rightarrow> nat \<Rightarrow> error + word256 list" where
  "spec_dup xs n =
     (if length xs < n then Inl Stack_ErrStackUnderflow
      else if length xs = nat MaxDepth then Inl Stack_ErrStackOverflow
      else Inr (xs ! (n - 1) # xs))"

definition spec_swap :: "word256 list \<Rightarrow> nat \<Rightarrow> error + word256 list" where
  "spec_swap xs n =
     (if length xs < n + 1 then Inl Stack_ErrStackUnderflow
      else Inr (xs[0 := xs ! n, n := xs ! 0]))"

lemma length_stack_abs: "stack_ok s \<Longrightarrow> int (length (stack_abs s)) = stk_top s"
  by (simp add: stack_abs_def stack_ok_def)

lemma length_stack_abs' [simp]: "length (stack_abs s) = nat (stk_top s)"
  by (simp add: stack_abs_def)

lemma nth_stack_abs:
  "k < nat (stk_top s) \<Longrightarrow> stack_abs s ! k = stk_data s (stk_top s - 1 - int k)"
  by (simp add: stack_abs_def)

lemma stack_abs_push:
  assumes "0 \<le> stk_top s"
  shows "stack_abs (s\<lparr>stk_data := (stk_data s)(stk_top s := v), stk_top := stk_top s + 1\<rparr>)
           = v # stack_abs s"
proof (rule nth_equalityI)
  fix i
  assume "i < length (stack_abs (s\<lparr>stk_data := (stk_data s)(stk_top s := v), stk_top := stk_top s + 1\<rparr>))"
  then have "i < Suc (nat (stk_top s))" using assms by (simp add: nat_add_distrib)
  then show "stack_abs (s\<lparr>stk_data := (stk_data s)(stk_top s := v), stk_top := stk_top s + 1\<rparr>) ! i
      = (v # stack_abs s) ! i"
    using assms by (cases i) (auto simp: nth_stack_abs algebra_simps)
qed (use assms in \<open>simp add: nat_add_distrib\<close>)

lemma stack_abs_pop:
  assumes "0 < stk_top s"
  shows "stack_abs s = stk_data s (stk_top s - 1) # stack_abs (s\<lparr>stk_top := stk_top s - 1\<rparr>)"
proof (rule nth_equalityI)
  fix i assume "i < length (stack_abs s)"
  then show "stack_abs s ! i
      = (stk_data s (stk_top s - 1) # stack_abs (s\<lparr>stk_top := stk_top s - 1\<rparr>)) ! i"
    using assms by (cases i) (auto simp: nth_stack_abs algebra_simps)
qed (use assms in \<open>simp add: nat_diff_distrib Suc_nat_eq_nat_zadd1\<close>)

lemma stack_abs_set:
  assumes "0 \<le> n" and "n < stk_top s"
  shows "stack_abs (s\<lparr>stk_data := (stk_data s)(stk_top s - 1 - n := v)\<rparr>) = (stack_abs s)[nat n := v]"
proof (rule nth_equalityI)
  fix i assume "i < length (stack_abs (s\<lparr>stk_data := (stk_data s)(stk_top s - 1 - n := v)\<rparr>))"
  then have "i < nat (stk_top s)" by simp
  then show "stack_abs (s\<lparr>stk_data := (stk_data s)(stk_top s - 1 - n := v)\<rparr>) ! i
      = (stack_abs s)[nat n := v] ! i"
    using assms by (auto simp: nth_stack_abs nth_list_update)
qed simp

section \<open>The interface the interpreter relies on\<close>

text \<open>
  A bounded stack: the operations never panic on a well-formed stack, keep it well-formed, and on
  the abstract list they are the operations of the specification, errors included.
\<close>

definition refines :: "('s \<Rightarrow> bool) \<Rightarrow> ('s \<Rightarrow> 'a) \<Rightarrow> (error + 's) go \<Rightarrow> error + 'a \<Rightarrow> bool" where
  "refines ok view r spec \<longleftrightarrow>
     (case r of Ret (Inl e) \<Rightarrow> spec = Inl e
      | Ret (Inr s) \<Rightarrow> ok s \<and> spec = Inr (view s)
      | _ \<Rightarrow> False)"

locale bounded_stack =
  fixes ok :: "'s \<Rightarrow> bool"
    and view :: "'s \<Rightarrow> word256 list"
    and push :: "'s \<Rightarrow> word256 \<Rightarrow> (error + 's) go"
    and pop :: "'s \<Rightarrow> (error + word256 \<times> 's) go"
    and dup :: "'s \<Rightarrow> int \<Rightarrow> (error + 's) go"
    and swap :: "'s \<Rightarrow> int \<Rightarrow> (error + 's) go"
  assumes push_refines: "ok s \<Longrightarrow> refines ok view (push s v) (spec_push (view s) v)"
    and pop_refines: "ok s \<Longrightarrow>
      (case pop s of Ret (Inl e) \<Rightarrow> spec_pop (view s) = Inl e
       | Ret (Inr (v, s')) \<Rightarrow> ok s' \<and> spec_pop (view s) = Inr (v, view s')
       | _ \<Rightarrow> False)"
    and dup_refines: "ok s \<Longrightarrow> 0 < n \<Longrightarrow> refines ok view (dup s (int n)) (spec_dup (view s) n)"
    and swap_refines: "ok s \<Longrightarrow> 0 < n \<Longrightarrow> refines ok view (swap s (int n)) (spec_swap (view s) n)"
begin

lemma push_cases:
  assumes "ok s"
  obtains (full) "push s v = Ret (Inl Stack_ErrStackOverflow)" "length (view s) = nat MaxDepth"
    | (pushed) s' where "push s v = Ret (Inr s')" "ok s'" "view s' = v # view s"
  using push_refines [OF assms, of v]
  by (auto simp: refines_def spec_push_def split: go.splits sum.splits if_splits)

lemma pop_cases:
  assumes "ok s"
  obtains (none) "pop s = Ret (Inl Stack_ErrStackUnderflow)" "view s = []"
    | (popped) v s' where "pop s = Ret (Inr (v, s'))" "ok s'" "view s = v # view s'"
  using pop_refines [OF assms]
  by (auto simp: spec_pop_def split: go.splits sum.splits prod.splits list.splits)

lemma push_then_pop:
  assumes "ok s" and "push s v = Ret (Inr s')"
  shows "\<exists>s''. pop s' = Ret (Inr (v, s'')) \<and> ok s'' \<and> view s'' = view s"
proof -
  from push_refines [OF assms(1), of v] assms(2) have "ok s'" "view s' = v # view s"
    by (auto simp: refines_def spec_push_def split: if_splits)
  then show ?thesis by (cases rule: pop_cases [of s']) auto
qed

lemma dup_then_pop:
  assumes "ok s" and "0 < n" and "dup s (int n) = Ret (Inr s')"
  shows "\<exists>s''. pop s' = Ret (Inr (view s ! (n - 1), s'')) \<and> ok s'' \<and> view s'' = view s"
proof -
  from dup_refines [OF assms(1,2)] assms(3) have "ok s'" "view s' = view s ! (n - 1) # view s"
    by (auto simp: refines_def spec_dup_def split: if_splits)
  then show ?thesis by (cases rule: pop_cases [of s']) auto
qed

lemma swap_twice:
  assumes "ok s" and "0 < n" and "swap s (int n) = Ret (Inr s')"
  shows "\<exists>s''. swap s' (int n) = Ret (Inr s'') \<and> ok s'' \<and> view s'' = view s"
proof -
  let ?xs = "view s"
  from swap_refines [OF assms(1,2)] assms(3)
  have s': "ok s'" "view s' = ?xs[0 := ?xs ! n, n := ?xs ! 0]" and len: "n < length ?xs"
    by (auto simp: refines_def spec_swap_def split: if_splits)
  have pos: "0 < length ?xs" using len by linarith
  have undo: "(view s')[0 := view s' ! n, n := view s' ! 0] = ?xs"
    unfolding s'(2) by (rule nth_equalityI) (use len pos assms(2) in \<open>auto simp: nth_list_update\<close>)
  have "refines ok view (swap s' (int n)) (Inr ?xs)"
    using swap_refines [OF s'(1) assms(2)] len undo s'(2) by (simp add: spec_swap_def)
  then show ?thesis
    by (auto simp: refines_def split: go.splits sum.splits)
qed

end

lemma Push_eq:
  assumes "stack_ok s"
  shows "Push s v = (if stk_top s = MaxDepth then Ret (Inl Stack_ErrStackOverflow)
     else Ret (Inr (s\<lparr>stk_data := (stk_data s)(stk_top s := v), stk_top := stk_top s + 1\<rparr>)))"
  using assms by (auto simp: Push_def data_set_def stack_ok_def)

lemma PushRaw_Push: "PushRaw s v = Push s (SetUint64 v)"
  by (simp add: PushRaw_def Push_def)

lemma Pop_eq:
  assumes "stack_ok s"
  shows "Pop s = (if stk_top s = 0 then Ret (Inl Stack_ErrStackUnderflow)
     else Ret (Inr (stk_data s (stk_top s - 1), s\<lparr>stk_top := stk_top s - 1\<rparr>)))"
  using assms by (auto simp: Pop_def data_at_def stack_ok_def Let_def)

lemma DupN_eq:
  assumes "stack_ok s" and "0 < n"
  shows "DupN s n = (if stk_top s < n then Ret (Inl Stack_ErrStackUnderflow)
     else if stk_top s = MaxDepth then Ret (Inl Stack_ErrStackOverflow)
     else Ret (Inr (s\<lparr>stk_data := (stk_data s)(stk_top s := stk_data s (stk_top s - n)),
                     stk_top := stk_top s + 1\<rparr>)))"
  using assms by (auto simp: DupN_def data_at_def data_set_def stack_ok_def)

lemma SwapN_eq:
  assumes "stack_ok s" and "0 < n"
  shows "SwapN s n = (if stk_top s < n + 1 then Ret (Inl Stack_ErrStackUnderflow)
     else Ret (Inr (s\<lparr>stk_data := (stk_data s)(stk_top s - 1 := stk_data s (stk_top s - 1 - n),
                                               stk_top s - 1 - n := stk_data s (stk_top s - 1))\<rparr>)))"
  using assms by (auto simp: SwapN_def data_at_def data_set_def stack_ok_def)

lemma stack_abs_swap:
  assumes "0 < n" and "n + 1 \<le> stk_top s"
  shows "stack_abs (s\<lparr>stk_data := (stk_data s)(stk_top s - 1 := stk_data s (stk_top s - 1 - n),
                                        stk_top s - 1 - n := stk_data s (stk_top s - 1))\<rparr>)
         = (stack_abs s)[0 := stack_abs s ! nat n, nat n := stack_abs s ! 0]"
proof -
  let ?s1 = "s\<lparr>stk_data := (stk_data s)(stk_top s - 1 := stk_data s (stk_top s - 1 - n))\<rparr>"
  have "stack_abs ?s1 = (stack_abs s)[0 := stk_data s (stk_top s - 1 - n)]"
    using stack_abs_set [of 0 s] assms by simp
  moreover have "stack_abs (?s1\<lparr>stk_data := (stk_data ?s1)(stk_top ?s1 - 1 - n := stk_data s (stk_top s - 1))\<rparr>)
      = (stack_abs ?s1)[nat n := stk_data s (stk_top s - 1)]"
    using assms by (intro stack_abs_set) auto
  ultimately show ?thesis
    using assms by (simp add: nth_stack_abs)
qed

lemma Push_refines:
  assumes "stack_ok s"
  shows "refines stack_ok stack_abs (Push s v) (spec_push (stack_abs s) v)"
  using assms
  by (auto simp: refines_def spec_push_def Push_eq stack_abs_push stack_ok_def MaxDepth_def)

lemma Pop_refines:
  assumes "stack_ok s"
  shows "case Pop s of Ret (Inl e) \<Rightarrow> spec_pop (stack_abs s) = Inl e
       | Ret (Inr (v, s')) \<Rightarrow> stack_ok s' \<and> spec_pop (stack_abs s) = Inr (v, stack_abs s')
       | _ \<Rightarrow> False"
proof (cases "stk_top s = 0")
  case True
  then have "stack_abs s = []" by (simp add: stack_abs_def)
  with True assms show ?thesis by (simp add: Pop_eq spec_pop_def)
next
  case False
  with assms have "0 < stk_top s" by (simp add: stack_ok_def)
  with False assms show ?thesis
    by (simp add: Pop_eq spec_pop_def stack_abs_pop [of s]) (simp add: stack_ok_def)
qed

interpretation evm_stack: bounded_stack stack_ok stack_abs Push Pop DupN SwapN
proof unfold_locales
  fix s :: Stack and v n
  assume ok: "stack_ok s"
  then show "refines stack_ok stack_abs (Push s v) (spec_push (stack_abs s) v)"
    by (rule Push_refines)
  from ok show "case Pop s of Ret (Inl e) \<Rightarrow> spec_pop (stack_abs s) = Inl e
       | Ret (Inr (v, s')) \<Rightarrow> stack_ok s' \<and> spec_pop (stack_abs s) = Inr (v, stack_abs s')
       | _ \<Rightarrow> False"
    by (rule Pop_refines)
  assume n: "0 < (n :: nat)"
  then show "refines stack_ok stack_abs (DupN s (int n)) (spec_dup (stack_abs s) n)"
    using ok by (auto simp: refines_def spec_dup_def DupN_eq stack_abs_push stack_ok_def
        MaxDepth_def nth_stack_abs of_nat_diff)
  show "refines stack_ok stack_abs (SwapN s (int n)) (spec_swap (stack_abs s) n)"
  proof (cases "stk_top s < int n + 1")
    case True
    with ok n show ?thesis
      by (auto simp: refines_def spec_swap_def SwapN_eq stack_ok_def)
  next
    case False
    with ok n show ?thesis
      using stack_abs_swap [of "int n" s]
      by (auto simp: refines_def spec_swap_def SwapN_eq) (simp add: stack_ok_def)
  qed
qed

text \<open>In-place access: on a well-formed stack \<open>Back\<close> panics exactly when the slot is not live.\<close>

lemma Back_eq:
  assumes "stack_ok s" and "0 \<le> n"
  shows "Back s n = (if n < stk_top s then Ret (stack_abs s ! nat n) else Panic)"
  using assms by (auto simp: Back_def data_at_def stack_ok_def nth_stack_abs)

lemma SetBack_eq:
  assumes "stack_ok s" and "0 \<le> n"
  shows "SetBack s n v =
     (if n < stk_top s then Ret (s\<lparr>stk_data := (stk_data s)(stk_top s - 1 - n := v)\<rparr>) else Panic)"
  using assms by (auto simp: SetBack_def data_set_def stack_ok_def)

lemma stack_ok_PushE: "stack_ok s \<Longrightarrow> Push s v = Ret (Inr s') \<Longrightarrow> stack_ok s' \<and> stk_top s' = stk_top s + 1"
  by (auto simp: Push_eq stack_ok_def split: if_splits)

lemma stack_ok_PopE: "stack_ok s \<Longrightarrow> Pop s = Ret (Inr (v, s')) \<Longrightarrow> stack_ok s' \<and> stk_top s' = stk_top s - 1"
  by (auto simp: Pop_eq stack_ok_def split: if_splits)

lemma stack_ok_SetBackE: "stack_ok s \<Longrightarrow> SetBack s n v = Ret s' \<Longrightarrow> stack_ok s' \<and> stk_top s' = stk_top s"
  by (auto simp: SetBack_def data_set_def stack_ok_def split: if_splits)

lemma stack_ok_new [simp]: "stack_ok new_Stack"
  by (simp add: stack_ok_def new_Stack_def MaxDepth_def)

lemma stack_ok_Reset [simp]: "stack_ok (Stack_Reset s)"
  by (simp add: stack_ok_def Stack_Reset_def MaxDepth_def)

end
