(* ===== verification/Memory.thy ===== *)
theory Memory
  imports Types
begin

text \<open>
  The byte-addressed memory of a frame (\<open>memory/memory.go\<close>).  A Go slice is a window on a backing
  array: \<open>mbuf\<close> is the array, \<open>mcap\<close> the capacity and \<open>mlen\<close> the length of the slice \<open>data\<close>.
  Slicing \<open>data[lo:hi]\<close> is bounded by the capacity, not the length, as in Go, and \<open>data[:need]\<close>
  within the capacity shows whatever the array still holds.  Offsets and sizes are 64-bit words and
  every sum of theirs wraps as in the code.
\<close>

record Memory =
  mbuf :: "nat \<Rightarrow> byte"
  mcap :: nat
  mlen :: nat
  lastGas :: u64

definition new_Memory :: Memory where
  "new_Memory = \<lparr>mbuf = (\<lambda>_. 0), mcap = 4096, mlen = 0, lastGas = 0\<rparr>"

definition Memory_Reset :: "Memory \<Rightarrow> Memory" where
  "Memory_Reset m = m\<lparr>mlen := 0, lastGas := 0\<rparr>"

definition Memory_Len :: "Memory \<Rightarrow> nat" where
  "Memory_Len m = mlen m"

definition Memory_Data :: "Memory \<Rightarrow> bytes" where
  "Memory_Data m = map (mbuf m) [0..<mlen m]"

section \<open>Gas of an expansion\<close>

definition memoryGas :: "u64 \<Rightarrow> u64" where
  "memoryGas words = 3 * words + words * words div 512"

definition safeAdd :: "u64 \<Rightarrow> u64 \<Rightarrow> u64 \<times> bool" where
  "safeAdd a b = (let c = a + b in (c, c < a))"

definition ExpansionCost :: "Memory \<Rightarrow> u64 \<Rightarrow> u64 \<Rightarrow> error + u64" where
  "ExpansionCost m offset sz =
     (if sz = 0 then Inr 0
      else case safeAdd offset sz of (newSize, overflow) \<Rightarrow>
        if overflow then Inl Memory_ErrGasOverflow
        else let newWords = (newSize + 31) div 32;
                 newGas = memoryGas newWords
             in if newGas < lastGas m then Inr 0 else Inr (newGas - lastGas m))"

section \<open>Growing\<close>

text \<open>
  The growth of \<open>data\<close> to \<open>need\<close> bytes: a fresh zeroed array of twice the capacity (or of \<open>need\<close>
  bytes) with the live bytes copied over, or the same array with a longer window.
\<close>

definition grow :: "Memory \<Rightarrow> int \<Rightarrow> Memory go" where
  "grow m need =
     (if need > int (mlen m) then
        if need > int (mcap m) then
          let newCap = (if mcap m * 2 < nat need then nat need else mcap m * 2) in
          if newCap \<le> maxAlloc
          then Ret (m\<lparr>mbuf := (\<lambda>i. if i < mlen m then mbuf m i else 0), mcap := newCap, mlen := nat need\<rparr>)
          else Panic
        else Ret (m\<lparr>mlen := nat need\<rparr>)
      else Ret m)"

text \<open>
  \<open>Expand\<close> takes the remaining gas and returns it reduced; an error return changes neither the gas
  nor the memory.  The conversion of the size to Go's signed \<open>int\<close> is \<open>sint\<close>.
\<close>

definition Expand :: "Memory \<Rightarrow> u64 \<Rightarrow> u64 \<Rightarrow> u64 \<Rightarrow> (error + Memory \<times> u64) go" where
  "Expand m offset sz gasLeft =
     (if sz = 0 then Ret (Inr (m, gasLeft))
      else case ExpansionCost m offset sz of
        Inl err \<Rightarrow> Ret (Inl err)
      | Inr cost \<Rightarrow>
          if cost > gasLeft then Ret (Inl Memory_ErrGasOverflow)
          else let newSize = offset + sz;
                   newWords = (newSize + 31) div 32
               in go_bind (grow (m\<lparr>lastGas := memoryGas newWords\<rparr>) (sint (newWords * 32)))
                    (\<lambda>m'. Ret (Inr (m', gasLeft - cost))))"

section \<open>Reading and writing\<close>

definition slice_ok :: "Memory \<Rightarrow> u64 \<Rightarrow> u64 \<Rightarrow> bool" where
  "slice_ok m lo hi \<longleftrightarrow> lo \<le> hi \<and> unat hi \<le> mcap m"

definition mem_write :: "Memory \<Rightarrow> nat \<Rightarrow> bytes \<Rightarrow> Memory" where
  "mem_write m off bs =
     m\<lparr>mbuf := (\<lambda>i. if off \<le> i \<and> i < off + length bs then bs ! (i - off) else mbuf m i)\<rparr>"

definition mem_read :: "Memory \<Rightarrow> nat \<Rightarrow> nat \<Rightarrow> bytes" where
  "mem_read m lo hi = map (mbuf m) [lo..<hi]"

definition Set32 :: "Memory \<Rightarrow> u64 \<Rightarrow> bytes \<Rightarrow> Memory go" where
  "Set32 m offset val =
     (if slice_ok m offset (offset + 32)
      then Ret (mem_write m (unat offset) (take 32 val)) else Panic)"

definition Memory_Set :: "Memory \<Rightarrow> u64 \<Rightarrow> bytes \<Rightarrow> Memory go" where
  "Memory_Set m offset val =
     (if unat offset \<le> mlen m
      then Ret (mem_write m (unat offset) (take (mlen m - unat offset) val)) else Panic)"

definition SetByte :: "Memory \<Rightarrow> u64 \<Rightarrow> byte \<Rightarrow> Memory go" where
  "SetByte m offset b =
     (if unat offset < mlen m then Ret (mem_write m (unat offset) [b]) else Panic)"

definition Get :: "Memory \<Rightarrow> u64 \<Rightarrow> u64 \<Rightarrow> bytes go" where
  "Get m offset sz =
     (if sz = 0 then Ret []
      else if slice_ok m offset (offset + sz)
      then Ret (mem_read m (unat offset) (unat (offset + sz))) else Panic)"

definition GetCopy :: "Memory \<Rightarrow> u64 \<Rightarrow> u64 \<Rightarrow> bytes go" where
  "GetCopy m offset sz =
     (if sz = 0 then Ret []
      else go_bind (go_make (unat sz)) (\<lambda>dst.
        if slice_ok m offset (offset + sz)
        then Ret (copy_at dst 0 (mem_read m (unat offset) (unat (offset + sz)))) else Panic))"

text \<open>\<open>GetPtr\<close> is a slice to write through: its bounds in the backing array.\<close>

definition GetPtr :: "Memory \<Rightarrow> u64 \<Rightarrow> u64 \<Rightarrow> (nat \<times> nat) go" where
  "GetPtr m offset sz =
     (if sz = 0 then Ret (0, 0)
      else if slice_ok m offset (offset + sz)
      then Ret (unat offset, unat (offset + sz)) else Panic)"

text \<open>\<open>copy(dst, src)\<close> and the zeroing loop, through such a slice.\<close>

definition copy_ptr :: "Memory \<Rightarrow> nat \<times> nat \<Rightarrow> bytes \<Rightarrow> Memory" where
  "copy_ptr m p src = mem_write m (fst p) (take (snd p - fst p) src)"

definition zero_ptr :: "Memory \<Rightarrow> nat \<times> nat \<Rightarrow> Memory" where
  "zero_ptr m p = mem_write m (fst p) (replicate (snd p - fst p) 0)"

section \<open>Invariant and lemmas\<close>

definition mem_ok :: "Memory \<Rightarrow> bool" where
  "mem_ok m \<longleftrightarrow> mlen m \<le> mcap m \<and> mcap m \<le> maxAlloc \<and> 32 dvd mlen m"

lemma mem_ok_new [simp]: "mem_ok new_Memory"
  by (simp add: mem_ok_def new_Memory_def maxAlloc_def)

lemma mem_ok_Reset [simp]: "mem_ok m \<Longrightarrow> mem_ok (Memory_Reset m)"
  by (simp add: mem_ok_def Memory_Reset_def)

lemma mem_write_simps [simp]:
  "mcap (mem_write m off bs) = mcap m" "mlen (mem_write m off bs) = mlen m"
  "lastGas (mem_write m off bs) = lastGas m"
  by (simp_all add: mem_write_def)

lemma mem_ok_write [simp]: "mem_ok (mem_write m off bs) = mem_ok m"
  by (simp add: mem_ok_def)

lemma length_mem_read [simp]: "length (mem_read m lo hi) = hi - lo"
  by (simp add: mem_read_def)

lemma mem_read_write_same:
  "length bs = hi - lo \<Longrightarrow> lo \<le> hi \<Longrightarrow> mem_read (mem_write m lo bs) lo hi = bs"
  by (rule nth_equalityI) (auto simp: mem_read_def mem_write_def)

lemma mem_read_write_other:
  "hi \<le> off \<or> off + length bs \<le> lo \<Longrightarrow> mem_read (mem_write m off bs) lo hi = mem_read m lo hi"
  by (auto simp: mem_read_def mem_write_def)

lemma GetCopy_Get: "GetCopy m offset sz = Ret bs \<Longrightarrow> Get m offset sz = Ret bs"
  by (auto simp: GetCopy_def Get_def go_bind_Ret_iff go_make_def slice_ok_def copy_at_full
      unat_add_le split: if_splits)

lemma memoryGas_0 [simp]: "memoryGas 0 = 0"
  by (simp add: memoryGas_def)

text \<open>The words an access of \<open>sz\<close> bytes at \<open>offset\<close> needs, as long as nothing wraps.\<close>

lemma words_no_wrap:
  assumes "unat offset + unat sz \<le> 2 ^ 62"
  shows "unat ((offset + sz + 31) div 32 :: u64) = (unat offset + unat sz + 31) div 32"
    and "unat ((offset + sz + 31) div 32 * 32 :: u64) = (unat offset + unat sz + 31) div 32 * 32"
    and "sint ((offset + sz + 31) div 32 * 32 :: u64) = int ((unat offset + unat sz + 31) div 32 * 32)"
proof -
  have "unat (offset + sz) = unat offset + unat sz"
    using assms by (intro unat_add_no_wrap) simp
  then have a: "unat (offset + sz + 31) = unat offset + unat sz + 31"
    using assms by (subst unat_add_no_wrap) simp_all
  then show 1: "unat ((offset + sz + 31) div 32 :: u64) = (unat offset + unat sz + 31) div 32"
    by (simp add: unat_div)
  have le: "(unat offset + unat sz + 31) div 32 * 32 \<le> unat offset + unat sz + 31"
    by (rule div_times_less_eq_dividend)
  show 2: "unat ((offset + sz + 31) div 32 * 32 :: u64) = (unat offset + unat sz + 31) div 32 * 32"
    using le assms by (subst unat_mult_lem [THEN iffD1]) (simp_all add: 1)
  show "sint ((offset + sz + 31) div 32 * 32 :: u64) = int ((unat offset + unat sz + 31) div 32 * 32)"
    unfolding 2 [symmetric] by (rule sint_u64_small, unfold 2) (use le assms in simp)
qed

lemma grow_cases:
  assumes "grow m need = Ret m'" and "mem_ok m" and "32 dvd need"
  shows "mem_ok m' \<and> mlen m' = max (mlen m) (nat need) \<and> lastGas m' = lastGas m
    \<and> (\<forall>i < mlen m. mbuf m' i = mbuf m i)"
proof -
  obtain k where "need = 32 * k" using assms(3) ..
  then have "nat need = 32 * nat k" by (simp add: nat_mult_distrib)
  then have "32 dvd nat need" by simp
  with assms(1,2) show ?thesis
    by (auto simp: grow_def mem_ok_def Let_def max_def split: if_splits)
qed

text \<open>The byte size asked for is a multiple of 32 whatever the offset and size, even where they wrap.\<close>

lemma unat_div32_mult32: "unat (w div 32 * 32 :: u64) = unat w div 32 * 32"
proof -
  have le: "unat w div 32 * 32 \<le> unat w" by (rule div_times_less_eq_dividend)
  have "unat (w div 32) * unat (32 :: u64) < 2 ^ LENGTH(64)"
    using le_less_trans [OF le unat_u64_bound] by (simp add: unat_div)
  then show ?thesis by (subst unat_mult_lem [THEN iffD1]) (simp_all add: unat_div)
qed

lemma dvd32_sint: "32 dvd sint (w div 32 * 32 :: u64)"
proof -
  have "uint (w div 32 * 32 :: u64) = int (unat w div 32 * 32)"
    by (simp only: uint_nat unat_div32_mult32)
  then have u: "32 dvd uint (w div 32 * 32 :: u64)" by simp
  have "sint (w div 32 * 32 :: u64) =
      (uint (w div 32 * 32 :: u64) + 2 ^ 63) mod 2 ^ 64 - 2 ^ 63"
    by (simp add: sint_uint signed_take_bit_eq_take_bit_shift take_bit_eq_mod)
  then show ?thesis using u by (simp add: dvd_diff dvd_mod)
qed

lemma Expand_cases:
  assumes "Expand m offset sz g = Ret (Inr (m', g'))" and "mem_ok m"
  shows "mem_ok m' \<and> mlen m \<le> mlen m' \<and> (\<forall>i < mlen m. mbuf m' i = mbuf m i) \<and> g' \<le> g"
proof (cases "sz = 0")
  case True
  with assms show ?thesis by (simp add: Expand_def)
next
  case False
  let ?w = "(offset + sz + 31) div 32"
  from assms(1) False obtain cost where
    cost: "cost \<le> g" "g' = g - cost"
    and grow: "grow (m\<lparr>lastGas := memoryGas ?w\<rparr>) (sint (?w * 32)) = Ret m'"
    by (auto simp: Expand_def Let_def go_bind_Ret_iff not_less split: sum.splits if_splits)
  have "mem_ok (m\<lparr>lastGas := memoryGas ?w\<rparr>)" using assms(2) by (simp add: mem_ok_def)
  from grow_cases [OF grow this dvd32_sint] cost show ?thesis
    by (auto simp: word_sub_le)
qed

lemma grow_fresh:
  assumes "need \<le> maxAlloc"
  shows "\<exists>n'. grow (new_Memory\<lparr>lastGas := w\<rparr>) (int need) = Ret n' \<and> mbuf n' = (\<lambda>_. 0) \<and> need \<le> mcap n'"
proof (cases "need \<le> 4096")
  case True
  then show ?thesis by (auto simp: grow_def new_Memory_def)
next
  case False
  with assms show ?thesis
    by (intro exI [of _ "(new_Memory\<lparr>lastGas := w\<rparr>)\<lparr>mcap := max need 8192, mlen := need\<rparr>"])
      (auto simp: grow_def new_Memory_def maxAlloc_def Let_def max_def)
qed

section \<open>Properties\<close>

text \<open>
  C24: a successful expansion whose range ends at \<open>2 ^ 62\<close> or below makes that whole range accessible, in
  whole words, keeps every byte that was live, and takes from the gas exactly the cost computed
  beforehand.  (Towards \<open>2 ^ 64\<close> an expansion can succeed without growing: \<open>Expand_wraps_at_the_top\<close>.)
\<close>

theorem Expand_makes_accessible:
  assumes "mem_ok m" and "sz \<noteq> 0" and "unat offset + unat sz \<le> 2 ^ 62"
    and "Expand m offset sz g = Ret (Inr (m', g'))"
  shows "mem_ok m' \<and> mlen m' = max (mlen m) ((unat offset + unat sz + 31) div 32 * 32)
    \<and> (\<forall>i < mlen m. mbuf m' i = mbuf m i)
    \<and> (\<exists>cost. ExpansionCost m offset sz = Inr cost \<and> unat g = unat g' + unat cost)"
proof -
  let ?w = "(offset + sz + 31) div 32"
  from assms(2,4) obtain cost where
    ec: "ExpansionCost m offset sz = Inr cost" and cost: "cost \<le> g" "g' = g - cost"
    and grow: "grow (m\<lparr>lastGas := memoryGas ?w\<rparr>) (sint (?w * 32)) = Ret m'"
    by (auto simp: Expand_def Let_def go_bind_Ret_iff not_less split: sum.splits if_splits)
  have "mem_ok (m\<lparr>lastGas := memoryGas ?w\<rparr>)" using assms(1) by (simp add: mem_ok_def)
  from grow_cases [OF grow this dvd32_sint] words_no_wrap(3) [OF assms(3)] cost ec show ?thesis
    by (auto simp: unat_diff word_le_nat_alt)
qed

theorem Expand_makes_accessible_witness:
  "\<exists>m'. Expand new_Memory 10 40 100 = Ret (Inr (m', 94)) \<and> mlen m' = 64"
proof -
  have "\<exists>m'. Expand new_Memory 10 40 100 = Ret (Inr (m', 94))"
    by (simp add: Expand_def ExpansionCost_def safeAdd_def Let_def memoryGas_def grow_def new_Memory_def)
  then obtain m' where m': "Expand new_Memory 10 40 100 = Ret (Inr (m', 94))" ..
  have "mlen m' = 64"
    using Expand_makes_accessible [OF mem_ok_new _ _ m'] by (simp add: new_Memory_def)
  with m' show ?thesis by blast
qed

text \<open>
  C23: a 32-byte write is read back as it was written, and touches no other byte of the memory.
\<close>

theorem Set32_then_Get:
  assumes "Set32 m offset v = Ret m'" and "length v = 32"
  shows "Get m' offset 32 = Ret v \<and> mlen m' = mlen m
    \<and> (\<forall>i. i < unat offset \<or> unat offset + 32 \<le> i \<longrightarrow> mbuf m' i = mbuf m i)"
proof -
  from assms have ok: "slice_ok m offset (offset + 32)" and m': "m' = mem_write m (unat offset) v"
    by (auto simp: Set32_def split: if_splits)
  then have "unat (offset + 32) = unat offset + 32"
    using unat_add_le [of offset 32] by (simp add: slice_ok_def)
  moreover have "slice_ok m' offset (offset + 32)" using ok by (simp add: slice_ok_def m')
  ultimately show ?thesis
    using assms(2) by (auto simp: Get_def m' mem_read_write_same) (auto simp: mem_write_def)
qed

theorem Set32_then_Get_witness:
  "\<exists>m'. Set32 new_Memory 7 (replicate 32 9) = Ret m' \<and> Get m' 7 32 = Ret (replicate 32 9)"
proof -
  obtain m' where m': "Set32 new_Memory 7 (replicate 32 9) = Ret m'"
    by (simp add: Set32_def slice_ok_def new_Memory_def)
  from Set32_then_Get [OF m'] m' show ?thesis by auto
qed

text \<open>
  C38: the memory of a frame that is reset and used again is not cleared.  When a range ends, in whole words,
  within the capacity of the old array and the gas covers the price of an expansion to it, the expansion
  succeeds and reading the range gives the bytes the previous user left there; in a fresh memory the same
  expansion succeeds for the same gas and reading gives zeros.
\<close>

theorem Reset_Expand_shows_old_bytes:
  assumes "mem_ok m" and "sz \<noteq> 0" and "(unat offset + unat sz + 31) div 32 * 32 \<le> mcap m"
    and "memoryGas ((offset + sz + 31) div 32) \<le> g"
  shows "\<exists>m' n' g'. Expand (Memory_Reset m) offset sz g = Ret (Inr (m', g'))
    \<and> Get m' offset sz = Ret (map (mbuf m) [unat offset..<unat offset + unat sz])
    \<and> Expand new_Memory offset sz g = Ret (Inr (n', g')) \<and> Get n' offset sz = Ret (replicate (unat sz) 0)"
proof -
  let ?w = "(offset + sz + 31) div 32" and ?need = "(unat offset + unat sz + 31) div 32 * 32"
  have cap: "unat offset + unat sz \<le> ?need" using div_mult_mod_eq [of "unat offset + unat sz + 31" 32] by linarith
  have alloc: "?need \<le> maxAlloc" using assms(1,3) by (simp add: mem_ok_def)
  then have le: "unat offset + unat sz \<le> 2 ^ 62" using cap by (simp add: maxAlloc_def)
  then have hi: "unat (offset + sz) = unat offset + unat sz" by (intro unat_add_no_wrap) simp
  then have over: "\<not> offset + sz < offset" by (simp add: word_less_nat_alt)
  have sint: "sint (?w * 32) = int ?need" by (rule words_no_wrap(3) [OF le])
  have cost: "ExpansionCost n offset sz = Inr (memoryGas ?w)" if "lastGas n = 0" for n
    using assms(2) over that by (simp add: ExpansionCost_def safeAdd_def Let_def)
  have get: "Get n offset sz = Ret (map (mbuf n) [unat offset..<unat offset + unat sz])" if "?need \<le> mcap n" for n
    using assms(2) cap hi that by (simp add: Get_def slice_ok_def mem_read_def word_le_nat_alt)
  have expand: "Expand n offset sz g = go_bind (grow (n\<lparr>lastGas := memoryGas ?w\<rparr>) (int ?need)) (\<lambda>n'. Ret (Inr (n', g - memoryGas ?w)))"
    if "lastGas n = 0" for n
    using assms(2,4) cost [OF that] by (simp only: Expand_def Let_def sint not_less [symmetric] if_False sum.case simp_thms)
  have reset: "grow ((Memory_Reset m)\<lparr>lastGas := memoryGas ?w\<rparr>) (int ?need) = Ret (m\<lparr>mlen := ?need, lastGas := memoryGas ?w\<rparr>)"
    using assms(2,3) cap by (auto simp: grow_def Memory_Reset_def)
  obtain n' where fresh: "grow (new_Memory\<lparr>lastGas := memoryGas ?w\<rparr>) (int ?need) = Ret n'" "mbuf n' = (\<lambda>_. 0)" "?need \<le> mcap n'"
    using grow_fresh [OF alloc, of "memoryGas ?w"] by blast
  have "Get n' offset sz = Ret (replicate (unat sz) 0)"
    using get [OF fresh(3)] by (simp add: fresh(2) map_replicate_const)
  moreover have "Get (m\<lparr>mlen := ?need, lastGas := memoryGas ?w\<rparr>) offset sz = Ret (map (mbuf m) [unat offset..<unat offset + unat sz])"
    using get [of "m\<lparr>mlen := ?need, lastGas := memoryGas ?w\<rparr>"] assms(3) by simp
  moreover have "lastGas (Memory_Reset m) = 0" "lastGas new_Memory = 0" by (simp_all add: Memory_Reset_def new_Memory_def)
  ultimately show ?thesis using expand reset fresh(1) by simp
qed

theorem Reset_Expand_shows_old_bytes_witness:
  "\<exists>m m' n' g'. SetByte (new_Memory\<lparr>mlen := 32\<rparr>) 5 77 = Ret m \<and>
     Expand (Memory_Reset m) 5 1 100 = Ret (Inr (m', g')) \<and> Get m' 5 1 = Ret [77] \<and>
     Expand new_Memory 5 1 100 = Ret (Inr (n', g')) \<and> Get n' 5 1 = Ret [0]"
proof -
  let ?m = "mem_write (new_Memory\<lparr>mlen := 32\<rparr>) 5 [77]"
  have m: "SetByte (new_Memory\<lparr>mlen := 32\<rparr>) 5 77 = Ret ?m"
    by (simp add: SetByte_def)
  have "mem_ok ?m" by (simp add: mem_ok_def new_Memory_def maxAlloc_def)
  then have "\<exists>m' n' g'. Expand (Memory_Reset ?m) 5 1 100 = Ret (Inr (m', g')) \<and> Get m' 5 1 = Ret (map (mbuf ?m) [unat (5 :: u64)..<unat (5 :: u64) + unat (1 :: u64)])
    \<and> Expand new_Memory 5 1 100 = Ret (Inr (n', g')) \<and> Get n' 5 1 = Ret (replicate (unat (1 :: u64)) 0)"
    by (rule Reset_Expand_shows_old_bytes) (simp_all add: new_Memory_def memoryGas_def)
  with m show ?thesis by (auto simp: mem_write_def)
qed

text \<open>
  An expansion forgets what was paid before.  After any successful access to the first word the
  cost of reaching \<open>w\<close> words is that of growing from one word, however long the memory already is.
\<close>

theorem Expand_forgets_what_was_paid:
  assumes "Expand m 0 32 g = Ret (Inr (m', g'))" and "0 < w" and "unat w \<le> 2 ^ 20"
  shows "ExpansionCost m' 0 (32 * w) = Inr (memoryGas w - 3)"
proof -
  from assms(1) have "lastGas m' = 3"
    by (auto simp: Expand_def ExpansionCost_def safeAdd_def Let_def memoryGas_def go_bind_Ret_iff
        grow_def split: if_splits)
  moreover have u: "unat (32 * w) = 32 * unat w"
    using assms(3) by (simp add: unat_word_ariths)
  moreover have "(32 * w + 31) div 32 = w"
    using assms(3) u by (simp add: word_unat_eq_iff unat_div unat_word_ariths)
  moreover have "\<not> memoryGas w < 3"
  proof -
    have w: "1 \<le> unat w" using assms(2) by (simp add: word_less_nat_alt)
    have sq: "unat w * unat w \<le> 2 ^ 40"
      using mult_le_mono [OF assms(3) assms(3)] by (simp add: power_add [symmetric])
    then have "unat (w * w) = unat w * unat w" by (simp add: unat_word_ariths)
    then have "unat (memoryGas w) = 3 * unat w + unat w * unat w div 512"
      using assms(3) sq by (simp add: memoryGas_def unat_word_ariths unat_div)
    then show ?thesis using w by (simp add: word_less_nat_alt)
  qed
  moreover have "32 * w \<noteq> 0"
    using u assms(2) by (auto simp: word_unat_eq_iff word_less_nat_alt)
  ultimately show ?thesis
    by (simp add: ExpansionCost_def safeAdd_def Let_def)
qed

theorem Expand_forgets_what_was_paid_witness:
  "\<exists>m1 m2. Expand new_Memory 0 64 100 = Ret (Inr (m1, 94)) \<and> mlen m1 = 64 \<and>
     Expand m1 0 32 94 = Ret (Inr (m2, 94)) \<and> mlen m2 = 64 \<and> ExpansionCost m2 0 64 = Inr 3"
proof -
  let ?m1 = "new_Memory\<lparr>mlen := 64, lastGas := 6\<rparr>" and ?m2 = "new_Memory\<lparr>mlen := 64, lastGas := 3\<rparr>"
  have 1: "Expand new_Memory 0 64 100 = Ret (Inr (?m1, 94))"
    by (simp add: Expand_def ExpansionCost_def safeAdd_def Let_def memoryGas_def grow_def new_Memory_def)
  have 2: "Expand ?m1 0 32 94 = Ret (Inr (?m2, 94))"
    by (simp add: Expand_def ExpansionCost_def safeAdd_def Let_def memoryGas_def grow_def new_Memory_def)
  have "ExpansionCost ?m2 0 64 = Inr 3"
    using Expand_forgets_what_was_paid [OF 2, of 2] by (simp add: memoryGas_def)
  with 1 2 show ?thesis by (intro exI conjI) auto
qed

text \<open>
  Near the top of the 64-bit range the rounding to words wraps around: an expansion whose end does
  not overflow but is within 31 bytes of \<open>2 ^ 64\<close> is free, does not grow the memory, and the write
  that follows it panics.
\<close>

theorem Expand_wraps_at_the_top:
  assumes "mem_ok m" and "sz \<noteq> 0" and "unat offset + unat sz < 2 ^ 64"
    and "2 ^ 64 \<le> unat offset + unat sz + 31"
  shows "Expand m offset sz g = Ret (Inr (m\<lparr>lastGas := 0\<rparr>, g))
    \<and> (unat sz \<le> 2 ^ 32 \<longrightarrow> SetByte (m\<lparr>lastGas := 0\<rparr>) offset b = Panic)"
proof -
  have "unat (offset + sz) = unat offset + unat sz"
    using assms(3) by (intro unat_add_no_wrap) simp
  then have "unat (offset + sz + 31) = unat offset + unat sz + 31 - 2 ^ 64"
    and no: "\<not> offset + sz < offset"
    using assms(3,4) unat_plus_if' [of "offset + sz" 31] by (simp_all add: word_less_nat_alt)
  then have "(offset + sz + 31) div 32 = 0"
    using assms(3) by (simp add: word_unat_eq_iff unat_div)
  moreover have "mlen m < unat offset" if "unat sz \<le> 2 ^ 32"
    using that assms(1,4) by (simp add: mem_ok_def maxAlloc_def)
  ultimately show ?thesis
    using assms(2) no
    by (auto simp: Expand_def ExpansionCost_def safeAdd_def Let_def grow_def SetByte_def word_gt_0)
qed

theorem Expand_wraps_at_the_top_witness:
  "Expand new_Memory 18446744073709551614 1 0 = Ret (Inr (new_Memory, 0))
   \<and> SetByte new_Memory 18446744073709551614 1 = Panic"
  using Expand_wraps_at_the_top [OF mem_ok_new, of 1 18446744073709551614 0 1]
  by (simp add: new_Memory_def)

end
