(* ===== verification/Gas.thy ===== *)
theory Gas
  imports Types
begin

text \<open>
  The gas schedule (\<open>gas/gas.go\<close>): the constants of the Berlin and London rules and the dynamic
  costs, as 64-bit words with the wrap-around of \<open>uint64\<close>.
\<close>

abbreviation (input) gas_Zero :: u64 where "gas_Zero \<equiv> 0"
abbreviation (input) gas_JumpDest :: u64 where "gas_JumpDest \<equiv> 1"
abbreviation (input) gas_Base :: u64 where "gas_Base \<equiv> 2"
abbreviation (input) gas_VeryLow :: u64 where "gas_VeryLow \<equiv> 3"
abbreviation (input) gas_Low :: u64 where "gas_Low \<equiv> 5"
abbreviation (input) gas_Mid :: u64 where "gas_Mid \<equiv> 8"
abbreviation (input) gas_High :: u64 where "gas_High \<equiv> 10"
abbreviation (input) gas_WarmStorageRead :: u64 where "gas_WarmStorageRead \<equiv> 100"
abbreviation (input) gas_ColdAccountAccess :: u64 where "gas_ColdAccountAccess \<equiv> 2600"
abbreviation (input) gas_ColdSload :: u64 where "gas_ColdSload \<equiv> 2100"
abbreviation (input) gas_SstoreSet :: u64 where "gas_SstoreSet \<equiv> 20000"
abbreviation (input) gas_SstoreReset :: u64 where "gas_SstoreReset \<equiv> 2900"
abbreviation (input) gas_SstoreClear :: u64 where "gas_SstoreClear \<equiv> 4800"
abbreviation (input) gas_SstoreNoopGas :: u64 where "gas_SstoreNoopGas \<equiv> 100"
abbreviation (input) gas_SstoreInitRefund :: u64 where "gas_SstoreInitRefund \<equiv> 19900"
abbreviation (input) gas_SstoreCleanRefund :: u64 where "gas_SstoreCleanRefund \<equiv> 4800"
abbreviation (input) gas_Exp :: u64 where "gas_Exp \<equiv> 10"
abbreviation (input) gas_ExpByte :: u64 where "gas_ExpByte \<equiv> 50"
abbreviation (input) gas_Sha3 :: u64 where "gas_Sha3 \<equiv> 30"
abbreviation (input) gas_Sha3Word :: u64 where "gas_Sha3Word \<equiv> 6"
abbreviation (input) gas_Copy :: u64 where "gas_Copy \<equiv> 3"
abbreviation (input) gas_BlockHash :: u64 where "gas_BlockHash \<equiv> 20"
abbreviation (input) gas_Log :: u64 where "gas_Log \<equiv> 375"
abbreviation (input) gas_LogData :: u64 where "gas_LogData \<equiv> 8"
abbreviation (input) gas_LogTopic :: u64 where "gas_LogTopic \<equiv> 375"
abbreviation (input) gas_CallValue :: u64 where "gas_CallValue \<equiv> 9000"
abbreviation (input) gas_CallStipend :: u64 where "gas_CallStipend \<equiv> 2300"
abbreviation (input) gas_NewAccount :: u64 where "gas_NewAccount \<equiv> 25000"
abbreviation (input) gas_SelfDestruct :: u64 where "gas_SelfDestruct \<equiv> 5000"
abbreviation (input) gas_SelfDestructNewAccount :: u64 where "gas_SelfDestructNewAccount \<equiv> 25000"
abbreviation (input) gas_MaxRefundQuotient :: u64 where "gas_MaxRefundQuotient \<equiv> 5"

section \<open>Dynamic costs\<close>

definition CallGas :: "u64 \<Rightarrow> u64" where
  "CallGas available = available - available div 64"

definition CopyWords :: "u64 \<Rightarrow> u64" where
  "CopyWords n = (n + 31) div 32 * gas_Copy"

definition Sha3Words :: "u64 \<Rightarrow> u64" where
  "Sha3Words n = (n + 31) div 32 * gas_Sha3Word"

definition InitCodeCost :: "u64 \<Rightarrow> u64" where
  "InitCodeCost n = 0"

definition isZero :: "bytes \<Rightarrow> bool" where
  "isZero b = list_all (\<lambda>v. v = 0) b"

text \<open>The pair of the cost and the refund.\<close>

definition SstoreCost :: "bytes \<Rightarrow> bytes \<Rightarrow> bytes \<Rightarrow> bool \<Rightarrow> u64 \<times> u64" where
  "SstoreCost current original newVal warm =
     (if current = newVal then
        if warm then (gas_SstoreNoopGas, 0) else (gas_ColdSload + gas_SstoreNoopGas, 0)
      else if original = current then
        if isZero original then (gas_SstoreSet, 0)
        else if isZero newVal then (gas_SstoreReset, gas_SstoreClear)
        else (gas_SstoreReset, 0)
      else
        let cost = gas_SstoreNoopGas;
            refund = (if \<not> isZero original then
                        if isZero current then 0
                        else if isZero newVal then 0 + gas_SstoreClear else 0
                      else 0)
        in if original = newVal then
             if isZero original then (cost, refund + gas_SstoreInitRefund)
             else (cost, refund + gas_SstoreCleanRefund)
           else (cost, refund))"

section \<open>Lemmas\<close>

lemma unat_CallGas: "unat (CallGas a) = unat a - unat a div 64"
proof -
  have "a div 64 \<le> a" by (simp add: word_le_nat_alt unat_div)
  then show ?thesis by (simp add: CallGas_def unat_diff unat_div)
qed

lemma CallGas_le: "CallGas a \<le> a"
  by (simp add: word_le_nat_alt unat_CallGas)

lemma isZero_iff: "hash_ok b \<Longrightarrow> isZero b \<longleftrightarrow> b = ZeroHash"
  by (auto simp: isZero_def hash_ok_def ZeroHash_def list_all_iff intro: replicate_eqI)

lemma SstoreCost_cost_cases:
  "fst (SstoreCost cur orig new True) \<in> {100, 2900, 20000}"
  by (simp add: SstoreCost_def Let_def)

section \<open>Properties\<close>

text \<open>
  A call forwards all but one 64th of the gas left: what stays behind is exactly the 64th, rounded
  down, and nothing is created or lost by the split.
\<close>

theorem CallGas_keeps_one_64th:
  "unat (CallGas available) + unat available div 64 = unat available \<and> CallGas available \<le> available"
  using CallGas_le [of available] by (simp add: unat_CallGas)

text \<open>
  C33: the refund of storage writes is not taken back.  Clearing a slot that held its original non-zero
  value and then restoring that value in the same transaction costs 3000 gas for the two writes and
  accumulates a refund of 9600: the branch of the code for a slot whose current value is zero is
  empty, where the refund granted for the clearing would have to be subtracted.
\<close>

theorem SstoreCost_clear_and_restore:
  assumes "hash_ok x" and "x \<noteq> ZeroHash"
  shows "SstoreCost x x ZeroHash True = (2900, 4800) \<and> SstoreCost ZeroHash x x True = (100, 4800)"
  using assms isZero_iff [of x] isZero_iff [of ZeroHash] by (auto simp: SstoreCost_def Let_def)

theorem SstoreCost_clear_and_restore_witness:
  "SstoreCost (replicate 32 1) (replicate 32 1) ZeroHash True = (2900, 4800)"
proof -
  have "(replicate 32 1 :: bytes) \<noteq> ZeroHash"
    by (simp add: ZeroHash_def)
  with SstoreCost_clear_and_restore [of "replicate 32 1"] show ?thesis
    by (simp add: hash_ok_def)
qed

text \<open>
  C32: a warm storage write costs the same as a write under the net metering of EIP-2200 with the
  Berlin prices: 100 unless the slot still has its original value, then 20000 from zero and 2900
  otherwise; a refund is granted only when a slot is cleared or gets its original value back.
\<close>

theorem SstoreCost_net_metering:
  assumes "hash_ok cur" and "hash_ok orig" and "hash_ok new"
  shows "fst (SstoreCost cur orig new True) =
      (if cur = new \<or> orig \<noteq> cur then 100 else if orig = ZeroHash then 20000 else 2900)
    \<and> (snd (SstoreCost cur orig new True) \<noteq> 0 \<longrightarrow> cur \<noteq> new \<and> (new = ZeroHash \<or> new = orig))"
  using assms by (auto simp: SstoreCost_def Let_def isZero_iff)

theorem SstoreCost_net_metering_witness:
  "fst (SstoreCost ZeroHash ZeroHash (replicate 32 1) True) = 20000"
proof -
  have ok: "hash_ok (replicate 32 1)" by (simp add: hash_ok_def)
  have "(replicate 32 1 :: bytes) \<noteq> ZeroHash"
    by (simp add: ZeroHash_def)
  with SstoreCost_net_metering [OF hash_ok_ZeroHash hash_ok_ZeroHash ok] show ?thesis by simp
qed

end
