(* ===== verification/StateDB.thy ===== *)
theory StateDB
  imports Types
begin

text \<open>
  The in-memory state database (\<open>state/state.go\<close>): accounts, storage with the values at the start of
  the transaction, the access lists, and a journal of old values with snapshots into it.  Maps are
  partial functions, sets of keys are sets.  The account pointers the methods hold are used at once,
  so an account is a value in the map.  A tagged \<open>journalEntry\<close> struct is a datatype.
\<close>

section \<open>State\<close>

record Account =
  acc_Balance :: word256
  acc_Nonce :: u64
  acc_CodeHash :: Hash
  acc_Code :: bytes
  acc_Suicide :: bool

definition new_Account :: Account where
  "new_Account = \<lparr>acc_Balance = 0, acc_Nonce = 0, acc_CodeHash = ZeroHash, acc_Code = [],
     acc_Suicide = False\<rparr>"

type_synonym Storage = "Hash \<rightharpoonup> Hash"

definition Storage_Clone :: "Storage \<Rightarrow> Storage" where
  "Storage_Clone s = s"

datatype journalEntry =
    jBalance Address word256
  | jNonce Address u64
  | jCode Address bytes Hash
  | jStorage Address Hash Hash
  | jCreate Address
  | jSuicide Address bool

record Log =
  log_Address :: Address
  log_Topics :: "Hash list"
  log_Data :: bytes

record StateDB =
  accounts :: "Address \<rightharpoonup> Account"
  storage :: "Address \<rightharpoonup> Storage"
  origStorage :: "Address \<rightharpoonup> Storage"
  accessedAddrs :: "Address set"
  accessedSlots :: "Address \<rightharpoonup> Hash set"
  journal :: "journalEntry list"
  snapshots :: "nat list"
  Logs :: "Log list"
  Refund :: u64
  createdInTx :: "Address set"

definition new_StateDB :: StateDB where
  "new_StateDB = \<lparr>accounts = Map.empty, storage = Map.empty, origStorage = Map.empty,
     accessedAddrs = {}, accessedSlots = Map.empty, journal = [], snapshots = [], Logs = [],
     Refund = 0, createdInTx = {}\<rparr>"

definition StateDB_Reset :: "StateDB \<Rightarrow> StateDB" where
  "StateDB_Reset s = s\<lparr>accounts := Map.empty, storage := Map.empty, origStorage := Map.empty,
     accessedAddrs := {}, accessedSlots := Map.empty, journal := [], snapshots := [], Logs := [],
     Refund := 0\<rparr>"

section \<open>Accounts\<close>

definition getOrCreate :: "StateDB \<Rightarrow> Address \<Rightarrow> Account \<times> StateDB" where
  "getOrCreate s addr =
     (case accounts s addr of
        Some a \<Rightarrow> (a, s)
      | None \<Rightarrow> (new_Account, s\<lparr>accounts := (accounts s)(addr \<mapsto> new_Account)\<rparr>))"

definition put_account :: "StateDB \<Rightarrow> Address \<Rightarrow> Account \<Rightarrow> StateDB" where
  "put_account s addr a = s\<lparr>accounts := (accounts s)(addr \<mapsto> a)\<rparr>"

definition add_journal :: "StateDB \<Rightarrow> journalEntry \<Rightarrow> StateDB" where
  "add_journal s e = s\<lparr>journal := journal s @ [e]\<rparr>"

definition Exists :: "StateDB \<Rightarrow> Address \<Rightarrow> bool" where
  "Exists s addr \<longleftrightarrow> accounts s addr \<noteq> None"

definition Empty :: "StateDB \<Rightarrow> Address \<Rightarrow> bool" where
  "Empty s addr =
     (case accounts s addr of
        None \<Rightarrow> True
      | Some a \<Rightarrow> acc_Balance a = 0 \<and> acc_Nonce a = 0 \<and> length (acc_Code a) = 0)"

definition GetBalance :: "StateDB \<Rightarrow> Address \<Rightarrow> word256" where
  "GetBalance s addr = (case accounts s addr of None \<Rightarrow> 0 | Some a \<Rightarrow> acc_Balance a)"

definition SetBalance :: "StateDB \<Rightarrow> Address \<Rightarrow> word256 \<Rightarrow> StateDB" where
  "SetBalance s addr val =
     (let (a, s1) = getOrCreate s addr;
          s2 = add_journal s1 (jBalance addr (acc_Balance a))
      in put_account s2 addr (a\<lparr>acc_Balance := val\<rparr>))"

definition AddBalance :: "lib \<Rightarrow> StateDB \<Rightarrow> Address \<Rightarrow> word256 \<Rightarrow> StateDB" where
  "AddBalance L s addr amount =
     (let (a, s1) = getOrCreate s addr;
          s2 = add_journal s1 (jBalance addr (acc_Balance a))
      in put_account s2 addr (a\<lparr>acc_Balance := u_add L (acc_Balance a) amount\<rparr>))"

definition SubBalance :: "lib \<Rightarrow> StateDB \<Rightarrow> Address \<Rightarrow> word256 \<Rightarrow> StateDB" where
  "SubBalance L s addr amount =
     (let (a, s1) = getOrCreate s addr;
          s2 = add_journal s1 (jBalance addr (acc_Balance a))
      in put_account s2 addr (a\<lparr>acc_Balance := u_sub L (acc_Balance a) amount\<rparr>))"

definition GetNonce :: "StateDB \<Rightarrow> Address \<Rightarrow> u64" where
  "GetNonce s addr = (case accounts s addr of None \<Rightarrow> 0 | Some a \<Rightarrow> acc_Nonce a)"

definition SetNonce :: "StateDB \<Rightarrow> Address \<Rightarrow> u64 \<Rightarrow> StateDB" where
  "SetNonce s addr nonce =
     (let (a, s1) = getOrCreate s addr;
          s2 = add_journal s1 (jNonce addr (acc_Nonce a))
      in put_account s2 addr (a\<lparr>acc_Nonce := nonce\<rparr>))"

definition GetCode :: "StateDB \<Rightarrow> Address \<Rightarrow> bytes" where
  "GetCode s addr = (case accounts s addr of None \<Rightarrow> [] | Some a \<Rightarrow> acc_Code a)"

definition GetCodeHash :: "StateDB \<Rightarrow> Address \<Rightarrow> Hash" where
  "GetCodeHash s addr = (case accounts s addr of None \<Rightarrow> ZeroHash | Some a \<Rightarrow> acc_CodeHash a)"

definition SetCode :: "StateDB \<Rightarrow> Address \<Rightarrow> bytes \<Rightarrow> Hash \<Rightarrow> StateDB" where
  "SetCode s addr code codeHash =
     (let (a, s1) = getOrCreate s addr;
          s2 = add_journal s1 (jCode addr (acc_Code a) (acc_CodeHash a))
      in put_account s2 addr (a\<lparr>acc_Code := code, acc_CodeHash := codeHash\<rparr>))"

definition CreateAccount :: "StateDB \<Rightarrow> Address \<Rightarrow> StateDB" where
  "CreateAccount s addr =
     (let newAcc = (case accounts s addr of
                      Some prev \<Rightarrow> new_Account\<lparr>acc_Balance := acc_Balance prev\<rparr>
                    | None \<Rightarrow> new_Account);
          s1 = put_account (add_journal s (jCreate addr)) addr newAcc
      in s1\<lparr>createdInTx := insert addr (createdInTx s1)\<rparr>)"

definition CreatedInTx :: "StateDB \<Rightarrow> Address \<Rightarrow> bool" where
  "CreatedInTx s addr \<longleftrightarrow> addr \<in> createdInTx s"

section \<open>Storage\<close>

text \<open>A Go map read gives the zero hash for a missing key.\<close>

definition slot_of :: "Storage \<Rightarrow> Hash \<Rightarrow> Hash" where
  "slot_of st k = (case st k of None \<Rightarrow> ZeroHash | Some v \<Rightarrow> v)"

definition storageOf :: "StateDB \<Rightarrow> Address \<Rightarrow> Storage \<times> StateDB" where
  "storageOf s addr =
     (case storage s addr of
        Some st \<Rightarrow> (st, s)
      | None \<Rightarrow> (Map.empty, s\<lparr>storage := (storage s)(addr \<mapsto> Map.empty)\<rparr>))"

definition origStorageOf :: "StateDB \<Rightarrow> Address \<Rightarrow> Storage \<times> StateDB" where
  "origStorageOf s addr =
     (case origStorage s addr of
        Some st \<Rightarrow> (st, s)
      | None \<Rightarrow> (Map.empty, s\<lparr>origStorage := (origStorage s)(addr \<mapsto> Map.empty)\<rparr>))"

definition GetStorage :: "StateDB \<Rightarrow> Address \<Rightarrow> Hash \<Rightarrow> Hash" where
  "GetStorage s addr slot =
     (case storage s addr of None \<Rightarrow> ZeroHash | Some st \<Rightarrow> slot_of st slot)"

definition GetCommittedStorage :: "StateDB \<Rightarrow> Address \<Rightarrow> Hash \<Rightarrow> Hash \<times> StateDB" where
  "GetCommittedStorage s addr slot =
     (case origStorageOf s addr of (orig, s1) \<Rightarrow> (slot_of orig slot, s1))"

text \<open>The store into a storage map: the zero value is a deletion.\<close>

definition write_slot :: "StateDB \<Rightarrow> Address \<Rightarrow> Hash \<Rightarrow> Hash \<Rightarrow> StateDB" where
  "write_slot s addr slot v =
     (case storageOf s addr of (st, s1) \<Rightarrow>
        s1\<lparr>storage := (storage s1)(addr \<mapsto> (if v = ZeroHash then st(slot := None) else st(slot \<mapsto> v)))\<rparr>)"

definition remember_orig :: "StateDB \<Rightarrow> Address \<Rightarrow> Hash \<Rightarrow> Hash \<Rightarrow> StateDB" where
  "remember_orig s addr slot v =
     (case origStorageOf s addr of (orig, s1) \<Rightarrow>
        if orig slot = None then s1\<lparr>origStorage := (origStorage s1)(addr \<mapsto> orig(slot \<mapsto> v))\<rparr> else s1)"

definition SetStorage :: "StateDB \<Rightarrow> Address \<Rightarrow> Hash \<Rightarrow> Hash \<Rightarrow> StateDB" where
  "SetStorage s addr slot value =
     (case storageOf s addr of (st, s1) \<Rightarrow>
        let old = slot_of st slot;
            s2 = remember_orig s1 addr slot old;
            s3 = add_journal s2 (jStorage addr slot old)
        in write_slot s3 addr slot value)"

definition SetStorageDirect :: "StateDB \<Rightarrow> Address \<Rightarrow> Hash \<Rightarrow> Hash \<Rightarrow> StateDB" where
  "SetStorageDirect s addr slot value =
     (case storageOf s addr of (st, s1) \<Rightarrow>
        let s2 = remember_orig s1 addr slot value
        in s2\<lparr>storage := (storage s2)(addr \<mapsto> st(slot \<mapsto> value))\<rparr>)"

section \<open>Access lists\<close>

definition AddressWarm :: "StateDB \<Rightarrow> Address \<Rightarrow> bool" where
  "AddressWarm s addr \<longleftrightarrow> addr \<in> accessedAddrs s"

definition WarmAddress :: "StateDB \<Rightarrow> Address \<Rightarrow> StateDB" where
  "WarmAddress s addr = s\<lparr>accessedAddrs := insert addr (accessedAddrs s)\<rparr>"

definition SlotWarm :: "StateDB \<Rightarrow> Address \<Rightarrow> Hash \<Rightarrow> bool" where
  "SlotWarm s addr slot = (case accessedSlots s addr of None \<Rightarrow> False | Some m \<Rightarrow> slot \<in> m)"

definition WarmSlot :: "StateDB \<Rightarrow> Address \<Rightarrow> Hash \<Rightarrow> StateDB" where
  "WarmSlot s addr slot =
     (let m = (case accessedSlots s addr of None \<Rightarrow> {} | Some m \<Rightarrow> m)
      in s\<lparr>accessedSlots := (accessedSlots s)(addr \<mapsto> insert slot m)\<rparr>)"

section \<open>Snapshots\<close>

definition Snapshot :: "StateDB \<Rightarrow> nat \<times> StateDB" where
  "Snapshot s = (length (snapshots s), s\<lparr>snapshots := snapshots s @ [length (journal s)]\<rparr>)"

text \<open>The update of an account that is still there (\<open>if a := s.accounts[addr]; a != nil\<close>).\<close>

definition upd_account :: "StateDB \<Rightarrow> Address \<Rightarrow> (Account \<Rightarrow> Account) \<Rightarrow> StateDB" where
  "upd_account s addr f =
     (case accounts s addr of None \<Rightarrow> s | Some a \<Rightarrow> put_account s addr (f a))"

fun undo :: "journalEntry \<Rightarrow> StateDB \<Rightarrow> StateDB" where
  "undo (jBalance addr oldBal) s = upd_account s addr (\<lambda>a. a\<lparr>acc_Balance := oldBal\<rparr>)"
| "undo (jNonce addr oldNonce) s = upd_account s addr (\<lambda>a. a\<lparr>acc_Nonce := oldNonce\<rparr>)"
| "undo (jCode addr oldCode oldCodeHash) s =
     upd_account s addr (\<lambda>a. a\<lparr>acc_Code := oldCode, acc_CodeHash := oldCodeHash\<rparr>)"
| "undo (jStorage addr slot oldVal) s = write_slot s addr slot oldVal"
| "undo (jCreate addr) s =
     s\<lparr>accounts := (accounts s)(addr := None), createdInTx := createdInTx s - {addr}\<rparr>"
| "undo (jSuicide addr oldSuicide) s = upd_account s addr (\<lambda>a. a\<lparr>acc_Suicide := oldSuicide\<rparr>)"

text \<open>
  The loop runs from the newest entry down to the snapshot's journal length.  Snapshot numbers come
  from \<open>Snapshot\<close>, so they are never negative, and point into the journal (\<open>World.snapshots_ok\<close>), so
  cutting it never slices out of bounds.
\<close>

definition RevertToSnapshot :: "StateDB \<Rightarrow> nat \<Rightarrow> StateDB" where
  "RevertToSnapshot s i =
     (if length (snapshots s) \<le> i then s
      else let journalLen = snapshots s ! i;
               s1 = fold undo (rev (drop journalLen (journal s))) s
           in s1\<lparr>journal := take journalLen (journal s1), snapshots := take i (snapshots s1)\<rparr>)"

section \<open>The rest\<close>

definition Suicide :: "StateDB \<Rightarrow> Address \<Rightarrow> StateDB" where
  "Suicide s addr =
     (let (a, s1) = getOrCreate s addr;
          s2 = add_journal s1 (jSuicide addr (acc_Suicide a))
      in put_account s2 addr (a\<lparr>acc_Suicide := True\<rparr>))"

definition HasSuicided :: "StateDB \<Rightarrow> Address \<Rightarrow> bool" where
  "HasSuicided s addr = (case accounts s addr of None \<Rightarrow> False | Some a \<Rightarrow> acc_Suicide a)"

definition Finalise :: "StateDB \<Rightarrow> StateDB" where
  "Finalise s = s\<lparr>
     accounts := (\<lambda>addr. if HasSuicided s addr then None else accounts s addr),
     storage := (\<lambda>addr. if HasSuicided s addr then None else storage s addr),
     journal := [], snapshots := [], createdInTx := {}\<rparr>"

definition AddLog :: "StateDB \<Rightarrow> Log \<Rightarrow> StateDB" where
  "AddLog s l = s\<lparr>Logs := Logs s @ [l]\<rparr>"

definition AddRefund :: "StateDB \<Rightarrow> u64 \<Rightarrow> StateDB" where
  "AddRefund s gas = s\<lparr>Refund := Refund s + gas\<rparr>"

definition SubRefund :: "StateDB \<Rightarrow> u64 \<Rightarrow> StateDB" where
  "SubRefund s gas =
     (if gas > Refund s then s\<lparr>Refund := 0\<rparr> else s\<lparr>Refund := Refund s - gas\<rparr>)"

definition GetRefund :: "StateDB \<Rightarrow> u64" where
  "GetRefund s = Refund s"

definition SetAccount :: "StateDB \<Rightarrow> Address \<Rightarrow> Account \<Rightarrow> StateDB" where
  "SetAccount s addr acc = (case getOrCreate s addr of (a, s1) \<Rightarrow> put_account s1 addr acc)"

end
