(* ===== verification/ForkDB.thy ===== *)
theory ForkDB
  imports StateDB
begin

text \<open>
  The state backend that loads accounts and slots from a remote node on first use
  (\<open>forkdb/forkdb.go\<close>).  The node is the pair of fields \<open>rpc_batch\<close> and \<open>rpc_call\<close> of \<open>lib\<close>; building
  the requests, reading the replies, the caches and the writes into the inner state database are
  modelled.  The mutex serialises the methods, so each is one step.  \<open>fk_calls\<close> counts the requests
  sent, so that the node may answer differently over time.
\<close>

section \<open>Hexadecimal text (encoding/hex, strings)\<close>

definition hexDigit :: "nat \<Rightarrow> char" where
  "hexDigit n = ''0123456789abcdef'' ! (n mod 16)"

definition EncodeToString :: "bytes \<Rightarrow> string" where
  "EncodeToString bs = concat (map (\<lambda>b. [hexDigit (unat b div 16), hexDigit (unat b)]) bs)"

definition nibble :: "char \<Rightarrow> nat option" where
  "nibble c =
     (let n = of_char c :: nat in
      if 48 \<le> n \<and> n \<le> 57 then Some (n - 48)
      else if 97 \<le> n \<and> n \<le> 102 then Some (n - 87)
      else if 65 \<le> n \<and> n \<le> 70 then Some (n - 55)
      else None)"

text \<open>\<open>hex.DecodeString\<close>: the bytes before the first bad pair, and whether there was none.\<close>

fun DecodeString :: "string \<Rightarrow> bytes \<times> bool" where
  "DecodeString (a # b # cs) =
     (case (nibble a, nibble b) of
        (Some x, Some y) \<Rightarrow> (case DecodeString cs of (bs, ok) \<Rightarrow> (of_nat (16 * x + y) # bs, ok))
      | _ \<Rightarrow> ([], False))"
| "DecodeString [] = ([], True)"
| "DecodeString [a] = ([], False)"

fun TrimPrefix0x :: "string \<Rightarrow> string" where
  "TrimPrefix0x (a # b # cs) = (if a = CHR ''0'' \<and> b = CHR ''x'' then cs else a # b # cs)"
| "TrimPrefix0x s = s"

text \<open>\<open>%x\<close> of a number: no leading zeros.\<close>

fun hex_of_nat :: "nat \<Rightarrow> string" where
  "hex_of_nat n = (if n < 16 then [hexDigit n] else hex_of_nat (n div 16) @ [hexDigit n])"

declare hex_of_nat.simps [simp del]

definition padEven :: "string \<Rightarrow> string" where
  "padEven s = (if length s mod 2 \<noteq> 0 then CHR ''0'' # s else s)"

section \<open>The fork database\<close>

record ForkDB =
  inner :: StateDB
  blockNumber :: string
  fetchedAccounts :: "Address set"
  fetchedSlots :: "Address \<rightharpoonup> Hash set"
  fk_calls :: nat

datatype fork_error = BatchError | RPCError string | FetchSlotError | FetchSlotRPCError string

definition new_ForkDB :: "u64 \<Rightarrow> ForkDB" where
  "new_ForkDB number = \<lparr>inner = new_StateDB,
     blockNumber = (if number = 0 then ''latest'' else ''0x'' @ hex_of_nat (unat number)),
     fetchedAccounts = {}, fetchedSlots = Map.empty, fk_calls = 0\<rparr>"

text \<open>The loop of \<open>batchCall\<close> over the replies: the first error ends it.\<close>

fun collect_results :: "rpcResponse list \<Rightarrow> (int \<rightharpoonup> json) \<Rightarrow> fork_error + (int \<rightharpoonup> json)" where
  "collect_results [] result = Inr result"
| "collect_results (r # rs) result =
     (case resp_Error r of
        Some msg \<Rightarrow> Inl (RPCError msg)
      | None \<Rightarrow> collect_results rs
          (case resp_Result r of Some v \<Rightarrow> result(resp_ID r \<mapsto> v) | None \<Rightarrow> result))"

definition batchCall :: "lib \<Rightarrow> ForkDB \<Rightarrow> rpcReq list \<Rightarrow> (fork_error + (int \<rightharpoonup> json)) \<times> ForkDB" where
  "batchCall L f reqs =
     ((case rpc_batch L (fk_calls f) reqs of
         None \<Rightarrow> Inl BatchError
       | Some responses \<Rightarrow> collect_results responses Map.empty),
      f\<lparr>fk_calls := Suc (fk_calls f)\<rparr>)"

text \<open>The three parts of a fetched account, from the decoded replies.\<close>

definition hex_number :: "string \<Rightarrow> word256" where
  "hex_number s =
     (let h = TrimPrefix0x s; h = (if h = [] then ''0'' else h)
      in SetBytes (fst (DecodeString (padEven h))))"

definition fetched_account :: "lib \<Rightarrow> (int \<rightharpoonup> json) \<Rightarrow> Account" where
  "fetched_account L results =
     (let acc = new_Account;
          acc = (case results 1 of Some (JString s) \<Rightarrow> acc\<lparr>acc_Balance := hex_number s\<rparr> | _ \<Rightarrow> acc);
          acc = (case results 2 of Some (JString s) \<Rightarrow> acc\<lparr>acc_Nonce := Uint64 (hex_number s)\<rparr> | _ \<Rightarrow> acc)
      in case results 3 of
           Some (JString s) \<Rightarrow>
             (case DecodeString (TrimPrefix0x s) of (code, ok) \<Rightarrow>
                if ok \<and> code \<noteq> [] then acc\<lparr>acc_Code := code, acc_CodeHash := keccak L code\<rparr> else acc)
         | _ \<Rightarrow> acc)"

definition account_requests :: "ForkDB \<Rightarrow> Address \<Rightarrow> rpcReq list" where
  "account_requests f addr =
     (let addrHex = ''0x'' @ EncodeToString addr in
      [\<lparr>req_Method = ''eth_getBalance'', req_Params = [addrHex, blockNumber f], req_ID = 1\<rparr>,
       \<lparr>req_Method = ''eth_getTransactionCount'', req_Params = [addrHex, blockNumber f], req_ID = 2\<rparr>,
       \<lparr>req_Method = ''eth_getCode'', req_Params = [addrHex, blockNumber f], req_ID = 3\<rparr>])"

definition fetchAccount :: "lib \<Rightarrow> ForkDB \<Rightarrow> Address \<Rightarrow> fork_error option \<times> ForkDB" where
  "fetchAccount L f addr =
     (if addr \<in> fetchedAccounts f then (None, f)
      else case batchCall L f (account_requests f addr) of
        (Inl err, f1) \<Rightarrow> (Some err, f1)
      | (Inr results, f1) \<Rightarrow>
          (None, f1\<lparr>inner := SetAccount (inner f1) addr (fetched_account L results),
                   fetchedAccounts := insert addr (fetchedAccounts f1)\<rparr>))"

definition EnsureAccount :: "lib \<Rightarrow> ForkDB \<Rightarrow> Address \<Rightarrow> fork_error option \<times> ForkDB" where
  "EnsureAccount L f addr =
     (if addr \<in> fetchedAccounts f then (None, f) else fetchAccount L f addr)"

text \<open>
  The fetched slot: \<open>copy(val[32-len(b):], b)\<close> panics when the reply is longer than 32 bytes.
\<close>

definition slot_value :: "string \<Rightarrow> Hash go" where
  "slot_value s =
     (let valHex = TrimPrefix0x s in
      if valHex = [] then Ret ZeroHash
      else case DecodeString (padEven valHex) of (b, ok) \<Rightarrow>
        if \<not> ok then Ret ZeroHash
        else if 32 < length b then Panic
        else Ret (copy_at ZeroHash (32 - length b) b))"

definition fetchSlot :: "lib \<Rightarrow> ForkDB \<Rightarrow> Address \<Rightarrow> Hash \<Rightarrow> (fork_error option \<times> ForkDB) go" where
  "fetchSlot L f addr slot =
     (let m = (case fetchedSlots f addr of None \<Rightarrow> {} | Some m \<Rightarrow> m);
          f0 = f\<lparr>fetchedSlots := (fetchedSlots f)(addr \<mapsto> m)\<rparr>
      in if slot \<in> m then Ret (None, f)
      else
        let req = \<lparr>req_Method = ''eth_getStorageAt'',
                   req_Params = [''0x'' @ EncodeToString addr, ''0x'' @ EncodeToString slot, blockNumber f0],
                   req_ID = 1\<rparr>;
            f1 = f0\<lparr>fk_calls := Suc (fk_calls f0)\<rparr>
        in case rpc_call L (fk_calls f0) req of
             None \<Rightarrow> Ret (Some FetchSlotError, f1)
           | Some (res, Some msg) \<Rightarrow> Ret (Some (FetchSlotRPCError msg), f1)
           | Some (res, None) \<Rightarrow>
               go_bind (slot_value res) (\<lambda>val.
                 Ret (None, f1\<lparr>inner := SetStorageDirect (inner f1) addr slot val,
                              fetchedSlots := (fetchedSlots f1)(addr \<mapsto> insert slot m)\<rparr>)))"

definition EnsureSlot :: "lib \<Rightarrow> ForkDB \<Rightarrow> Address \<Rightarrow> Hash \<Rightarrow> (fork_error option \<times> ForkDB) go" where
  "EnsureSlot L f addr slot =
     (case fetchedSlots f addr of
        Some m \<Rightarrow> if slot \<in> m then Ret (None, f) else fetchSlot L f addr slot
      | None \<Rightarrow> fetchSlot L f addr slot)"

end
