(* ===== verification/DB.thy ===== *)
theory DB
  imports ForkDB
begin

text \<open>
  The database interface of the interpreter and the EVM (\<open>interpreter.StateDB\<close>, \<open>evm.DB\<close>), with its two
  implementations: \<open>state.StateDB\<close> itself and the adapter \<open>forkDB\<close> of \<open>evm/forkdb_adapter.go\<close>, whose
  methods first fetch what they need and ignore the error of the fetch.  A dynamic call of the
  interface is a case distinction on the implementation: on the plain database \<open>db_ensure\<close> and
  \<open>db_ensureSlot\<close> do nothing.  Reads return the database as well, since a fetch changes it.
\<close>

datatype DB = PlainDB StateDB | ForkedDB ForkDB

fun db_state :: "DB \<Rightarrow> StateDB" where
  "db_state (PlainDB s) = s"
| "db_state (ForkedDB f) = inner f"

fun db_upd :: "(StateDB \<Rightarrow> StateDB) \<Rightarrow> DB \<Rightarrow> DB" where
  "db_upd g (PlainDB s) = PlainDB (g s)"
| "db_upd g (ForkedDB f) = ForkedDB (f\<lparr>inner := g (inner f)\<rparr>)"

fun db_ensure :: "lib \<Rightarrow> DB \<Rightarrow> Address \<Rightarrow> DB" where
  "db_ensure L (PlainDB s) addr = PlainDB s"
| "db_ensure L (ForkedDB f) addr = ForkedDB (snd (EnsureAccount L f addr))"

fun db_ensureSlot :: "lib \<Rightarrow> DB \<Rightarrow> Address \<Rightarrow> Hash \<Rightarrow> DB go" where
  "db_ensureSlot L (PlainDB s) addr slot = Ret (PlainDB s)"
| "db_ensureSlot L (ForkedDB f) addr slot =
     go_bind (EnsureSlot L f addr slot) (\<lambda>(err, f'). Ret (ForkedDB f'))"

section \<open>Reads\<close>

definition db_GetBalance :: "lib \<Rightarrow> DB \<Rightarrow> Address \<Rightarrow> word256 \<times> DB" where
  "db_GetBalance L d addr = (let d' = db_ensure L d addr in (GetBalance (db_state d') addr, d'))"

definition db_GetNonce :: "lib \<Rightarrow> DB \<Rightarrow> Address \<Rightarrow> u64 \<times> DB" where
  "db_GetNonce L d addr = (let d' = db_ensure L d addr in (GetNonce (db_state d') addr, d'))"

definition db_GetCode :: "lib \<Rightarrow> DB \<Rightarrow> Address \<Rightarrow> bytes \<times> DB" where
  "db_GetCode L d addr = (let d' = db_ensure L d addr in (GetCode (db_state d') addr, d'))"

definition db_GetCodeHash :: "lib \<Rightarrow> DB \<Rightarrow> Address \<Rightarrow> Hash \<times> DB" where
  "db_GetCodeHash L d addr = (let d' = db_ensure L d addr in (GetCodeHash (db_state d') addr, d'))"

definition db_Exists :: "lib \<Rightarrow> DB \<Rightarrow> Address \<Rightarrow> bool \<times> DB" where
  "db_Exists L d addr = (let d' = db_ensure L d addr in (Exists (db_state d') addr, d'))"

definition db_Empty :: "lib \<Rightarrow> DB \<Rightarrow> Address \<Rightarrow> bool \<times> DB" where
  "db_Empty L d addr = (let d' = db_ensure L d addr in (Empty (db_state d') addr, d'))"

definition db_GetStorage :: "lib \<Rightarrow> DB \<Rightarrow> Address \<Rightarrow> Hash \<Rightarrow> (Hash \<times> DB) go" where
  "db_GetStorage L d addr slot =
     go_bind (db_ensureSlot L d addr slot) (\<lambda>d'. Ret (GetStorage (db_state d') addr slot, d'))"

definition db_GetCommittedStorage :: "lib \<Rightarrow> DB \<Rightarrow> Address \<Rightarrow> Hash \<Rightarrow> (Hash \<times> DB) go" where
  "db_GetCommittedStorage L d addr slot =
     go_bind (db_ensureSlot L d addr slot) (\<lambda>d'.
       Ret (fst (GetCommittedStorage (db_state d') addr slot),
            db_upd (\<lambda>s. snd (GetCommittedStorage s addr slot)) d'))"

definition db_HasSuicided :: "DB \<Rightarrow> Address \<Rightarrow> bool" where
  "db_HasSuicided d addr = HasSuicided (db_state d) addr"

definition db_GetRefund :: "DB \<Rightarrow> u64" where
  "db_GetRefund d = GetRefund (db_state d)"

definition db_AddressWarm :: "DB \<Rightarrow> Address \<Rightarrow> bool" where
  "db_AddressWarm d addr = AddressWarm (db_state d) addr"

definition db_SlotWarm :: "DB \<Rightarrow> Address \<Rightarrow> Hash \<Rightarrow> bool" where
  "db_SlotWarm d addr slot = SlotWarm (db_state d) addr slot"

definition db_CreatedInTx :: "DB \<Rightarrow> Address \<Rightarrow> bool" where
  "db_CreatedInTx d addr = CreatedInTx (db_state d) addr"

section \<open>Writes\<close>

definition db_SetStorage :: "lib \<Rightarrow> DB \<Rightarrow> Address \<Rightarrow> Hash \<Rightarrow> Hash \<Rightarrow> DB" where
  "db_SetStorage L d addr slot val = db_upd (\<lambda>s. SetStorage s addr slot val) (db_ensure L d addr)"

definition db_SetBalance :: "lib \<Rightarrow> DB \<Rightarrow> Address \<Rightarrow> word256 \<Rightarrow> DB" where
  "db_SetBalance L d addr v = db_upd (\<lambda>s. SetBalance s addr v) (db_ensure L d addr)"

definition db_AddBalance :: "lib \<Rightarrow> DB \<Rightarrow> Address \<Rightarrow> word256 \<Rightarrow> DB" where
  "db_AddBalance L d addr v = db_upd (\<lambda>s. AddBalance L s addr v) (db_ensure L d addr)"

definition db_SubBalance :: "lib \<Rightarrow> DB \<Rightarrow> Address \<Rightarrow> word256 \<Rightarrow> DB" where
  "db_SubBalance L d addr v = db_upd (\<lambda>s. SubBalance L s addr v) (db_ensure L d addr)"

definition db_SetNonce :: "lib \<Rightarrow> DB \<Rightarrow> Address \<Rightarrow> u64 \<Rightarrow> DB" where
  "db_SetNonce L d addr n = db_upd (\<lambda>s. SetNonce s addr n) (db_ensure L d addr)"

definition db_SetCode :: "lib \<Rightarrow> DB \<Rightarrow> Address \<Rightarrow> bytes \<Rightarrow> Hash \<Rightarrow> DB" where
  "db_SetCode L d addr code h = db_upd (\<lambda>s. SetCode s addr code h) (db_ensure L d addr)"

definition db_CreateAccount :: "lib \<Rightarrow> DB \<Rightarrow> Address \<Rightarrow> DB" where
  "db_CreateAccount L d addr = db_upd (\<lambda>s. CreateAccount s addr) (db_ensure L d addr)"

definition db_Suicide :: "DB \<Rightarrow> Address \<Rightarrow> DB" where
  "db_Suicide d addr = db_upd (\<lambda>s. Suicide s addr) d"

definition db_AddLog :: "DB \<Rightarrow> Log \<Rightarrow> DB" where
  "db_AddLog d l = db_upd (\<lambda>s. AddLog s l) d"

definition db_AddRefund :: "DB \<Rightarrow> u64 \<Rightarrow> DB" where
  "db_AddRefund d g = db_upd (\<lambda>s. AddRefund s g) d"

definition db_SubRefund :: "DB \<Rightarrow> u64 \<Rightarrow> DB" where
  "db_SubRefund d g = db_upd (\<lambda>s. SubRefund s g) d"

definition db_WarmAddress :: "DB \<Rightarrow> Address \<Rightarrow> DB" where
  "db_WarmAddress d addr = db_upd (\<lambda>s. WarmAddress s addr) d"

definition db_WarmSlot :: "DB \<Rightarrow> Address \<Rightarrow> Hash \<Rightarrow> DB" where
  "db_WarmSlot d addr slot = db_upd (\<lambda>s. WarmSlot s addr slot) d"

definition db_Snapshot :: "DB \<Rightarrow> nat \<times> DB" where
  "db_Snapshot d = (fst (Snapshot (db_state d)), db_upd (\<lambda>s. snd (Snapshot s)) d)"

definition db_RevertToSnapshot :: "DB \<Rightarrow> nat \<Rightarrow> DB" where
  "db_RevertToSnapshot d i = db_upd (\<lambda>s. RevertToSnapshot s i) d"

definition db_Finalise :: "DB \<Rightarrow> DB" where
  "db_Finalise d = db_upd Finalise d"

end
