(* ===== verification/Tracer.thy ===== *)
theory Tracer
  imports ForkDB
begin

text \<open>
  The call tracer (\<open>tracer/tracer.go\<close>): a tree of nodes with parent pointers, a pointer to the node of
  the running call, and the rendering of the tree.  A \<open>*Node\<close> is an index into the list of the nodes
  allocated so far, so the aliasing of \<open>Root\<close>, \<open>current\<close>, the parents and the children is explicit.
  Rendered text is a list of bytes, its non-ASCII characters in UTF-8.
\<close>

record Node =
  n_CallType :: CallType
  n_From :: Address
  n_To :: Address
  n_Gas :: u64
  n_GasUsed :: u64
  n_Value :: word256
  n_Input :: bytes
  n_Output :: bytes
  n_Err :: "error option"
  n_Children :: "nat list"
  n_parent :: "nat option"

record CallTracer =
  nodes :: "Node list"
  Root :: "nat option"
  cur_node :: "nat option"
  enabled :: bool

definition new_CallTracer :: CallTracer where
  "new_CallTracer = \<lparr>nodes = [], Root = None, cur_node = None, enabled = True\<rparr>"

definition Noop :: CallTracer where
  "Noop = \<lparr>nodes = [], Root = None, cur_node = None, enabled = False\<rparr>"

definition Enabled :: "CallTracer \<Rightarrow> bool" where
  "Enabled t = enabled t"

section \<open>Recording\<close>

definition OnEnter ::
  "CallTracer \<Rightarrow> CallType \<Rightarrow> Address \<Rightarrow> Address \<Rightarrow> bytes \<Rightarrow> u64 \<Rightarrow> word256 option \<Rightarrow> CallTracer" where
  "OnEnter t ct from to input gas val =
     (if \<not> enabled t then t
      else
        let n = \<lparr>n_CallType = ct, n_From = from, n_To = to, n_Gas = gas, n_GasUsed = 0,
                 n_Value = (case val of None \<Rightarrow> 0 | Some v \<Rightarrow> v), n_Input = input, n_Output = [],
                 n_Err = None, n_Children = [], n_parent = cur_node t\<rparr>;
            p = length (nodes t)
        in case cur_node t of
             None \<Rightarrow> t\<lparr>nodes := nodes t @ [n], Root := Some p, cur_node := Some p\<rparr>
           | Some c \<Rightarrow>
               t\<lparr>nodes := (nodes t)[c := (nodes t ! c)\<lparr>n_Children := n_Children (nodes t ! c) @ [p]\<rparr>] @ [n],
                 cur_node := Some p\<rparr>)"

definition OnExit :: "CallTracer \<Rightarrow> bytes \<Rightarrow> u64 \<Rightarrow> error option \<Rightarrow> CallTracer" where
  "OnExit t output gasUsed err =
     (if \<not> enabled t then t
      else case cur_node t of
        None \<Rightarrow> t
      | Some c \<Rightarrow>
          t\<lparr>nodes := (nodes t)[c := (nodes t ! c)\<lparr>n_Output := output, n_GasUsed := gasUsed, n_Err := err\<rparr>],
            cur_node := n_parent (nodes t ! c)\<rparr>)"

section \<open>Rendering\<close>

definition utf8_branch :: string where
  "utf8_branch = map char_of [0xE2, 0x94, 0x9C, 0xE2, 0x94, 0x80, 0x20 :: nat]"

definition utf8_last :: string where
  "utf8_last = map char_of [0xE2, 0x94, 0x94, 0xE2, 0x94, 0x80, 0x20 :: nat]"

definition utf8_bar :: string where
  "utf8_bar = map char_of [0xE2, 0x94, 0x82, 0x20, 0x20, 0x20 :: nat]"

definition utf8_arrow :: string where
  "utf8_arrow = map char_of [0xE2, 0x86, 0x90, 0x20 :: nat]"

definition text_of_bytes :: "bytes \<Rightarrow> string" where
  "text_of_bytes bs = map (\<lambda>b. char_of (unat b)) bs"

fun decimal :: "nat \<Rightarrow> string" where
  "decimal n = (if n < 10 then [char_of (48 + n)] else decimal (n div 10) @ [char_of (48 + n mod 10)])"

declare decimal.simps [simp del]

fun callTypeName :: "CallType \<Rightarrow> string" where
  "callTypeName CallTypeCall = ''CALL''"
| "callTypeName CallTypeCallCode = ''CALLCODE''"
| "callTypeName CallTypeDelegateCall = ''DELEGATECALL''"
| "callTypeName CallTypeStaticCall = ''STATICCALL''"
| "callTypeName CallTypeCreate = ''CREATE''"
| "callTypeName CallTypeCreate2 = ''CREATE2''"

definition revertReason :: "bytes \<Rightarrow> string" where
  "revertReason data =
     (if 68 \<le> length data \<and> data ! 0 = 0x08 \<and> data ! 1 = 0xc3 \<and> data ! 2 = 0x79 \<and> data ! 3 = 0xa0
         \<and> 68 + unat (data ! 67) \<le> length data
      then CHR 0x22 # text_of_bytes (take (unat (data ! 67)) (drop 68 data)) @ [CHR 0x22]
      else if 0 < length data then ''0x'' @ EncodeToString data
      else [])"

definition node_line :: "Node \<Rightarrow> string" where
  "node_line n =
     (let a = EncodeToString (n_To n);
          addrStr = (if 8 < length a then take 4 a @ ''..'' @ drop (length a - 4) a else a);
          inputStr = (if 4 \<le> length (n_Input n) then
                        EncodeToString (take 4 (n_Input n)) @
                        (if 4 < length (n_Input n)
                         then ''('' @ decimal (length (n_Input n) - 4) @ ''b)'' else [])
                      else EncodeToString (n_Input n))
      in ''['' @ decimal (unat (n_GasUsed n)) @ ''] '' @ addrStr @ ''::'' @ callTypeName (n_CallType n)
         @ ''('' @ inputStr @ '')'')"

definition node_result :: "Node \<Rightarrow> string" where
  "node_result n =
     (case n_Err n of
        Some e \<Rightarrow> utf8_last @ utf8_arrow @ ''REVERT '' @ revertReason (n_Output n) @ [CHR 0x0A]
      | None \<Rightarrow>
          utf8_last @ utf8_arrow @
          (if 0 < length (n_Output n) then
             if 32 < length (n_Output n)
             then ''0x'' @ EncodeToString (take 4 (n_Output n)) @ ''..('' @ decimal (length (n_Output n)) @ ''b)''
             else ''0x'' @ EncodeToString (n_Output n)
           else []) @ [CHR 0x0A])"

text \<open>
  The recursion follows child pointers; \<open>fuel\<close> bounds its depth, and \<open>None\<close> says it was too small.
  \<open>render_children\<close> is the loop over the children.
\<close>

fun renderNode :: "nat \<Rightarrow> Node list \<Rightarrow> nat \<Rightarrow> string \<Rightarrow> bool \<Rightarrow> string option"
  and render_children :: "nat \<Rightarrow> Node list \<Rightarrow> nat list \<Rightarrow> string \<Rightarrow> string option" where
  "renderNode 0 ns i prefix isLast = None"
| "renderNode (Suc fuel) ns i prefix isLast =
     (let n = ns ! i;
          branch = (if isLast then utf8_last else utf8_branch);
          childPrefix = prefix @ (if isLast then ''    '' else utf8_bar);
          line = (if n_parent n = None then node_line n @ [CHR 0x0A]
                  else prefix @ branch @ node_line n @ [CHR 0x0A])
      in case render_children fuel ns (n_Children n) childPrefix of
           None \<Rightarrow> None
         | Some sub \<Rightarrow> Some (line @ sub @ childPrefix @ node_result n))"
| "render_children fuel ns [] childPrefix = Some []"
| "render_children fuel ns (c # cs) childPrefix =
     (case renderNode fuel ns c childPrefix (cs = []) of
        None \<Rightarrow> None
      | Some s \<Rightarrow> (case render_children fuel ns cs childPrefix of
          None \<Rightarrow> None
        | Some t \<Rightarrow> Some (s @ t)))"

definition String_of :: "CallTracer \<Rightarrow> string option" where
  "String_of t =
     (case Root t of
        None \<Rightarrow> Some ''(empty trace)''
      | Some r \<Rightarrow> renderNode (length (nodes t)) (nodes t) r [] True)"

end
