(* ===== verification/Machine.thy ===== *)
theory Machine
  imports Stack Memory Gas DB Tracer
begin

text \<open>
  The state an execution works on: the contexts and the frame of \<open>interpreter/frame.go\<close>, the jump
  table, the frame pool of \<open>interpreter/pool.go\<close>, and the EVM struct of \<open>evm/evm.go\<close> with the jump
  table cache of its interpreter.  A frame's pointers \<open>State\<close>, \<open>Block\<close> and \<open>Tx\<close> always point into the
  EVM that runs it, so a \<open>machine\<close> is the pair of that EVM and the running frame.  \<open>Memory\<close> is never
  nil: a frame without one is a frame with the fresh memory \<open>Run\<close> gives it.

  \<open>sync.Pool\<close> may hand out any frame put back earlier, or a new one.  \<open>e_picks\<close> holds these choices,
  one per \<open>Get\<close>: the index of a pooled frame, anything else for a new one.  Theorems hold for all of
  them.  A slice's capacity is taken to be its length in \<open>ReleaseFrame\<close>; a frame the code would not
  pool for a larger capacity is one the choices never pick.
\<close>

section \<open>Contexts (interpreter/frame.go)\<close>

record BlockContext =
  blk_Coinbase :: Address
  blk_BlockNumber :: u64
  blk_Time :: u64
  blk_Difficulty :: word256
  blk_GasLimit :: u64
  blk_BaseFee :: word256
  blk_ChainID :: word256

record TxContext =
  tx_Origin :: Address
  tx_GasPrice :: word256

section \<open>The jump table\<close>

type_synonym bitvec = bytes

abbreviation (input) op_PUSH1 :: byte where "op_PUSH1 \<equiv> 0x60"
abbreviation (input) op_PUSH32 :: byte where "op_PUSH32 \<equiv> 0x7f"
abbreviation (input) op_JUMPDEST :: byte where "op_JUMPDEST \<equiv> 0x5b"

definition bitvec_set :: "bitvec \<Rightarrow> nat \<Rightarrow> bitvec" where
  "bitvec_set b i = b[i div 8 := b ! (i div 8) OR push_bit (i mod 8) 1]"

definition bitvec_has :: "bitvec \<Rightarrow> u64 \<Rightarrow> bool" where
  "bitvec_has b i =
     (if unat (i div 8) \<ge> length b then False
      else b ! unat (i div 8) AND push_bit (unat (i mod 8)) 1 \<noteq> 0)"

function build_loop :: "bytes \<Rightarrow> nat \<Rightarrow> bitvec \<Rightarrow> bitvec" where
  "build_loop code i bv =
     (if i < length code then
        let op = code ! i;
            bv' = (if op = op_JUMPDEST then bitvec_set bv i else bv)
        in if op_PUSH1 \<le> op \<and> op \<le> op_PUSH32
           then build_loop code (i + unat (op - op_PUSH1) + 2) bv'
           else build_loop code (i + 1) bv'
      else bv)"
  by pat_completeness auto
termination
  by (relation "measure (\<lambda>(code, i, bv). length code - i)") auto

declare build_loop.simps [simp del]

definition buildJumpdests :: "bytes \<Rightarrow> bitvec" where
  "buildJumpdests code = build_loop code 0 (replicate ((length code + 7) div 8) 0)"

section \<open>Frames\<close>

record Frame =
  Code :: bytes
  PC :: u64
  Gas :: u64
  Stk :: Stack
  Mem :: Memory
  f_CallType :: CallType
  Caller :: Address
  Contract :: Address
  f_Value :: word256
  Input :: bytes
  ReturnData :: bytes
  Static :: bool
  Depth :: int
  jumpdests :: bitvec
  f_Tracer :: bool

text \<open>What \<open>framePool.New\<close> makes: the zero frame with a memory.\<close>

definition new_Frame :: Frame where
  "new_Frame = \<lparr>Code = [], PC = 0, Gas = 0, Stk = new_Stack, Mem = new_Memory,
     f_CallType = CallTypeCall, Caller = ZeroAddress, Contract = ZeroAddress, f_Value = 0, Input = [],
     ReturnData = [], Static = False, Depth = 0, jumpdests = [], f_Tracer = False\<rparr>"

definition Frame_Reset :: "Frame \<Rightarrow> Frame" where
  "Frame_Reset f = f\<lparr>PC := 0, Stk := Stack_Reset (Stk f), Mem := Memory_Reset (Mem f),
     ReturnData := [], Static := False, jumpdests := []\<rparr>"

section \<open>The EVM struct (evm/evm.go)\<close>

record Config =
  cfg_ChainID :: u64
  cfg_BlockNumber :: u64
  cfg_Time :: u64
  cfg_GasLimit :: u64
  cfg_BaseFee :: u64
  cfg_Coinbase :: Address
  cfg_Difficulty :: u64
  cfg_Trace :: bool

text \<open>One call of an opcode tracer's \<open>Capture\<close>.\<close>

record Capture =
  cap_pc :: u64
  cap_op :: byte
  cap_gasBefore :: u64
  cap_gasAfter :: u64
  cap_depth :: int
  cap_stack :: "word256 list"
  cap_stackLen :: int
  cap_err :: "error option"

record EVM =
  e_db :: DB
  e_config :: Config
  e_block :: BlockContext
  e_tx :: TxContext
  e_tracer :: bool
  e_captures :: "Capture list"
  e_callTracer :: "CallTracer option"
  e_jumpdestCache :: "nat \<times> nat \<rightharpoonup> bitvec"
  e_pool :: "Frame list"
  e_picks :: "nat list"

record machine =
  evm :: EVM
  fr :: Frame

definition upd_fr :: "(Frame \<Rightarrow> Frame) \<Rightarrow> machine \<Rightarrow> machine" where
  "upd_fr g m = m\<lparr>fr := g (fr m)\<rparr>"

definition set_db :: "DB \<Rightarrow> machine \<Rightarrow> machine" where
  "set_db d m = m\<lparr>evm := (evm m)\<lparr>e_db := d\<rparr>\<rparr>"

abbreviation db_of :: "machine \<Rightarrow> DB" where
  "db_of m \<equiv> e_db (evm m)"

lemma machine_simps [simp]:
  "evm (upd_fr g m) = evm m" "fr (upd_fr g m) = g (fr m)"
  "fr (set_db d m) = fr m" "evm (set_db d m) = (evm m)\<lparr>e_db := d\<rparr>"
  by (simp_all add: upd_fr_def set_db_def)

section \<open>The frame pool (interpreter/pool.go)\<close>

definition AcquireFrame :: "EVM \<Rightarrow> Frame \<times> EVM" where
  "AcquireFrame e =
     (case e_picks e of
        [] \<Rightarrow> (Frame_Reset new_Frame, e)
      | k # ks \<Rightarrow>
          if k < length (e_pool e)
          then (Frame_Reset (e_pool e ! k),
                e\<lparr>e_pool := take k (e_pool e) @ drop (Suc k) (e_pool e), e_picks := ks\<rparr>)
          else (Frame_Reset new_Frame, e\<lparr>e_picks := ks\<rparr>))"

definition ReleaseFrame :: "EVM \<Rightarrow> Frame \<Rightarrow> EVM" where
  "ReleaseFrame e f =
     (if length (Code f) > 65536 \<or> length (Input f) > 65536 then e
      else e\<lparr>e_pool := e_pool e @ [f\<lparr>Code := [], Input := [], ReturnData := []\<rparr>]\<rparr>)"

section \<open>Well-formed frames\<close>

definition frame_ok :: "Frame \<Rightarrow> bool" where
  "frame_ok f \<longleftrightarrow> stack_ok (Stk f) \<and> mem_ok (Mem f)"

lemma frame_ok_Reset [simp]: "frame_ok f \<Longrightarrow> frame_ok (Frame_Reset f)"
  by (simp add: frame_ok_def Frame_Reset_def)

lemma frame_ok_new [simp]: "frame_ok new_Frame"
  by (simp add: frame_ok_def new_Frame_def)

definition pool_ok :: "EVM \<Rightarrow> bool" where
  "pool_ok e \<longleftrightarrow> list_all frame_ok (e_pool e)"

lemma AcquireFrame_ok:
  assumes "pool_ok e" and "AcquireFrame e = (f, e')"
  shows "frame_ok f \<and> pool_ok e' \<and> e_db e' = e_db e \<and> stk_top (Stk f) = 0 \<and> PC f = 0
    \<and> \<not> Static f \<and> mlen (Mem f) = 0"
  using assms
  by (auto simp: AcquireFrame_def pool_ok_def list_all_length Frame_Reset_def Stack_Reset_def
      Memory_Reset_def frame_ok_def new_Frame_def new_Stack_def stack_ok_def MaxDepth_def
      mem_ok_def new_Memory_def maxAlloc_def nth_append min_def split: list.splits if_splits)

lemma ReleaseFrame_ok: "pool_ok e \<Longrightarrow> frame_ok f \<Longrightarrow> pool_ok (ReleaseFrame e f)"
  by (simp add: ReleaseFrame_def pool_ok_def frame_ok_def)

lemma ReleaseFrame_db [simp]: "e_db (ReleaseFrame e f) = e_db e"
  by (simp add: ReleaseFrame_def)

section \<open>The jump table is right\<close>

text \<open>The instruction boundaries of a code: byte 0, and after an instruction the byte behind its operand.\<close>

inductive instr_start :: "bytes \<Rightarrow> nat \<Rightarrow> bool" for code where
  start_zero: "instr_start code 0"
| start_push: "instr_start code i \<Longrightarrow> i < length code \<Longrightarrow> op_PUSH1 \<le> code ! i \<Longrightarrow> code ! i \<le> op_PUSH32
    \<Longrightarrow> instr_start code (i + unat (code ! i - op_PUSH1) + 2)"
| start_other: "instr_start code i \<Longrightarrow> i < length code \<Longrightarrow> \<not> (op_PUSH1 \<le> code ! i \<and> code ! i \<le> op_PUSH32)
    \<Longrightarrow> instr_start code (i + 1)"

text \<open>The boundaries the loop visits from a given index on.\<close>

definition next_instr :: "bytes \<Rightarrow> nat \<Rightarrow> nat" where
  "next_instr code i =
     (if op_PUSH1 \<le> code ! i \<and> code ! i \<le> op_PUSH32 then i + unat (code ! i - op_PUSH1) + 2 else i + 1)"

inductive visits :: "bytes \<Rightarrow> nat \<Rightarrow> nat \<Rightarrow> bool" for code where
  visits_here: "visits code i i"
| visits_next: "i < length code \<Longrightarrow> visits code (next_instr code i) k \<Longrightarrow> visits code i k"

lemma visits_unfold: "visits code i k \<longleftrightarrow> k = i \<or> i < length code \<and> visits code (next_instr code i) k"
  by (subst visits.simps) auto

lemma visits_extend: "visits code i k \<Longrightarrow> k < length code \<Longrightarrow> visits code i (next_instr code k)"
  by (induction rule: visits.induct) (auto intro: visits.intros)

lemma instr_start_next: "instr_start code i \<Longrightarrow> i < length code \<Longrightarrow> instr_start code (next_instr code i)"
  using start_push [of code i] start_other [of code i] by (auto simp: next_instr_def)

lemma visits_instr_start: "visits code i k \<Longrightarrow> instr_start code i \<Longrightarrow> instr_start code k"
  by (induction rule: visits.induct) (auto intro: instr_start_next)

lemma instr_start_visits: "instr_start code k \<Longrightarrow> visits code 0 k"
proof (induction rule: instr_start.induct)
  case start_zero
  show ?case by (rule visits_here)
next
  case (start_push i)
  then show ?case using visits_extend [of code 0 i] by (simp add: next_instr_def)
next
  case (start_other i)
  then have "next_instr code i = i + 1"
    by (simp only: next_instr_def if_False)
  then show ?case using start_other visits_extend [of code 0 i] by simp
qed

text \<open>A bit vector as the set of the indices whose bit is set.\<close>

definition bv_mem :: "bitvec \<Rightarrow> nat \<Rightarrow> bool" where
  "bv_mem b k \<longleftrightarrow> k div 8 < length b \<and> bit (b ! (k div 8)) (k mod 8)"

lemma bitvec_has_mem: "bitvec_has b i \<longleftrightarrow> bv_mem b (unat i)"
  by (simp add: bitvec_has_def bv_mem_def bit_iff_and_push_bit_not_eq_0 unat_div unat_mod not_le)

lemma length_bitvec_set [simp]: "length (bitvec_set b i) = length b"
  by (simp add: bitvec_set_def)

lemma bv_mem_set:
  assumes "i div 8 < length b"
  shows "bv_mem (bitvec_set b i) k \<longleftrightarrow> k = i \<or> bv_mem b k"
proof (cases "k div 8 = i div 8")
  case True
  then have "k = i \<longleftrightarrow> k mod 8 = i mod 8" by (metis div_mult_mod_eq)
  moreover have "k mod 8 < LENGTH(8)" by simp
  ultimately show ?thesis
    using assms True
    by (auto simp: bv_mem_def bitvec_set_def bit_or_iff bit_exp_iff)
next
  case False
  then show ?thesis using assms by (auto simp: bv_mem_def bitvec_set_def)
qed

lemma bv_mem_build_loop:
  assumes "length bv = (length code + 7) div 8"
  shows "bv_mem (build_loop code i bv) k \<longleftrightarrow>
     bv_mem bv k \<or> visits code i k \<and> k < length code \<and> code ! k = op_JUMPDEST"
  using assms
proof (induction code i bv rule: build_loop.induct)
  case (1 code i bv)
  show ?case
  proof (cases "i < length code")
    case False
    then show ?thesis by (subst build_loop.simps) (auto simp: visits_unfold [of code i k])
  next
    case True
    let ?bv = "if code ! i = op_JUMPDEST then bitvec_set bv i else bv"
    have len: "length ?bv = (length code + 7) div 8" using "1.prems" by simp
    have "i div 8 < length bv" using True "1.prems" by simp
    then have mem: "bv_mem ?bv k \<longleftrightarrow> bv_mem bv k \<or> k = i \<and> code ! i = op_JUMPDEST"
      by (auto simp: bv_mem_set)
    have "build_loop code i bv = build_loop code (next_instr code i) ?bv"
      using True by (subst build_loop.simps) (simp add: Let_def next_instr_def)
    moreover have "bv_mem (build_loop code (next_instr code i) ?bv) k \<longleftrightarrow>
        bv_mem ?bv k \<or> visits code (next_instr code i) k \<and> k < length code \<and> code ! k = op_JUMPDEST"
    proof (cases "op_PUSH1 \<le> code ! i \<and> code ! i \<le> op_PUSH32")
      case push: True
      then have eq: "next_instr code i = i + unat (code ! i - op_PUSH1) + 2"
        by (simp add: next_instr_def)
      show ?thesis unfolding eq by (rule "1.IH"(1) [OF True refl refl push len])
    next
      case other: False
      then have eq: "next_instr code i = i + 1"
        by (simp only: next_instr_def if_False)
      show ?thesis unfolding eq by (rule "1.IH"(2) [OF True refl refl other len])
    qed
    ultimately show ?thesis
      using True mem by (auto simp: visits_unfold [of code i k])
  qed
qed

lemma bv_mem_buildJumpdests:
  "bv_mem (buildJumpdests code) k \<longleftrightarrow> instr_start code k \<and> k < length code \<and> code ! k = op_JUMPDEST"
proof -
  have "\<not> bv_mem (replicate ((length code + 7) div 8) 0) k"
    by (auto simp: bv_mem_def)
  then show ?thesis
    using visits_instr_start [of code 0 k] instr_start_visits [of code k] start_zero
    by (auto simp: buildJumpdests_def bv_mem_build_loop)
qed

section \<open>Properties\<close>

text \<open>
  C21: the jump table of a code admits exactly the destinations that are a JUMPDEST instruction: a byte
  0x5b at an instruction boundary, never one inside the operand of a PUSH and never one past the end.
\<close>

theorem buildJumpdests_correct:
  "bitvec_has (buildJumpdests code) d \<longleftrightarrow>
     instr_start code (unat d) \<and> unat d < length code \<and> code ! unat d = op_JUMPDEST"
  by (simp add: bitvec_has_mem bv_mem_buildJumpdests)

end
