(* ===== verification/Ops.thy ===== *)
theory Ops
  imports Machine
begin

text \<open>
  The opcode functions of \<open>interpreter/op_arithmetic.go\<close>, \<open>op_env.go\<close>, \<open>op_memory.go\<close> and
  \<open>op_log.go\<close>.  An operation takes the machine and returns it with the Go error, or panics.  The
  building blocks are one Go statement each and take the rest of the function as their last argument:
  \<open>pop k\<close> is \<open>a, err := f.Stack.Pop(); if err != nil { return err }\<close> followed by \<open>k a\<close>, \<open>peek n k\<close> reads
  \<open>f.Stack.Back(n)\<close>, \<open>poke n v k\<close> stores into that slot.
\<close>

unbundle bit_operations_syntax

type_synonym op = "machine \<Rightarrow> (machine \<times> error option) go"

section \<open>Building blocks\<close>

definition op_ok :: op where
  "op_ok m = Ret (m, None)"

definition op_fail :: "error \<Rightarrow> op" where
  "op_fail e m = Ret (m, Some e)"

definition set_stack :: "Stack \<Rightarrow> machine \<Rightarrow> machine" where
  "set_stack s = upd_fr (\<lambda>f. f\<lparr>Stk := s\<rparr>)"

definition set_mem :: "Memory \<Rightarrow> machine \<Rightarrow> machine" where
  "set_mem x = upd_fr (\<lambda>f. f\<lparr>Mem := x\<rparr>)"

definition pop :: "(word256 \<Rightarrow> op) \<Rightarrow> op" where
  "pop k m = go_bind (Pop (Stk (fr m))) (\<lambda>r.
     case r of Inl e \<Rightarrow> op_fail e m | Inr (v, s) \<Rightarrow> k v (set_stack s m))"

definition peek :: "int \<Rightarrow> (word256 \<Rightarrow> machine \<Rightarrow> 'r go) \<Rightarrow> machine \<Rightarrow> 'r go" where
  "peek n k m = go_bind (Back (Stk (fr m)) n) (\<lambda>v. k v m)"

definition poke :: "int \<Rightarrow> word256 \<Rightarrow> op \<Rightarrow> op" where
  "poke n v k m = go_bind (SetBack (Stk (fr m)) n v) (\<lambda>s. k (set_stack s m))"

text \<open>\<open>return f.Stack.Push(&w)\<close> and its relatives.\<close>

definition push_result :: "(error + Stack) go \<Rightarrow> op" where
  "push_result r m = go_bind r (\<lambda>r'.
     case r' of Inl e \<Rightarrow> op_fail e m | Inr s \<Rightarrow> op_ok (set_stack s m))"

definition push :: "word256 \<Rightarrow> op" where
  "push v m = push_result (Push (Stk (fr m)) v) m"

definition push_raw :: "u64 \<Rightarrow> op" where
  "push_raw v m = push_result (PushRaw (Stk (fr m)) v) m"

text \<open>A memory access that yields a value or a new memory.\<close>

definition with_mem :: "(Memory \<Rightarrow> 'a go) \<Rightarrow> ('a \<Rightarrow> machine \<Rightarrow> 'r go) \<Rightarrow> machine \<Rightarrow> 'r go" where
  "with_mem g k m = go_bind (g (Mem (fr m))) (\<lambda>x. k x m)"

definition write_mem :: "(Memory \<Rightarrow> Memory go) \<Rightarrow> (machine \<Rightarrow> 'r go) \<Rightarrow> machine \<Rightarrow> 'r go" where
  "write_mem g k m = go_bind (g (Mem (fr m))) (\<lambda>x. k (set_mem x m))"

text \<open>A database read: the database may change by a fetch.\<close>

definition read_db :: "(DB \<Rightarrow> 'a \<times> DB) \<Rightarrow> ('a \<Rightarrow> machine \<Rightarrow> 'r go) \<Rightarrow> machine \<Rightarrow> 'r go" where
  "read_db g k m = (case g (db_of m) of (x, d) \<Rightarrow> k x (set_db d m))"

definition read_db_go :: "(DB \<Rightarrow> ('a \<times> DB) go) \<Rightarrow> ('a \<Rightarrow> machine \<Rightarrow> 'r go) \<Rightarrow> machine \<Rightarrow> 'r go" where
  "read_db_go g k m = go_bind (g (db_of m)) (\<lambda>(x, d). k x (set_db d m))"

definition write_db :: "(DB \<Rightarrow> DB) \<Rightarrow> (machine \<Rightarrow> 'r go) \<Rightarrow> machine \<Rightarrow> 'r go" where
  "write_db g k m = k (set_db (g (db_of m)) m)"

definition of_bool256 :: "bool \<Rightarrow> word256" where
  "of_bool256 b = (if b then 1 else 0)"

section \<open>Arithmetic (op_arithmetic.go)\<close>

definition opAdd :: "lib \<Rightarrow> op" where
  "opAdd L = pop (\<lambda>a. peek 0 (\<lambda>b. poke 0 (u_add L a b) op_ok))"

definition opMul :: "lib \<Rightarrow> op" where
  "opMul L = pop (\<lambda>a. peek 0 (\<lambda>b. poke 0 (u_mul L a b) op_ok))"

definition opSub :: "lib \<Rightarrow> op" where
  "opSub L = pop (\<lambda>a. peek 0 (\<lambda>b. poke 0 (u_sub L a b) op_ok))"

definition opDiv :: "lib \<Rightarrow> op" where
  "opDiv L = pop (\<lambda>a. peek 0 (\<lambda>b.
     if b = 0 then poke 0 0 op_ok else poke 0 (u_div L a b) op_ok))"

definition opSDiv :: "lib \<Rightarrow> op" where
  "opSDiv L = pop (\<lambda>a. peek 0 (\<lambda>b.
     if b = 0 then poke 0 0 op_ok else poke 0 (u_sdiv L a b) op_ok))"

definition opMod :: "lib \<Rightarrow> op" where
  "opMod L = pop (\<lambda>a. peek 0 (\<lambda>b.
     if b = 0 then poke 0 0 op_ok else poke 0 (u_mod L a b) op_ok))"

definition opSMod :: "lib \<Rightarrow> op" where
  "opSMod L = pop (\<lambda>a. peek 0 (\<lambda>b.
     if b = 0 then poke 0 0 op_ok else poke 0 (u_smod L a b) op_ok))"

definition opAddMod :: "lib \<Rightarrow> op" where
  "opAddMod L = pop (\<lambda>a. pop (\<lambda>b. peek 0 (\<lambda>n.
     if n = 0 then poke 0 0 op_ok else poke 0 (u_addmod L a b n) op_ok)))"

definition opMulMod :: "lib \<Rightarrow> op" where
  "opMulMod L = pop (\<lambda>a. pop (\<lambda>b. peek 0 (\<lambda>n.
     if n = 0 then poke 0 0 op_ok else poke 0 (u_mulmod L a b n) op_ok)))"

definition opExp :: "lib \<Rightarrow> op" where
  "opExp L = pop (\<lambda>base. peek 0 (\<lambda>e. poke 0 (u_exp L base e) op_ok))"

definition opSignExtend :: "lib \<Rightarrow> op" where
  "opSignExtend L = pop (\<lambda>b. peek 0 (\<lambda>x. poke 0 (u_extendsign L x b) op_ok))"

definition opNot :: "lib \<Rightarrow> op" where
  "opNot L = peek 0 (\<lambda>x. poke 0 (u_not L x) op_ok)"

definition opLt :: "lib \<Rightarrow> op" where
  "opLt L = pop (\<lambda>a. peek 0 (\<lambda>b. poke 0 (of_bool256 (u_lt L a b)) op_ok))"

definition opGt :: "lib \<Rightarrow> op" where
  "opGt L = pop (\<lambda>a. peek 0 (\<lambda>b. poke 0 (of_bool256 (u_gt L a b)) op_ok))"

definition opSlt :: "lib \<Rightarrow> op" where
  "opSlt L = pop (\<lambda>a. peek 0 (\<lambda>b. poke 0 (of_bool256 (u_slt L a b)) op_ok))"

definition opSgt :: "lib \<Rightarrow> op" where
  "opSgt L = pop (\<lambda>a. peek 0 (\<lambda>b. poke 0 (of_bool256 (u_sgt L a b)) op_ok))"

definition opEq :: op where
  "opEq = pop (\<lambda>a. peek 0 (\<lambda>b. poke 0 (of_bool256 (a = b)) op_ok))"

definition opIsZero :: op where
  "opIsZero = peek 0 (\<lambda>x. poke 0 (of_bool256 (x = 0)) op_ok)"

definition opAnd :: "lib \<Rightarrow> op" where
  "opAnd L = pop (\<lambda>a. peek 0 (\<lambda>b. poke 0 (u_and L a b) op_ok))"

definition opOr :: "lib \<Rightarrow> op" where
  "opOr L = pop (\<lambda>a. peek 0 (\<lambda>b. poke 0 (u_or L a b) op_ok))"

definition opXor :: "lib \<Rightarrow> op" where
  "opXor L = pop (\<lambda>a. peek 0 (\<lambda>b. poke 0 (u_xor L a b) op_ok))"

definition opByte :: op where
  "opByte = pop (\<lambda>i. peek 0 (\<lambda>x.
     if i < 32 then poke 0 (ucast (Bytes32 x ! unat (Uint64 i))) op_ok else poke 0 0 op_ok))"

definition opShl :: "lib \<Rightarrow> op" where
  "opShl L = pop (\<lambda>shift. peek 0 (\<lambda>x.
     if shift < 256 then poke 0 (u_lsh L x (Uint64 shift)) op_ok else poke 0 0 op_ok))"

definition opShr :: "lib \<Rightarrow> op" where
  "opShr L = pop (\<lambda>shift. peek 0 (\<lambda>x.
     if shift < 256 then poke 0 (u_rsh L x (Uint64 shift)) op_ok else poke 0 0 op_ok))"

definition opSar :: "lib \<Rightarrow> op" where
  "opSar L = pop (\<lambda>shift. peek 0 (\<lambda>x.
     if shift > 255 then
       if u_sign L x < 0 then poke 0 (- 1) op_ok else poke 0 0 op_ok
     else poke 0 (u_srsh L x (Uint64 shift)) op_ok))"

definition opSha3 :: "lib \<Rightarrow> op" where
  "opSha3 L = pop (\<lambda>offset. peek 0 (\<lambda>sz.
     with_mem (\<lambda>x. Get x (Uint64 offset) (Uint64 sz)) (\<lambda>dat.
       poke 0 (SetBytes (keccak L dat)) op_ok)))"

section \<open>Environment (op_env.go)\<close>

definition opAddress :: op where
  "opAddress m = push (AddressToWord (Contract (fr m))) m"

definition opBalance :: "lib \<Rightarrow> op" where
  "opBalance L = peek 0 (\<lambda>w. read_db (\<lambda>d. db_GetBalance L d (WordToAddress w)) (\<lambda>bal.
     poke 0 bal op_ok))"

definition opOrigin :: op where
  "opOrigin m = push (AddressToWord (tx_Origin (e_tx (evm m)))) m"

definition opCaller :: op where
  "opCaller m = push (AddressToWord (Caller (fr m))) m"

definition opCallValue :: op where
  "opCallValue m = push (f_Value (fr m)) m"

text \<open>\<open>if off < uint64(len(data)) { copy(buf, data[off:]) }\<close> into a zeroed buffer of \<open>n\<close> bytes.\<close>

definition padded_from :: "bytes \<Rightarrow> u64 \<Rightarrow> nat \<Rightarrow> bytes" where
  "padded_from dat off n =
     (if unat off < length dat then copy_at (replicate n 0) 0 (drop (unat off) dat) else replicate n 0)"

definition opCalldataLoad :: op where
  "opCalldataLoad = peek 0 (\<lambda>x m.
     poke 0 (SetBytes (padded_from (Input (fr m)) (Uint64 x) 32)) op_ok m)"

definition opCalldataSize :: op where
  "opCalldataSize m = push_raw (of_nat (length (Input (fr m)))) m"

text \<open>
  The common part of the copy instructions: zero the destination slice, then copy what the source has
  from \<open>off\<close> on.
\<close>

definition copy_in :: "u64 \<Rightarrow> u64 \<Rightarrow> u64 \<Rightarrow> bytes \<Rightarrow> op" where
  "copy_in dest off sz dat =
     (if sz = 0 then op_ok
      else with_mem (\<lambda>x. GetPtr x dest sz) (\<lambda>dst.
        write_mem (\<lambda>x. Ret (zero_ptr x dst))
          (if unat off < length dat
           then write_mem (\<lambda>x. Ret (copy_ptr x dst (drop (unat off) dat))) op_ok
           else op_ok)))"

definition opCalldataCopy :: op where
  "opCalldataCopy = pop (\<lambda>destOffset. pop (\<lambda>offset. pop (\<lambda>sz m.
     copy_in (Uint64 destOffset) (Uint64 offset) (Uint64 sz) (Input (fr m)) m)))"

definition opCodeSize :: op where
  "opCodeSize m = push_raw (of_nat (length (Code (fr m)))) m"

definition opCodeCopy :: op where
  "opCodeCopy = pop (\<lambda>destOffset. pop (\<lambda>offset. pop (\<lambda>sz m.
     copy_in (Uint64 destOffset) (Uint64 offset) (Uint64 sz) (Code (fr m)) m)))"

definition opGasPrice :: op where
  "opGasPrice m = push (tx_GasPrice (e_tx (evm m))) m"

definition opExtCodeSize :: "lib \<Rightarrow> op" where
  "opExtCodeSize L = peek 0 (\<lambda>w. read_db (\<lambda>d. db_GetCode L d (WordToAddress w)) (\<lambda>code.
     poke 0 (SetUint64 (of_nat (length code))) op_ok))"

definition opExtCodeCopy :: "lib \<Rightarrow> op" where
  "opExtCodeCopy L = pop (\<lambda>addrWord. pop (\<lambda>destOffset. pop (\<lambda>offset. pop (\<lambda>sz.
     read_db (\<lambda>d. db_GetCode L d (WordToAddress addrWord)) (\<lambda>code.
       copy_in (Uint64 destOffset) (Uint64 offset) (Uint64 sz) code)))))"

definition opReturnDataSize :: op where
  "opReturnDataSize m = push_raw (of_nat (length (ReturnData (fr m)))) m"

definition opReturnDataCopy :: op where
  "opReturnDataCopy = pop (\<lambda>destOffset. pop (\<lambda>offset. pop (\<lambda>size m.
     let dest = Uint64 destOffset; off = Uint64 offset; sz = Uint64 size; end' = off + sz;
         rd = ReturnData (fr m)
     in if end' < off \<or> unat end' > length rd then op_fail ErrReturnDataOOB m
        else if sz = 0 then op_ok m
        else with_mem (\<lambda>x. GetPtr x dest sz) (\<lambda>dst.
          write_mem (\<lambda>x. Ret (copy_ptr x dst (take (unat end' - unat off) (drop (unat off) rd)))) op_ok) m)))"

definition opExtCodeHash :: "lib \<Rightarrow> op" where
  "opExtCodeHash L = peek 0 (\<lambda>w. read_db (\<lambda>d. db_Empty L d (WordToAddress w)) (\<lambda>empty.
     if empty then poke 0 0 op_ok
     else read_db (\<lambda>d. db_GetCodeHash L d (WordToAddress w)) (\<lambda>h.
       poke 0 (SetBytes h) op_ok)))"

definition opBlockHash :: op where
  "opBlockHash = poke 0 0 op_ok"

definition opCoinbase :: op where
  "opCoinbase m = push (AddressToWord (blk_Coinbase (e_block (evm m)))) m"

definition opTimestamp :: op where
  "opTimestamp m = push_raw (blk_Time (e_block (evm m))) m"

definition opNumber :: op where
  "opNumber m = push_raw (blk_BlockNumber (e_block (evm m))) m"

definition opDifficulty :: op where
  "opDifficulty m = push (blk_Difficulty (e_block (evm m))) m"

definition opGasLimit :: op where
  "opGasLimit m = push_raw (blk_GasLimit (e_block (evm m))) m"

definition opChainID :: op where
  "opChainID m = push (blk_ChainID (e_block (evm m))) m"

definition opSelfBalance :: "lib \<Rightarrow> op" where
  "opSelfBalance L m = read_db (\<lambda>d. db_GetBalance L d (Contract (fr m))) push m"

definition opBaseFee :: op where
  "opBaseFee m = push (blk_BaseFee (e_block (evm m))) m"

section \<open>Memory, storage and control flow (op_memory.go)\<close>

definition opPop :: op where
  "opPop = pop (\<lambda>a. op_ok)"

definition opMload :: op where
  "opMload = peek 0 (\<lambda>x. with_mem (\<lambda>y. Get y (Uint64 x) 32) (\<lambda>dat.
     poke 0 (SetBytes dat) op_ok))"

definition opMstore :: op where
  "opMstore = pop (\<lambda>offset. pop (\<lambda>val.
     write_mem (\<lambda>x. Set32 x (Uint64 offset) (Bytes32 val)) op_ok))"

definition opMstore8 :: op where
  "opMstore8 = pop (\<lambda>offset. pop (\<lambda>val.
     write_mem (\<lambda>x. SetByte x (Uint64 offset) (ucast (Uint64 val))) op_ok))"

definition opSload :: "lib \<Rightarrow> op" where
  "opSload L m = peek 0 (\<lambda>slot.
     read_db_go (\<lambda>d. db_GetStorage L d (Contract (fr m)) (Bytes32 slot)) (\<lambda>val.
       poke 0 (SetBytes val) op_ok)) m"

definition opSstore :: "lib \<Rightarrow> op" where
  "opSstore L m =
     (if Static (fr m) then op_fail ErrWriteProtection m
      else pop (\<lambda>slot. pop (\<lambda>val.
        write_db (\<lambda>d. db_SetStorage L d (Contract (fr m)) (Bytes32 slot) (Bytes32 val)) op_ok)) m)"

definition set_pc :: "u64 \<Rightarrow> op \<Rightarrow> op" where
  "set_pc pc k m = k (upd_fr (\<lambda>f. f\<lparr>PC := pc\<rparr>) m)"

definition jump_to :: "u64 \<Rightarrow> op" where
  "jump_to d m =
     (if \<not> bitvec_has (jumpdests (fr m)) d then op_fail ErrInvalidJump m else set_pc d op_ok m)"

definition opJump :: op where
  "opJump = pop (\<lambda>dest. jump_to (Uint64 dest))"

definition opJumpi :: op where
  "opJumpi = pop (\<lambda>dest. pop (\<lambda>cond.
     if cond \<noteq> 0 then jump_to (Uint64 dest) else op_ok))"

definition opPC :: op where
  "opPC m = push_raw (PC (fr m) - 1) m"

definition opMsize :: op where
  "opMsize m = push_raw (of_nat (Memory_Len (Mem (fr m)))) m"

definition opGas :: op where
  "opGas m = push_raw (Gas (fr m)) m"

definition opJumpdest :: op where
  "opJumpdest = op_ok"

text \<open>
  \<open>f.Code[f.PC:end]\<close> panics when \<open>PC\<close> is beyond the clipped end.  The counter is advanced before the
  push, whose error is returned.
\<close>

definition opPush :: "nat \<Rightarrow> op" where
  "opPush n m =
     (let code = Code (fr m); pc = PC (fr m);
          end0 = pc + of_nat n;
          end' = (if unat end0 > length code then of_nat (length code) else end0)
      in if pc \<le> end' \<and> unat end' \<le> length code
         then set_pc (pc + of_nat n)
                (push (SetBytes (take (unat end' - unat pc) (drop (unat pc) code)))) m
         else Panic)"

definition opDup :: "int \<Rightarrow> op" where
  "opDup n m = push_result (DupN (Stk (fr m)) n) m"

definition opSwap :: "int \<Rightarrow> op" where
  "opSwap n m = push_result (SwapN (Stk (fr m)) n) m"

section \<open>Logs (op_log.go)\<close>

fun pop_topics :: "nat \<Rightarrow> Hash list \<Rightarrow> (Hash list \<Rightarrow> op) \<Rightarrow> op" where
  "pop_topics 0 topics k = k topics"
| "pop_topics (Suc n) topics k = pop (\<lambda>t. pop_topics n (topics @ [Bytes32 t]) k)"

definition opLog :: "nat \<Rightarrow> op" where
  "opLog n m =
     (if Static (fr m) then op_fail ErrWriteProtection m
      else pop (\<lambda>offset. pop (\<lambda>sz. pop_topics n [] (\<lambda>topics.
        with_mem (\<lambda>x. GetCopy x (Uint64 offset) (Uint64 sz)) (\<lambda>dat.
          write_db (\<lambda>d. db_AddLog d \<lparr>log_Address = Contract (fr m), log_Topics = topics, log_Data = dat\<rparr>)
            op_ok)))) m)"

end
