(* ===== verification/Interp.thy ===== *)
theory Interp
  imports Ops
begin

text \<open>
  The interpreter (\<open>interpreter/interpreter.go\<close>, \<open>op_call.go\<close>, \<open>opcodes.go\<close>, \<open>result.go\<close>).  \<open>Run\<close>'s
  switch is \<open>exec_op\<close>, a dispatch on the opcode byte: the cases of the form "charge a constant, call
  the opcode function" are the rows of \<open>arith_ops\<close>, \<open>env_ops\<close> and \<open>mem_ops\<close>, the others have a
  definition each.  A case either returns an \<open>ExecResult\<close> (\<open>Done\<close>) or falls out of the switch with a
  value of \<open>err\<close> (\<open>Next\<close>).  The \<open>CallHandler\<close> the interpreter is built with is the argument \<open>H\<close>.  The
  loop is unrolled with fuel; \<open>NoFuel\<close> is the outcome when it is used up.
\<close>

section \<open>Opcode bytes (interpreter/opcodes.go)\<close>

abbreviation (input) op_STOP :: byte where "op_STOP \<equiv> 0x00"
abbreviation (input) op_ADD :: byte where "op_ADD \<equiv> 0x01"
abbreviation (input) op_MUL :: byte where "op_MUL \<equiv> 0x02"
abbreviation (input) op_SUB :: byte where "op_SUB \<equiv> 0x03"
abbreviation (input) op_DIV :: byte where "op_DIV \<equiv> 0x04"
abbreviation (input) op_SDIV :: byte where "op_SDIV \<equiv> 0x05"
abbreviation (input) op_MOD :: byte where "op_MOD \<equiv> 0x06"
abbreviation (input) op_SMOD :: byte where "op_SMOD \<equiv> 0x07"
abbreviation (input) op_ADDMOD :: byte where "op_ADDMOD \<equiv> 0x08"
abbreviation (input) op_MULMOD :: byte where "op_MULMOD \<equiv> 0x09"
abbreviation (input) op_EXP :: byte where "op_EXP \<equiv> 0x0a"
abbreviation (input) op_SIGNEXTEND :: byte where "op_SIGNEXTEND \<equiv> 0x0b"
abbreviation (input) op_LT :: byte where "op_LT \<equiv> 0x10"
abbreviation (input) op_GT :: byte where "op_GT \<equiv> 0x11"
abbreviation (input) op_SLT :: byte where "op_SLT \<equiv> 0x12"
abbreviation (input) op_SGT :: byte where "op_SGT \<equiv> 0x13"
abbreviation (input) op_EQ :: byte where "op_EQ \<equiv> 0x14"
abbreviation (input) op_ISZERO :: byte where "op_ISZERO \<equiv> 0x15"
abbreviation (input) op_AND :: byte where "op_AND \<equiv> 0x16"
abbreviation (input) op_OR :: byte where "op_OR \<equiv> 0x17"
abbreviation (input) op_XOR :: byte where "op_XOR \<equiv> 0x18"
abbreviation (input) op_NOT :: byte where "op_NOT \<equiv> 0x19"
abbreviation (input) op_BYTE :: byte where "op_BYTE \<equiv> 0x1a"
abbreviation (input) op_SHL :: byte where "op_SHL \<equiv> 0x1b"
abbreviation (input) op_SHR :: byte where "op_SHR \<equiv> 0x1c"
abbreviation (input) op_SAR :: byte where "op_SAR \<equiv> 0x1d"
abbreviation (input) op_SHA3 :: byte where "op_SHA3 \<equiv> 0x20"
abbreviation (input) op_ADDRESS :: byte where "op_ADDRESS \<equiv> 0x30"
abbreviation (input) op_BALANCE :: byte where "op_BALANCE \<equiv> 0x31"
abbreviation (input) op_ORIGIN :: byte where "op_ORIGIN \<equiv> 0x32"
abbreviation (input) op_CALLER :: byte where "op_CALLER \<equiv> 0x33"
abbreviation (input) op_CALLVALUE :: byte where "op_CALLVALUE \<equiv> 0x34"
abbreviation (input) op_CALLDATALOAD :: byte where "op_CALLDATALOAD \<equiv> 0x35"
abbreviation (input) op_CALLDATASIZE :: byte where "op_CALLDATASIZE \<equiv> 0x36"
abbreviation (input) op_CALLDATACOPY :: byte where "op_CALLDATACOPY \<equiv> 0x37"
abbreviation (input) op_CODESIZE :: byte where "op_CODESIZE \<equiv> 0x38"
abbreviation (input) op_CODECOPY :: byte where "op_CODECOPY \<equiv> 0x39"
abbreviation (input) op_GASPRICE :: byte where "op_GASPRICE \<equiv> 0x3a"
abbreviation (input) op_EXTCODESIZE :: byte where "op_EXTCODESIZE \<equiv> 0x3b"
abbreviation (input) op_EXTCODECOPY :: byte where "op_EXTCODECOPY \<equiv> 0x3c"
abbreviation (input) op_RETURNDATASIZE :: byte where "op_RETURNDATASIZE \<equiv> 0x3d"
abbreviation (input) op_RETURNDATACOPY :: byte where "op_RETURNDATACOPY \<equiv> 0x3e"
abbreviation (input) op_EXTCODEHASH :: byte where "op_EXTCODEHASH \<equiv> 0x3f"
abbreviation (input) op_BLOCKHASH :: byte where "op_BLOCKHASH \<equiv> 0x40"
abbreviation (input) op_COINBASE :: byte where "op_COINBASE \<equiv> 0x41"
abbreviation (input) op_TIMESTAMP :: byte where "op_TIMESTAMP \<equiv> 0x42"
abbreviation (input) op_NUMBER :: byte where "op_NUMBER \<equiv> 0x43"
abbreviation (input) op_DIFFICULTY :: byte where "op_DIFFICULTY \<equiv> 0x44"
abbreviation (input) op_GASLIMIT :: byte where "op_GASLIMIT \<equiv> 0x45"
abbreviation (input) op_CHAINID :: byte where "op_CHAINID \<equiv> 0x46"
abbreviation (input) op_SELFBALANCE :: byte where "op_SELFBALANCE \<equiv> 0x47"
abbreviation (input) op_BASEFEE :: byte where "op_BASEFEE \<equiv> 0x48"
abbreviation (input) op_POP :: byte where "op_POP \<equiv> 0x50"
abbreviation (input) op_MLOAD :: byte where "op_MLOAD \<equiv> 0x51"
abbreviation (input) op_MSTORE :: byte where "op_MSTORE \<equiv> 0x52"
abbreviation (input) op_MSTORE8 :: byte where "op_MSTORE8 \<equiv> 0x53"
abbreviation (input) op_SLOAD :: byte where "op_SLOAD \<equiv> 0x54"
abbreviation (input) op_SSTORE :: byte where "op_SSTORE \<equiv> 0x55"
abbreviation (input) op_JUMP :: byte where "op_JUMP \<equiv> 0x56"
abbreviation (input) op_JUMPI :: byte where "op_JUMPI \<equiv> 0x57"
abbreviation (input) op_PC :: byte where "op_PC \<equiv> 0x58"
abbreviation (input) op_MSIZE :: byte where "op_MSIZE \<equiv> 0x59"
abbreviation (input) op_GAS :: byte where "op_GAS \<equiv> 0x5a"
abbreviation (input) op_DUP1 :: byte where "op_DUP1 \<equiv> 0x80"
abbreviation (input) op_DUP16 :: byte where "op_DUP16 \<equiv> 0x8f"
abbreviation (input) op_SWAP1 :: byte where "op_SWAP1 \<equiv> 0x90"
abbreviation (input) op_SWAP16 :: byte where "op_SWAP16 \<equiv> 0x9f"
abbreviation (input) op_LOG0 :: byte where "op_LOG0 \<equiv> 0xa0"
abbreviation (input) op_LOG4 :: byte where "op_LOG4 \<equiv> 0xa4"
abbreviation (input) op_CREATE :: byte where "op_CREATE \<equiv> 0xf0"
abbreviation (input) op_CALL :: byte where "op_CALL \<equiv> 0xf1"
abbreviation (input) op_CALLCODE :: byte where "op_CALLCODE \<equiv> 0xf2"
abbreviation (input) op_RETURN :: byte where "op_RETURN \<equiv> 0xf3"
abbreviation (input) op_DELEGATECALL :: byte where "op_DELEGATECALL \<equiv> 0xf4"
abbreviation (input) op_CREATE2 :: byte where "op_CREATE2 \<equiv> 0xf5"
abbreviation (input) op_STATICCALL :: byte where "op_STATICCALL \<equiv> 0xfa"
abbreviation (input) op_REVERT :: byte where "op_REVERT \<equiv> 0xfd"
abbreviation (input) op_INVALID :: byte where "op_INVALID \<equiv> 0xfe"
abbreviation (input) op_SELFDESTRUCT :: byte where "op_SELFDESTRUCT \<equiv> 0xff"

section \<open>Results and the call handler\<close>

record ExecResult =
  r_ReturnData :: bytes
  r_GasLeft :: u64
  r_Err :: "error option"

abbreviation (input) MaxCallDepth :: int where "MaxCallDepth \<equiv> 1024"

record handler =
  h_Call :: "EVM \<Rightarrow> Frame \<Rightarrow> CallType \<Rightarrow> Address \<Rightarrow> u64 \<Rightarrow> u64 \<Rightarrow> bytes \<Rightarrow>
    (EVM \<times> bytes \<times> u64 \<times> error option) go"
  h_Create :: "EVM \<Rightarrow> Frame \<Rightarrow> u64 \<Rightarrow> bytes \<Rightarrow> bytes option \<Rightarrow>
    (EVM \<times> Address \<times> u64 \<times> error option) go"

datatype outcome = Next "error option" | Done ExecResult

type_synonym act = "machine \<Rightarrow> (machine \<times> outcome) go"

definition fail_result :: "error \<Rightarrow> ExecResult" where
  "fail_result e = \<lparr>r_ReturnData = [], r_GasLeft = 0, r_Err = Some e\<rparr>"

definition ok_result :: "u64 \<Rightarrow> ExecResult" where
  "ok_result g = \<lparr>r_ReturnData = [], r_GasLeft = g, r_Err = None\<rparr>"

text \<open>\<open>return ExecResult{Err: e}\<close> and \<open>return ExecResult{GasLeft: f.Gas}\<close>.\<close>

definition return_err :: "error \<Rightarrow> act" where
  "return_err e m = Ret (m, Done (fail_result e))"

definition return_ok :: act where
  "return_ok m = Ret (m, Done (ok_result (Gas (fr m))))"

text \<open>\<open>err = op(f)\<close> at the end of a case.\<close>

definition fall :: "op \<Rightarrow> act" where
  "fall k m = go_bind (k m) (\<lambda>(m', e). Ret (m', Next e))"

definition use_gas :: "u64 \<Rightarrow> machine \<Rightarrow> machine" where
  "use_gas g = upd_fr (\<lambda>f. f\<lparr>Gas := Gas f - g\<rparr>)"

text \<open>\<open>if f.Gas < g { return ExecResult{Err: ErrOutOfGas} }; f.Gas -= g\<close>.\<close>

definition charge :: "u64 \<Rightarrow> act \<Rightarrow> act" where
  "charge g k m = (if Gas (fr m) < g then return_err ErrOutOfGas m else k (use_gas g m))"

text \<open>\<open>if f.Gas < g { return ErrOutOfGas }; f.Gas -= g\<close> in a function that returns an error.\<close>

definition charge_op :: "u64 \<Rightarrow> op \<Rightarrow> op" where
  "charge_op g k m = (if Gas (fr m) < g then op_fail ErrOutOfGas m else k (use_gas g m))"

text \<open>\<open>if err = a; err == nil { err = b }\<close>.\<close>

definition op_then :: "op \<Rightarrow> op \<Rightarrow> op" where
  "op_then a b m = go_bind (a m) (\<lambda>(m', e). case e of None \<Rightarrow> b m' | Some x \<Rightarrow> op_fail x m')"

text \<open>\<open>if e := a; e != nil { return ExecResult{Err: e} }\<close>.\<close>

definition or_return :: "op \<Rightarrow> act \<Rightarrow> act" where
  "or_return a k m = go_bind (a m) (\<lambda>(m', e). case e of None \<Rightarrow> k m' | Some x \<Rightarrow> return_err x m')"

text \<open>\<open>v, err := f.Stack.Pop(); if err != nil { return ExecResult{Err: err} }\<close>.\<close>

definition pop_or_return :: "(word256 \<Rightarrow> act) \<Rightarrow> act" where
  "pop_or_return k m = go_bind (Pop (Stk (fr m))) (\<lambda>r.
     case r of Inl e \<Rightarrow> return_err e m | Inr (v, s) \<Rightarrow> k v (set_stack s m))"

text \<open>\<open>f.Stack.Pop()\<close> with both results dropped.\<close>

definition drop_top :: "act \<Rightarrow> act" where
  "drop_top k m = go_bind (Pop (Stk (fr m))) (\<lambda>r.
     case r of Inl e \<Rightarrow> k m | Inr (v, s) \<Rightarrow> k (set_stack s m))"

text \<open>\<open>f.Stack.PushRaw(v)\<close> with its error dropped, followed by \<open>return ExecResult{GasLeft: f.Gas}\<close>.\<close>

definition push_and_return :: "(error + Stack) go \<Rightarrow> act" where
  "push_and_return r m = go_bind r (\<lambda>r'.
     case r' of Inl e \<Rightarrow> return_ok m | Inr s \<Rightarrow> return_ok (set_stack s m))"

definition if_act :: "bool \<Rightarrow> (act \<Rightarrow> act) \<Rightarrow> act \<Rightarrow> act" where
  "if_act b g k = (if b then g k else k)"

section \<open>The helpers of interpreter.go\<close>

definition expandMem :: "u64 \<Rightarrow> u64 \<Rightarrow> op" where
  "expandMem offset sz m =
     (if sz = 0 then op_ok m
      else go_bind (Expand (Mem (fr m)) offset sz (Gas (fr m))) (\<lambda>r.
        case r of Inl e \<Rightarrow> op_fail e m
        | Inr (x, g) \<Rightarrow> op_ok (upd_fr (\<lambda>f. f\<lparr>Mem := x, Gas := g\<rparr>) m)))"

definition memCopyOp :: "op \<Rightarrow> op" where
  "memCopyOp fn = peek 2 (\<lambda>dest. peek 0 (\<lambda>size.
     if Uint64 size > 0
     then op_then (expandMem (Uint64 dest) (Uint64 size)) (charge_op (CopyWords (Uint64 size)) fn)
     else fn))"

definition logOp :: "nat \<Rightarrow> op" where
  "logOp n m =
     (if Static (fr m) then op_fail ErrWriteProtection m
      else peek 0 (\<lambda>offset. peek 1 (\<lambda>size.
        op_then (if Uint64 size > 0 then expandMem (Uint64 offset) (Uint64 size) else op_ok)
          (charge_op (gas_Log + gas_LogData * Uint64 size + of_nat n * gas_LogTopic) (opLog n)))) m)"

definition warm_address :: "Address \<Rightarrow> (machine \<Rightarrow> 'r go) \<Rightarrow> machine \<Rightarrow> 'r go" where
  "warm_address addr = write_db (\<lambda>d. db_WarmAddress d addr)"

definition chargeExtAccess :: "Address \<Rightarrow> op" where
  "chargeExtAccess addr m =
     (if \<not> db_AddressWarm (db_of m) addr
      then charge_op gas_ColdAccountAccess (warm_address addr op_ok) m
      else charge_op gas_WarmStorageRead op_ok m)"

text \<open>
  The key of the cached jump tables: the address of the code's first byte and the length.  The address is a
  function of the contents here; that memory may be reused for another code shows only in that the
  function need not be injective.
\<close>

definition codeID :: "lib \<Rightarrow> bytes \<Rightarrow> nat \<times> nat" where
  "codeID L code = (if length code = 0 then (0, 0) else (code_ptr L code, length code))"

section \<open>CALL and its relatives (op_call.go)\<close>

fun call_type :: "byte \<Rightarrow> CallType" where
  "call_type op =
     (if op = op_CALL then CallTypeCall
      else if op = op_CALLCODE then CallTypeCallCode
      else if op = op_DELEGATECALL then CallTypeDelegateCall
      else if op = op_STATICCALL then CallTypeStaticCall
      else CallTypeCall)"

text \<open>The test \<open>isPrecompile\<close> of the new-account surcharge.\<close>

definition is_precompile_addr :: "Address \<Rightarrow> bool" where
  "is_precompile_addr addr \<longleftrightarrow>
     list_all (\<lambda>i. addr ! i = 0) [0..<19] \<and> addr ! 19 \<ge> 1 \<and> addr ! 19 \<le> 9"

text \<open>The charges for the account access and, with a value, for the transfer.\<close>

definition charge_access :: "Address \<Rightarrow> act \<Rightarrow> act" where
  "charge_access addr k m =
     (if \<not> db_AddressWarm (db_of m) addr
      then charge gas_ColdAccountAccess (warm_address addr k) m
      else charge gas_WarmStorageRead k m)"

definition charge_value :: "lib \<Rightarrow> Address \<Rightarrow> act \<Rightarrow> act" where
  "charge_value L addr k =
     charge gas_CallValue
       (if is_precompile_addr addr then k
        else read_db (\<lambda>d. db_Exists L d addr) (\<lambda>ex.
          if ex then k else charge gas_NewAccount k))"

text \<open>
  The part after the charges: the gas to forward, the call itself, the return of unused gas, the copy
  of the output and the flag on the stack.
\<close>

definition forward_gas :: "word256 \<Rightarrow> u64 \<Rightarrow> u64" where
  "forward_gas gasArg g =
     (if IsUint64 gasArg \<and> Uint64 gasArg < CallGas g then Uint64 gasArg else CallGas g)"

definition copy_output :: "word256 \<Rightarrow> word256 \<Rightarrow> bytes \<Rightarrow> act \<Rightarrow> act" where
  "copy_output outOffset outSize ret k =
     (if Uint64 outSize > 0 \<and> length ret > 0 then
        let n = (if of_nat (length ret) < Uint64 outSize then of_nat (length ret) else Uint64 outSize)
        in with_mem (\<lambda>x. GetPtr x (Uint64 outOffset) (Uint64 outSize)) (\<lambda>dst.
             write_mem (\<lambda>x. Ret (copy_ptr x dst (take (unat (n :: u64)) ret))) k)
      else k)"

definition do_call ::
  "handler \<Rightarrow> byte \<Rightarrow> word256 \<Rightarrow> Address \<Rightarrow> u64 \<Rightarrow> bytes \<Rightarrow> word256 \<Rightarrow> word256 \<Rightarrow> act" where
  "do_call H op gasArg addr val input outOffset outSize m =
     (let fwd = forward_gas gasArg (Gas (fr m));
          stipend = (if val > 0 then gas_CallStipend else 0);
          m1 = use_gas fwd m;
          forwardGas = fwd + stipend
      in go_bind (h_Call H (evm m1) (fr m1) (call_type op) addr val forwardGas input)
           (\<lambda>(e, ret, gasLeft, callErr).
             let gl = (if gasLeft > forwardGas - stipend then forwardGas - stipend else gasLeft);
                 m2 = upd_fr (\<lambda>f. f\<lparr>Gas := Gas f + gl, ReturnData := ret\<rparr>) (m1\<lparr>evm := e\<rparr>)
             in copy_output outOffset outSize ret
                  (\<lambda>m3. push_and_return
                     (PushRaw (Stk (fr m3)) (case callErr of Some _ \<Rightarrow> 0 | None \<Rightarrow> 1)) m3) m2))"

definition exec_call_args ::
  "lib \<Rightarrow> handler \<Rightarrow> byte \<Rightarrow> word256 \<Rightarrow> Address \<Rightarrow> u64 \<Rightarrow> act" where
  "exec_call_args L H op gasArg addr val =
     pop_or_return (\<lambda>inOffset. pop_or_return (\<lambda>inSize.
     pop_or_return (\<lambda>outOffset. pop_or_return (\<lambda>outSize.
       or_return (expandMem (Uint64 inOffset) (Uint64 inSize))
       (or_return (expandMem (Uint64 outOffset) (Uint64 outSize))
       (charge_access addr
       (if_act (val > 0) (charge_value L addr)
       (with_mem (\<lambda>x. if Uint64 inSize > 0 then GetCopy x (Uint64 inOffset) (Uint64 inSize) else Ret [])
         (\<lambda>input. do_call H op gasArg addr val input outOffset outSize)))))))))"

definition execCall :: "lib \<Rightarrow> handler \<Rightarrow> byte \<Rightarrow> act" where
  "execCall L H op m =
     (if Depth (fr m) \<ge> MaxCallDepth then push_and_return (PushRaw (Stk (fr m)) 0) m
      else pop_or_return (\<lambda>gasArg. pop_or_return (\<lambda>addrWord.
        if op = op_CALL \<or> op = op_CALLCODE
        then pop_or_return (\<lambda>valueWord.
          exec_call_args L H op gasArg (WordToAddress addrWord) (Uint64 valueWord))
        else exec_call_args L H op gasArg (WordToAddress addrWord) 0)) m)"

definition do_create :: "handler \<Rightarrow> u64 \<Rightarrow> bytes \<Rightarrow> bytes option \<Rightarrow> act" where
  "do_create H val initCode salt m =
     (let m1 = use_gas (CallGas (Gas (fr m))) m
      in go_bind (h_Create H (evm m1) (fr m1) val initCode salt)
           (\<lambda>(e, addr, gasLeft, createErr).
             let m2 = upd_fr (\<lambda>f. f\<lparr>Gas := Gas f + gasLeft\<rparr>) (m1\<lparr>evm := e\<rparr>)
             in push_and_return
                  (case createErr of Some _ \<Rightarrow> PushRaw (Stk (fr m2)) 0
                   | None \<Rightarrow> Push (Stk (fr m2)) (AddressToWord addr)) m2))"

definition create_code :: "handler \<Rightarrow> word256 \<Rightarrow> word256 \<Rightarrow> word256 \<Rightarrow> bytes option \<Rightarrow> act" where
  "create_code H valueWord offset sz salt =
     or_return (expandMem (Uint64 offset) (Uint64 sz))
       (with_mem (\<lambda>x. GetCopy x (Uint64 offset) (Uint64 sz))
         (\<lambda>initCode. do_create H (Uint64 valueWord) initCode salt))"

definition execCreate :: "handler \<Rightarrow> byte \<Rightarrow> act" where
  "execCreate H op m =
     (if Static (fr m) then return_err ErrWriteProtection m
      else if Depth (fr m) \<ge> MaxCallDepth then push_and_return (PushRaw (Stk (fr m)) 0) m
      else pop_or_return (\<lambda>valueWord. pop_or_return (\<lambda>offset. pop_or_return (\<lambda>sz.
        if op = op_CREATE2
        then pop_or_return (\<lambda>saltWord.
          create_code H valueWord offset sz (Some (Bytes32 saltWord)))
        else create_code H valueWord offset sz None))) m)"

section \<open>The switch of Run\<close>

text \<open>
  A row \<open>(op, g, k)\<close> is a case \<open>if f.Gas < g { return ExecResult{Err: ErrOutOfGas} }; f.Gas -= g;
  err = k(f)\<close> of the switch.
\<close>

type_synonym op_row = "byte \<times> u64 \<times> op"

definition arith_ops :: "lib \<Rightarrow> op_row list" where
  "arith_ops L =
     [(op_ADD, gas_VeryLow, opAdd L),
      (op_MUL, gas_Low, opMul L),
      (op_SUB, gas_VeryLow, opSub L),
      (op_DIV, gas_Low, opDiv L),
      (op_SDIV, gas_Low, opSDiv L),
      (op_MOD, gas_Low, opMod L),
      (op_SMOD, gas_Low, opSMod L),
      (op_ADDMOD, gas_Mid, opAddMod L),
      (op_MULMOD, gas_Mid, opMulMod L),
      (op_SIGNEXTEND, gas_Low, opSignExtend L),
      (op_LT, gas_VeryLow, opLt L),
      (op_GT, gas_VeryLow, opGt L),
      (op_SLT, gas_VeryLow, opSlt L),
      (op_SGT, gas_VeryLow, opSgt L),
      (op_EQ, gas_VeryLow, opEq),
      (op_ISZERO, gas_VeryLow, opIsZero),
      (op_AND, gas_VeryLow, opAnd L),
      (op_OR, gas_VeryLow, opOr L),
      (op_XOR, gas_VeryLow, opXor L),
      (op_NOT, gas_VeryLow, opNot L),
      (op_BYTE, gas_VeryLow, opByte),
      (op_SHL, gas_VeryLow, opShl L),
      (op_SHR, gas_VeryLow, opShr L),
      (op_SAR, gas_VeryLow, opSar L)]"

definition env_ops :: "lib \<Rightarrow> op_row list" where
  "env_ops L =
     [(op_ADDRESS, gas_Base, opAddress),
      (op_ORIGIN, gas_Base, opOrigin),
      (op_CALLER, gas_Base, opCaller),
      (op_CALLVALUE, gas_Base, opCallValue),
      (op_CALLDATALOAD, gas_VeryLow, opCalldataLoad),
      (op_CALLDATASIZE, gas_Base, opCalldataSize),
      (op_CODESIZE, gas_Base, opCodeSize),
      (op_GASPRICE, gas_Base, opGasPrice),
      (op_RETURNDATASIZE, gas_Base, opReturnDataSize),
      (op_BLOCKHASH, gas_BlockHash, opBlockHash),
      (op_COINBASE, gas_Base, opCoinbase),
      (op_TIMESTAMP, gas_Base, opTimestamp),
      (op_NUMBER, gas_Base, opNumber),
      (op_DIFFICULTY, gas_Base, opDifficulty),
      (op_GASLIMIT, gas_Base, opGasLimit),
      (op_CHAINID, gas_Base, opChainID),
      (op_SELFBALANCE, gas_Base, opSelfBalance L),
      (op_BASEFEE, gas_Base, opBaseFee)]"

definition mem_ops :: "op_row list" where
  "mem_ops =
     [(op_POP, gas_Base, opPop),
      (op_JUMP, gas_Mid, opJump),
      (op_JUMPI, gas_High, opJumpi),
      (op_PC, gas_Base, opPC),
      (op_MSIZE, gas_Base, opMsize),
      (op_GAS, gas_Base, opGas),
      (op_JUMPDEST, gas_JumpDest, op_ok)]"

text \<open>The cases with a cost that depends on the operands.\<close>

definition run_EXP :: "lib \<Rightarrow> act" where
  "run_EXP L = peek 1 (\<lambda>e.
     charge (gas_Exp + gas_ExpByte * of_nat ((u_bitlen L e + 7) div 8)) (fall (opExp L)))"

definition run_SHA3 :: "lib \<Rightarrow> act" where
  "run_SHA3 L = peek 0 (\<lambda>offset. peek 1 (\<lambda>size m.
     let off = Uint64 offset; sz = Uint64 size;
         memCost = (case ExpansionCost (Mem (fr m)) off sz of Inl e \<Rightarrow> 0 | Inr c \<Rightarrow> c);
         dynGas = gas_Sha3 + memCost + Sha3Words sz
     in charge dynGas (\<lambda>m1.
          go_bind (Expand (Mem (fr m1)) off sz (Gas (fr m1))) (\<lambda>r.
            fall (opSha3 L)
              (case r of Inl e \<Rightarrow> m1
               | Inr (x, g) \<Rightarrow> upd_fr (\<lambda>f. f\<lparr>Mem := x, Gas := g\<rparr>) m1))) m))"

definition run_ext :: "op \<Rightarrow> act" where
  "run_ext k = peek 0 (\<lambda>w. fall (op_then (chargeExtAccess (WordToAddress w)) k))"

definition run_mem :: "u64 \<Rightarrow> op \<Rightarrow> act" where
  "run_mem n k = charge gas_VeryLow (peek 0 (\<lambda>off.
     fall (op_then (expandMem (Uint64 off) n) k)))"

definition run_SLOAD :: "lib \<Rightarrow> act" where
  "run_SLOAD L = peek 0 (\<lambda>w m.
     let slot = Bytes32 w; self = Contract (fr m) in
     if \<not> db_SlotWarm (db_of m) self slot
     then charge gas_ColdSload (write_db (\<lambda>d. db_WarmSlot d self slot) (fall (opSload L))) m
     else charge gas_WarmStorageRead (fall (opSload L)) m)"

text \<open>The charges of SSTORE after its guards: the cold access, then the cost of the transition.\<close>

definition sstore_charges :: "lib \<Rightarrow> Hash \<Rightarrow> Hash \<Rightarrow> Hash \<Rightarrow> Hash \<Rightarrow> act" where
  "sstore_charges L slot current original newVal m =
     (let self = Contract (fr m);
          rest = (case SstoreCost current original newVal True of (cost, refund) \<Rightarrow>
                    charge cost (write_db (\<lambda>d. db_AddRefund d refund) (fall (opSstore L))))
      in if \<not> db_SlotWarm (db_of m) self slot
         then charge gas_ColdSload (write_db (\<lambda>d. db_WarmSlot d self slot) rest) m
         else rest m)"

definition run_SSTORE :: "lib \<Rightarrow> act" where
  "run_SSTORE L m =
     (if Static (fr m) then return_err ErrWriteProtection m
      else if Gas (fr m) \<le> 2300 then return_err ErrOutOfGas m
      else peek 0 (\<lambda>w0. peek 1 (\<lambda>w1 m.
        let slot = Bytes32 w0; newVal = Bytes32 w1; self = Contract (fr m) in
        read_db_go (\<lambda>d. db_GetStorage L d self slot) (\<lambda>current.
        read_db_go (\<lambda>d. db_GetCommittedStorage L d self slot) (\<lambda>original.
          sstore_charges L slot current original newVal)) m)) m)"

text \<open>RETURN and REVERT.\<close>

definition run_halt :: "error option \<Rightarrow> act" where
  "run_halt err = peek 0 (\<lambda>offset. peek 1 (\<lambda>size.
     or_return (if Uint64 size > 0 then expandMem (Uint64 offset) (Uint64 size) else op_ok)
       (drop_top (drop_top
         (with_mem (\<lambda>x. GetCopy x (Uint64 offset) (Uint64 size)) (\<lambda>dat m.
           Ret (m, Done \<lparr>r_ReturnData = dat, r_GasLeft = Gas (fr m), r_Err = err\<rparr>)))))))"

definition move_balance :: "lib \<Rightarrow> Address \<Rightarrow> act \<Rightarrow> act" where
  "move_balance L benAddr k m =
     (let self = Contract (fr m) in
      read_db (\<lambda>d. db_GetBalance L d self) (\<lambda>bal.
        if bal \<noteq> 0
        then write_db (\<lambda>d. db_AddBalance L d benAddr bal) (write_db (\<lambda>d. db_SubBalance L d self bal) k)
        else k) m)"

definition run_SELFDESTRUCT :: "lib \<Rightarrow> act" where
  "run_SELFDESTRUCT L m =
     (if Static (fr m) then return_err ErrWriteProtection m
      else charge gas_SelfDestruct (pop_or_return (\<lambda>ben m1.
        let benAddr = WordToAddress ben; self = Contract (fr m1) in
        if_act (\<not> db_AddressWarm (db_of m1) benAddr) (charge gas_ColdAccountAccess)
          (read_db (\<lambda>d. db_Exists L d benAddr) (\<lambda>ex.
             if_act (\<not> ex) (charge gas_SelfDestructNewAccount)
               (move_balance L benAddr (\<lambda>m2.
                  if db_CreatedInTx (db_of m2) self
                  then write_db (\<lambda>d. db_Suicide d self) return_ok m2
                  else return_ok m2)))) m1)) m)"

text \<open>\<open>if r.Err != nil && r.Err != ErrRevert { return r }; err = r.Err\<close> after a call or a create.\<close>

definition resume :: "act \<Rightarrow> act" where
  "resume k m = go_bind (k m) (\<lambda>(m', out).
     case out of
       Next e \<Rightarrow> Ret (m', Next e)
     | Done r \<Rightarrow>
         if r_Err r \<noteq> None \<and> r_Err r \<noteq> Some ErrRevert then Ret (m', Done r)
         else Ret (m', Next (r_Err r)))"

definition exec_special :: "lib \<Rightarrow> byte \<Rightarrow> act" where
  "exec_special L op =
     (if op = op_EXP then run_EXP L
      else if op = op_SHA3 then run_SHA3 L
      else if op = op_BALANCE then run_ext (opBalance L)
      else if op = op_CALLDATACOPY then fall (memCopyOp opCalldataCopy)
      else if op = op_CODECOPY then fall (memCopyOp opCodeCopy)
      else if op = op_EXTCODESIZE then run_ext (opExtCodeSize L)
      else if op = op_EXTCODECOPY then run_ext (memCopyOp (opExtCodeCopy L))
      else if op = op_RETURNDATACOPY then fall (memCopyOp opReturnDataCopy)
      else if op = op_EXTCODEHASH then run_ext (opExtCodeHash L)
      else if op = op_MLOAD then run_mem 32 opMload
      else if op = op_MSTORE then run_mem 32 opMstore
      else if op = op_MSTORE8 then run_mem 1 opMstore8
      else if op = op_SLOAD then run_SLOAD L
      else if op = op_SSTORE then run_SSTORE L
      else return_err ErrInvalidOpcode)"

definition exec_control :: "lib \<Rightarrow> handler \<Rightarrow> byte \<Rightarrow> act" where
  "exec_control L H op =
     (if op = op_STOP then return_ok
      else if op_PUSH1 \<le> op \<and> op \<le> op_PUSH32
      then charge gas_VeryLow (fall (opPush (unat (op - op_PUSH1) + 1)))
      else if op_DUP1 \<le> op \<and> op \<le> op_DUP16
      then charge gas_VeryLow (fall (opDup (uint (op - op_DUP1) + 1)))
      else if op_SWAP1 \<le> op \<and> op \<le> op_SWAP16
      then charge gas_VeryLow (fall (opSwap (uint (op - op_SWAP1) + 1)))
      else if op_LOG0 \<le> op \<and> op \<le> op_LOG4 then fall (logOp (unat (op - op_LOG0)))
      else if op = op_RETURN then run_halt None
      else if op = op_REVERT then run_halt (Some ErrRevert)
      else if op = op_INVALID then return_err ErrInvalidOpcode
      else if op = op_SELFDESTRUCT then run_SELFDESTRUCT L
      else if op = op_CALL \<or> op = op_CALLCODE \<or> op = op_DELEGATECALL \<or> op = op_STATICCALL
      then resume (execCall L H op)
      else if op = op_CREATE \<or> op = op_CREATE2 then resume (execCreate H op)
      else exec_special L op)"

definition exec_op :: "lib \<Rightarrow> handler \<Rightarrow> byte \<Rightarrow> act" where
  "exec_op L H op =
     (case map_of (arith_ops L @ env_ops L @ mem_ops) op of
        Some (g, k) \<Rightarrow> charge g (fall k)
      | None \<Rightarrow> exec_control L H op)"

section \<open>The loop of Run\<close>

definition capture :: "byte \<Rightarrow> u64 \<Rightarrow> error option \<Rightarrow> machine \<Rightarrow> machine" where
  "capture op gasBefore err m =
     (let f = fr m in
      if f_Tracer f
      then m\<lparr>evm := (evm m)\<lparr>e_captures := e_captures (evm m) @
        [\<lparr>cap_pc = PC f - 1, cap_op = op, cap_gasBefore = gasBefore, cap_gasAfter = Gas f,
          cap_depth = Depth f, cap_stack = Stack_Data (Stk f), cap_stackLen = Stack_Len (Stk f),
          cap_err = err\<rparr>]\<rparr>\<rparr>
      else m)"

text \<open>What follows the switch: the opcode tracer, and the return when there is an error.\<close>

fun after_switch :: "byte \<Rightarrow> u64 \<Rightarrow> outcome \<Rightarrow> machine \<Rightarrow> machine \<times> ExecResult option" where
  "after_switch op gasBefore (Done r) m = (m, Some r)"
| "after_switch op gasBefore (Next err) m =
     (let m' = capture op gasBefore err m in
      (m', case err of
         None \<Rightarrow> None
       | Some e \<Rightarrow> Some (if e = ErrRevert
           then \<lparr>r_ReturnData = [], r_GasLeft = Gas (fr m'), r_Err = Some ErrRevert\<rparr>
           else fail_result e)))"

text \<open>One pass through the loop: a result when \<open>Run\<close> returns.\<close>

definition step :: "lib \<Rightarrow> handler \<Rightarrow> machine \<Rightarrow> (machine \<times> ExecResult option) go" where
  "step L H m =
     (let f = fr m in
      if unat (PC f) \<ge> length (Code f) then Ret (m, Some (ok_result (Gas f)))
      else
        let op = Code f ! unat (PC f) in
        go_bind (exec_op L H op (upd_fr (\<lambda>f. f\<lparr>PC := PC f + 1\<rparr>) m)) (\<lambda>(m', out).
          Ret (after_switch op (Gas f) out m')))"

fun run_loop :: "lib \<Rightarrow> handler \<Rightarrow> nat \<Rightarrow> machine \<Rightarrow> (machine \<times> ExecResult) go" where
  "run_loop L H 0 m = NoFuel"
| "run_loop L H (Suc n) m = go_bind (step L H m) (\<lambda>(m', r).
     case r of Some res \<Rightarrow> Ret (m', res) | None \<Rightarrow> run_loop L H n m')"

definition load_jumpdests :: "lib \<Rightarrow> machine \<Rightarrow> machine" where
  "load_jumpdests L m =
     (let key = codeID L (Code (fr m)) in
      case e_jumpdestCache (evm m) key of
        Some v \<Rightarrow> upd_fr (\<lambda>f. f\<lparr>jumpdests := v\<rparr>) m
      | None \<Rightarrow>
          let bv = buildJumpdests (Code (fr m)) in
          upd_fr (\<lambda>f. f\<lparr>jumpdests := bv\<rparr>)
            (m\<lparr>evm := (evm m)\<lparr>e_jumpdestCache := (e_jumpdestCache (evm m))(key \<mapsto> bv)\<rparr>\<rparr>))"

definition Run :: "lib \<Rightarrow> handler \<Rightarrow> nat \<Rightarrow> machine \<Rightarrow> (machine \<times> ExecResult) go" where
  "Run L H fuel m = run_loop L H fuel (load_jumpdests L m)"

end
