(* ===== verification/Steps.thy ===== *)
theory Steps
  imports Interp
begin

text \<open>
  What every step of the interpreter keeps, proved once for every relation \<open>ER\<close> between EVMs that
  covers the effects of the database methods.  \<open>ER False\<close> relates an EVM to what any instruction may
  make of it, \<open>ER True\<close> to what a reading instruction may.  The locale \<open>evm_effects\<close> states which
  effects \<open>ER\<close> must admit, \<open>call_handler\<close> adds the laws of the handler that performs calls and creates.
  \<open>keeps\<close> is the invariant of one piece of code: the effects are admitted, the gas does not grow, the
  frame stays well formed and keeps its code and environment, and where \<open>p\<close> is set the program
  counter stays as well.
\<close>

named_theorems keeps_intros

definition same_env :: "Frame \<Rightarrow> Frame \<Rightarrow> bool" where
  "same_env f f' \<longleftrightarrow>
     Code f' = Code f \<and> Input f' = Input f \<and> Contract f' = Contract f \<and> Caller f' = Caller f
     \<and> Static f' = Static f \<and> Depth f' = Depth f \<and> f_Value f' = f_Value f \<and> f_Tracer f' = f_Tracer f
     \<and> jumpdests f' = jumpdests f"

lemma same_env_refl [simp]: "same_env f f"
  by (simp add: same_env_def)

lemma same_env_trans: "same_env f g \<Longrightarrow> same_env g h \<Longrightarrow> same_env f h"
  by (simp add: same_env_def)

type_synonym effect = "bool \<Rightarrow> EVM \<Rightarrow> EVM \<Rightarrow> bool"

definition sane :: "effect \<Rightarrow> bool \<Rightarrow> bool \<Rightarrow> machine \<Rightarrow> machine \<Rightarrow> bool" where
  "sane ER b p m m' \<longleftrightarrow>
     ER b (evm m) (evm m') \<and> Gas (fr m') \<le> Gas (fr m)
     \<and> (frame_ok (fr m) \<longrightarrow> frame_ok (fr m')) \<and> same_env (fr m) (fr m')
     \<and> (p \<longrightarrow> PC (fr m') = PC (fr m))"

text \<open>
  \<open>s\<close> is the static flag of the frame, \<open>b\<close> the kind of effects admitted, \<open>P\<close> what holds of the final
  machine and the result.
\<close>

definition keeps ::
  "effect \<Rightarrow> bool \<Rightarrow> bool \<Rightarrow> bool \<Rightarrow> (machine \<Rightarrow> 'a \<Rightarrow> bool) \<Rightarrow> (machine \<Rightarrow> (machine \<times> 'a) go) \<Rightarrow> bool" where
  "keeps ER s b p P k \<longleftrightarrow>
     (\<forall>m. Static (fr m) = s \<longrightarrow> go_all (\<lambda>(m', x). sane ER b p m m' \<and> P m' x) (k m))"

text \<open>A returned result hands back at most the gas of the frame, and data that was allocated.\<close>

fun outcome_ok :: "machine \<Rightarrow> outcome \<Rightarrow> bool" where
  "outcome_ok m (Next e) = True"
| "outcome_ok m (Done r) = (r_GasLeft r \<le> Gas (fr m) \<and> length (r_ReturnData r) \<le> maxAlloc)"

abbreviation any :: "machine \<Rightarrow> 'a \<Rightarrow> bool" where
  "any \<equiv> (\<lambda>_ _. True)"

section \<open>The laws\<close>

locale evm_effects =
  fixes L :: lib and ER :: effect
  assumes refl: "ER b e e"
    and trans: "ER b e e2 \<Longrightarrow> ER b e2 e3 \<Longrightarrow> ER b e e3"
    and weaken: "ER True e e2 \<Longrightarrow> ER False e e2"
    and captures: "ER b e (e\<lparr>e_captures := cs\<rparr>)"
    and get_balance: "ER b e (e\<lparr>e_db := snd (db_GetBalance L (e_db e) a)\<rparr>)"
    and get_code: "ER b e (e\<lparr>e_db := snd (db_GetCode L (e_db e) a)\<rparr>)"
    and get_code_hash: "ER b e (e\<lparr>e_db := snd (db_GetCodeHash L (e_db e) a)\<rparr>)"
    and exists: "ER b e (e\<lparr>e_db := snd (db_Exists L (e_db e) a)\<rparr>)"
    and empty: "ER b e (e\<lparr>e_db := snd (db_Empty L (e_db e) a)\<rparr>)"
    and get_storage: "db_GetStorage L (e_db e) a k = Ret (v, d) \<Longrightarrow> ER b e (e\<lparr>e_db := d\<rparr>)"
    and get_committed: "db_GetCommittedStorage L (e_db e) a k = Ret (v, d) \<Longrightarrow> ER b e (e\<lparr>e_db := d\<rparr>)"
    and warm_address: "ER b e (e\<lparr>e_db := db_WarmAddress (e_db e) a\<rparr>)"
    and warm_slot: "ER b e (e\<lparr>e_db := db_WarmSlot (e_db e) a k\<rparr>)"
    and set_storage: "ER False e (e\<lparr>e_db := db_SetStorage L (e_db e) a k v'\<rparr>)"
    and add_balance: "ER False e (e\<lparr>e_db := db_AddBalance L (e_db e) a w\<rparr>)"
    and sub_balance: "ER False e (e\<lparr>e_db := db_SubBalance L (e_db e) a w\<rparr>)"
    and add_log: "ER False e (e\<lparr>e_db := db_AddLog (e_db e) l\<rparr>)"
    and add_refund: "ER False e (e\<lparr>e_db := db_AddRefund (e_db e) g\<rparr>)"
    and suicide: "ER False e (e\<lparr>e_db := db_Suicide (e_db e) a\<rparr>)"
begin

lemma sane_refl [simp]: "sane ER b p m m"
  by (simp add: sane_def refl)

lemma sane_trans: "sane ER b p l m \<Longrightarrow> sane ER b p m n \<Longrightarrow> sane ER b p l n"
  by (auto simp: sane_def intro: trans same_env_trans order_trans)

lemma sane_db:
  "ER b (evm m) ((evm m)\<lparr>e_db := d\<rparr>) \<Longrightarrow> sane ER b p m (set_db d m)"
  by (simp add: sane_def)

lemma sane_stack:
  "(stack_ok (Stk (fr m)) \<Longrightarrow> stack_ok s) \<Longrightarrow> sane ER b p m (set_stack s m)"
  by (simp add: sane_def set_stack_def refl same_env_def frame_ok_def)

lemma sane_mem:
  "(mem_ok (Mem (fr m)) \<Longrightarrow> mem_ok x) \<Longrightarrow> sane ER b p m (set_mem x m)"
  by (simp add: sane_def set_mem_def refl same_env_def frame_ok_def)

lemma sane_use_gas: "\<not> Gas (fr m) < g \<Longrightarrow> sane ER b p m (use_gas g m)"
  by (simp add: sane_def use_gas_def refl same_env_def frame_ok_def not_less word_sub_le)

text \<open>Going on after a sane step.\<close>

lemma keeps_after:
  assumes "sane ER b p m m1" and "Static (fr m) = s" and "keeps ER s b p P k"
  shows "go_all (\<lambda>(m', x). sane ER b p m m' \<and> P m' x) (k m1)"
proof -
  have "Static (fr m1) = s" using assms(1,2) by (simp add: sane_def same_env_def)
  then have "go_all (\<lambda>(m', x). sane ER b p m1 m' \<and> P m' x) (k m1)"
    using assms(3) by (simp add: keeps_def)
  then show ?thesis
    by (rule go_all_mono) (auto intro: sane_trans [OF assms(1)])
qed

lemma keepsI:
  "(\<And>m. Static (fr m) = s \<Longrightarrow> go_all (\<lambda>(m', x). sane ER b p m m' \<and> P m' x) (k m)) \<Longrightarrow> keeps ER s b p P k"
  by (simp add: keeps_def)

lemma keepsD:
  "keeps ER s b p P k \<Longrightarrow> Static (fr m) = s \<Longrightarrow> go_all (\<lambda>(m', x). sane ER b p m m' \<and> P m' x) (k m)"
  by (simp add: keeps_def)

text \<open>A piece of code that looks at the machine it starts from.\<close>

lemma keeps_at:
  "(\<And>m. Static (fr m) = s \<Longrightarrow> keeps ER s b p P (k m)) \<Longrightarrow> keeps ER s b p P (\<lambda>m. k m m)"
  by (simp add: keeps_def)

lemma keeps_if [keeps_intros]:
  "(c \<Longrightarrow> keeps ER s b p P k) \<Longrightarrow> (\<not> c \<Longrightarrow> keeps ER s b p P l) \<Longrightarrow> keeps ER s b p P (if c then k else l)"
  by simp

lemma keeps_if_at:
  assumes "\<And>m. Static (fr m) = s \<Longrightarrow> c m \<Longrightarrow> go_all (\<lambda>(m', x). sane ER b p m m' \<and> P m' x) (k m)"
    and "\<And>m. Static (fr m) = s \<Longrightarrow> \<not> c m \<Longrightarrow> go_all (\<lambda>(m', x). sane ER b p m m' \<and> P m' x) (l m)"
  shows "keeps ER s b p P (\<lambda>m. if c m then k m else l m)"
  using assms by (simp add: keeps_def)

lemma keeps_weaken_pc: "keeps ER s b True P k \<Longrightarrow> keeps ER s b p P k"
  by (auto simp: keeps_def sane_def elim!: go_all_mono)

lemma keeps_weaken_effect: "keeps ER s True p P k \<Longrightarrow> keeps ER s b p P k"
  by (cases b) (auto simp: keeps_def sane_def intro: weaken elim!: go_all_mono)

section \<open>The building blocks\<close>

lemma keeps_op_ok [keeps_intros]: "keeps ER s b p any op_ok"
  by (simp add: keeps_def op_ok_def)

lemma keeps_op_fail [keeps_intros]: "keeps ER s b p any (op_fail e)"
  by (simp add: keeps_def op_fail_def)

lemma keeps_pop [keeps_intros]:
  assumes "\<And>v. keeps ER s b p any (k v)"
  shows "keeps ER s b p any (pop k)"
proof (rule keepsI)
  fix m :: machine assume s: "Static (fr m) = s"
  have "go_all (\<lambda>(m', x). sane ER b p m m' \<and> True) (k v (set_stack s' m))"
    if "Pop (Stk (fr m)) = Ret (Inr (v, s'))" for v s'
    by (rule keeps_after [OF sane_stack s assms]) (use stack_ok_PopE that in blast)
  then show "go_all (\<lambda>(m', x). sane ER b p m m' \<and> True) (pop k m)"
    by (cases "Pop (Stk (fr m))") (simp_all add: pop_def op_fail_def split: sum.split prod.split)
qed

lemma keeps_peek [keeps_intros]:
  assumes "\<And>v. keeps ER s b p P (k v)"
  shows "keeps ER s b p P (peek n k)"
  using assms by (auto simp: keeps_def peek_def go_all_iff go_bind_Ret_iff)

lemma keeps_poke [keeps_intros]:
  assumes "keeps ER s b p any k"
  shows "keeps ER s b p any (poke n v k)"
proof (rule keepsI)
  fix m :: machine assume s: "Static (fr m) = s"
  have "go_all (\<lambda>(m', x). sane ER b p m m' \<and> True) (k (set_stack s' m))"
    if "SetBack (Stk (fr m)) n v = Ret s'" for s'
    by (rule keeps_after [OF sane_stack s assms]) (use stack_ok_SetBackE that in blast)
  then show "go_all (\<lambda>(m', x). sane ER b p m m' \<and> True) (poke n v k m)"
    by (cases "SetBack (Stk (fr m)) n v") (simp_all add: poke_def)
qed

lemma stack_results_ok:
  assumes "stack_ok s"
  shows "Push s v = Ret (Inr s') \<Longrightarrow> stack_ok s'" "PushRaw s w = Ret (Inr s') \<Longrightarrow> stack_ok s'"
    "DupN s n = Ret (Inr s') \<Longrightarrow> stack_ok s'" "SwapN s n = Ret (Inr s') \<Longrightarrow> stack_ok s'"
  using assms
  by (auto simp: PushRaw_Push Push_eq DupN_def SwapN_def data_at_def data_set_def stack_ok_def
      split: if_splits)

lemma keeps_push_result:
  assumes "\<And>m s'. stack_ok (Stk (fr m)) \<Longrightarrow> r m = Ret (Inr s') \<Longrightarrow> stack_ok s'"
  shows "keeps ER s b p any (\<lambda>m. push_result (r m) m)"
proof (rule keepsI)
  fix m :: machine
  show "go_all (\<lambda>(m', x). sane ER b p m m' \<and> True) (push_result (r m) m)"
    using assms [of m]
    by (cases "r m") (auto simp: push_result_def op_fail_def op_ok_def intro: sane_stack split: sum.splits)
qed

lemma keeps_pushes [keeps_intros]:
  "keeps ER s b p any (push v)" "keeps ER s b p any (push_raw w)"
  "keeps ER s b p any (opDup i)" "keeps ER s b p any (opSwap i)"
  unfolding push_def [abs_def] push_raw_def [abs_def] opDup_def [abs_def] opSwap_def [abs_def]
  by (rule keeps_push_result, rule stack_results_ok, assumption+)+

lemma keeps_with_mem [keeps_intros]:
  assumes "\<And>x. keeps ER s b p P (k x)"
  shows "keeps ER s b p P (with_mem g k)"
  using assms by (auto simp: keeps_def with_mem_def go_all_iff go_bind_Ret_iff)

lemma keeps_write_mem:
  assumes "\<And>x x'. mem_ok x \<Longrightarrow> g x = Ret x' \<Longrightarrow> mem_ok x'" and "keeps ER s b p P k"
  shows "keeps ER s b p P (write_mem g k)"
proof (rule keepsI)
  fix m :: machine assume s: "Static (fr m) = s"
  have "go_all (\<lambda>(m', x). sane ER b p m m' \<and> P m' x) (k (set_mem x' m))"
    if "g (Mem (fr m)) = Ret x'" for x'
    by (rule keeps_after [OF sane_mem s assms(2)]) (use assms(1) that in blast)
  then show "go_all (\<lambda>(m', x). sane ER b p m m' \<and> P m' x) (write_mem g k m)"
    by (cases "g (Mem (fr m))") (simp_all add: write_mem_def)
qed

lemma keeps_mem_writes [keeps_intros]:
  assumes "keeps ER s b p P k"
  shows "keeps ER s b p P (write_mem (\<lambda>x. Ret (zero_ptr x dst)) k)"
    "keeps ER s b p P (write_mem (\<lambda>x. Ret (copy_ptr x dst dat)) k)"
    "keeps ER s b p P (write_mem (\<lambda>x. Set32 x off val) k)"
    "keeps ER s b p P (write_mem (\<lambda>x. SetByte x off v8) k)"
  by (rule keeps_write_mem [OF _ assms];
      auto simp: zero_ptr_def copy_ptr_def Set32_def SetByte_def split: if_splits)+

lemma keeps_read_db:
  assumes "\<And>e. ER b e (e\<lparr>e_db := snd (g (e_db e))\<rparr>)" and "\<And>x. keeps ER s b p P (k x)"
  shows "keeps ER s b p P (read_db g k)"
proof (rule keepsI)
  fix m :: machine assume s: "Static (fr m) = s"
  have "sane ER b p m (set_db (snd (g (db_of m))) m)" using assms(1) by (rule sane_db)
  from keeps_after [OF this s assms(2)]
  show "go_all (\<lambda>(m', x). sane ER b p m m' \<and> P m' x) (read_db g k m)"
    by (simp add: read_db_def case_prod_beta)
qed

lemmas keeps_reads [keeps_intros] =
  keeps_read_db [OF get_balance] keeps_read_db [OF get_code] keeps_read_db [OF get_code_hash]
  keeps_read_db [OF exists] keeps_read_db [OF empty]

lemma keeps_read_db_go:
  assumes "\<And>e v d. g (e_db e) = Ret (v, d) \<Longrightarrow> ER b e (e\<lparr>e_db := d\<rparr>)"
    and "\<And>x. keeps ER s b p P (k x)"
  shows "keeps ER s b p P (read_db_go g k)"
proof (rule keepsI)
  fix m :: machine assume s: "Static (fr m) = s"
  show "go_all (\<lambda>(m', x). sane ER b p m m' \<and> P m' x) (read_db_go g k m)"
  proof (cases "g (db_of m)")
    case (Ret x)
    obtain v d where x: "x = (v, d)" by force
    have "sane ER b p m (set_db d m)" using assms(1) Ret x by (intro sane_db) blast
    from keeps_after [OF this s assms(2)] Ret x show ?thesis by (simp add: read_db_go_def)
  qed (simp_all add: read_db_go_def)
qed

lemmas keeps_storage_reads [keeps_intros] =
  keeps_read_db_go [OF get_storage] keeps_read_db_go [OF get_committed]

lemma keeps_write_db:
  assumes "\<And>e. ER b e (e\<lparr>e_db := g (e_db e)\<rparr>)" and "keeps ER s b p P k"
  shows "keeps ER s b p P (write_db g k)"
proof (rule keepsI)
  fix m :: machine assume s: "Static (fr m) = s"
  have "sane ER b p m (set_db (g (db_of m)) m)" using assms(1) by (rule sane_db)
  from keeps_after [OF this s assms(2)]
  show "go_all (\<lambda>(m', x). sane ER b p m m' \<and> P m' x) (write_db g k m)"
    by (simp add: write_db_def)
qed

lemmas keeps_warm [keeps_intros] =
  keeps_write_db [OF warm_address] keeps_write_db [OF warm_slot]

lemmas keeps_writes [keeps_intros] =
  keeps_write_db [OF set_storage] keeps_write_db [OF add_balance] keeps_write_db [OF sub_balance]
  keeps_write_db [OF add_log] keeps_write_db [OF add_refund] keeps_write_db [OF suicide]

lemma keeps_set_pc [keeps_intros]:
  assumes "keeps ER s b False P k"
  shows "keeps ER s b False P (set_pc pc k)"
proof (rule keepsI)
  fix m :: machine assume s: "Static (fr m) = s"
  have "sane ER b False m (upd_fr (\<lambda>f. f\<lparr>PC := pc\<rparr>) m)"
    by (simp add: sane_def refl same_env_def frame_ok_def)
  from keeps_after [OF this s assms]
  show "go_all (\<lambda>(m', x). sane ER b False m m' \<and> P m' x) (set_pc pc k m)"
    by (simp add: set_pc_def)
qed

section \<open>The opcode functions\<close>

lemma keeps_copy_in [keeps_intros]: "keeps ER s b p any (copy_in dest off sz dat)"
  unfolding copy_in_def by (intro keeps_intros)

lemma keeps_arith [keeps_intros]:
  "keeps ER s b p any (opAdd L')" "keeps ER s b p any (opMul L')" "keeps ER s b p any (opSub L')"
  "keeps ER s b p any (opDiv L')" "keeps ER s b p any (opSDiv L')" "keeps ER s b p any (opMod L')"
  "keeps ER s b p any (opSMod L')" "keeps ER s b p any (opAddMod L')" "keeps ER s b p any (opMulMod L')"
  "keeps ER s b p any (opExp L')" "keeps ER s b p any (opSignExtend L')" "keeps ER s b p any (opNot L')"
  "keeps ER s b p any (opLt L')" "keeps ER s b p any (opGt L')" "keeps ER s b p any (opSlt L')"
  "keeps ER s b p any (opSgt L')" "keeps ER s b p any opEq" "keeps ER s b p any opIsZero"
  "keeps ER s b p any (opAnd L')" "keeps ER s b p any (opOr L')" "keeps ER s b p any (opXor L')"
  "keeps ER s b p any opByte" "keeps ER s b p any (opShl L')" "keeps ER s b p any (opShr L')"
  "keeps ER s b p any (opSar L')" "keeps ER s b p any (opSha3 L')"
  unfolding opAdd_def opMul_def opSub_def opDiv_def opSDiv_def opMod_def opSMod_def opAddMod_def
    opMulMod_def opExp_def opSignExtend_def opNot_def opLt_def opGt_def opSlt_def opSgt_def opEq_def
    opIsZero_def opAnd_def opOr_def opXor_def opByte_def opShl_def opShr_def opSar_def opSha3_def
  by (intro keeps_intros)+

lemma keeps_push_at [keeps_intros]:
  "keeps ER s b p any (\<lambda>m. push (v m) m)" "keeps ER s b p any (\<lambda>m. push_raw (w m) m)"
  unfolding push_def push_raw_def by (rule keeps_push_result, rule stack_results_ok, assumption+)+

lemma keeps_at_consts [keeps_intros]:
  "keeps ER s b p any (\<lambda>m. poke n (v m) op_ok m)"
  "keeps ER s b p any (\<lambda>m. copy_in dest off sz (dat m) m)"
  by (rule keeps_at, intro keeps_intros)+

lemma keeps_env [keeps_intros]:
  "keeps ER s b p any opAddress" "keeps ER s b p any (opBalance L)" "keeps ER s b p any opOrigin"
  "keeps ER s b p any opCaller" "keeps ER s b p any opCallValue" "keeps ER s b p any opCalldataLoad"
  "keeps ER s b p any opCalldataSize" "keeps ER s b p any opCodeSize" "keeps ER s b p any opGasPrice"
  "keeps ER s b p any (opExtCodeSize L)" "keeps ER s b p any opReturnDataSize"
  "keeps ER s b p any (opExtCodeHash L)" "keeps ER s b p any opBlockHash" "keeps ER s b p any opCoinbase"
  "keeps ER s b p any opTimestamp" "keeps ER s b p any opNumber" "keeps ER s b p any opDifficulty"
  "keeps ER s b p any opGasLimit" "keeps ER s b p any opChainID" "keeps ER s b p any opBaseFee"
  unfolding opAddress_def [abs_def] opBalance_def opOrigin_def [abs_def] opCaller_def [abs_def]
    opCallValue_def [abs_def] opCalldataLoad_def opCalldataSize_def [abs_def] opCodeSize_def [abs_def]
    opGasPrice_def [abs_def] opExtCodeSize_def opReturnDataSize_def [abs_def] opExtCodeHash_def
    opBlockHash_def opCoinbase_def [abs_def] opTimestamp_def [abs_def] opNumber_def [abs_def]
    opDifficulty_def [abs_def] opGasLimit_def [abs_def] opChainID_def [abs_def] opBaseFee_def [abs_def]
  by (intro keeps_intros)+

lemma keeps_opSelfBalance [keeps_intros]: "keeps ER s b p any (opSelfBalance L)"
  unfolding opSelfBalance_def [abs_def] by (rule keeps_at) (intro keeps_intros)

lemma keeps_opReturnDataCopy [keeps_intros]: "keeps ER s b p any opReturnDataCopy"
  unfolding opReturnDataCopy_def Let_def
  by (intro keeps_pop keeps_at [where k = "\<lambda>m. if _ m then _ m else if _ m then _ m else _ m"] keeps_if_at keepsD
    keeps_intros)

lemma keeps_copies [keeps_intros]:
  "keeps ER s b p any opCalldataCopy" "keeps ER s b p any opCodeCopy"
  "keeps ER s b p any (opExtCodeCopy L)"
  unfolding opCalldataCopy_def opCodeCopy_def opExtCodeCopy_def
  by (intro keeps_intros)+

lemma keeps_opSload [keeps_intros]: "keeps ER s b p any (opSload L)"
  unfolding opSload_def [abs_def] by (rule keeps_at) (intro keeps_intros)

lemma keeps_memory [keeps_intros]:
  "keeps ER s b p any opPop" "keeps ER s b p any opMload" "keeps ER s b p any opMstore"
  "keeps ER s b p any opMstore8" "keeps ER s b p any opPC"
  "keeps ER s b p any opMsize" "keeps ER s b p any opGas"
  unfolding opPop_def opMload_def opMstore_def opMstore8_def opPC_def [abs_def]
    opMsize_def [abs_def] opGas_def [abs_def]
  by (intro keeps_intros)+

end

end
