(* ===== verification/Switch.thy ===== *)
theory Switch
  imports Steps
begin

text \<open>
  The cases of \<open>Run\<close>'s switch keep what \<open>Steps\<close> states, under the same laws, and with the laws of a
  call handler so does the whole loop.  Reading instructions have reading effects only; storing ones
  refuse to run in a static frame.
\<close>

section \<open>Storing instructions and jumps\<close>

context evm_effects
begin

lemma keeps_static_guard:
  assumes "\<not> s \<Longrightarrow> keeps ER s b p P k" and "s \<Longrightarrow> keeps ER s b p P l"
  shows "keeps ER s b p P (\<lambda>m. if Static (fr m) then l m else k m)"
  using assms by (auto simp: keeps_def)

lemma keeps_pop_topics:
  "(\<And>ts. keeps ER s b p any (k ts)) \<Longrightarrow> keeps ER s b p any (pop_topics n ts k)"
  by (induction n arbitrary: ts) (auto intro: keeps_pop)

lemma keeps_opSstore:
  assumes "b \<Longrightarrow> s"
  shows "keeps ER s b p any (opSstore L)"
  unfolding opSstore_def [abs_def]
proof (rule keeps_static_guard)
  assume "\<not> s"
  with assms have b: "b = False" by blast
  show "keeps ER s b p any (\<lambda>m. pop (\<lambda>slot. pop (\<lambda>val.
      write_db (\<lambda>d. db_SetStorage L d (Contract (fr m)) (Bytes32 slot) (Bytes32 val)) op_ok)) m)"
    unfolding b by (rule keeps_at, intro keeps_pop keeps_writes keeps_op_ok)
qed (rule keeps_op_fail)

lemma keeps_opLog:
  assumes "b \<Longrightarrow> s"
  shows "keeps ER s b p any (opLog n)"
  unfolding opLog_def [abs_def]
proof (rule keeps_static_guard)
  assume "\<not> s"
  with assms have b: "b = False" by blast
  show "keeps ER s b p any (\<lambda>m. pop (\<lambda>offset. pop (\<lambda>sz. pop_topics n [] (\<lambda>topics.
        with_mem (\<lambda>x. GetCopy x (Uint64 offset) (Uint64 sz)) (\<lambda>dat.
          write_db (\<lambda>d. db_AddLog d \<lparr>log_Address = Contract (fr m), log_Topics = topics, log_Data = dat\<rparr>)
            op_ok)))) m)"
    unfolding b
    by (rule keeps_at, intro keeps_pop keeps_pop_topics keeps_with_mem keeps_writes keeps_op_ok)
qed (rule keeps_op_fail)

lemma keeps_jump_to [keeps_intros]: "keeps ER s b False any (jump_to d)"
  unfolding jump_to_def [abs_def]
  by (intro keeps_if_at keepsD [OF keeps_op_fail] keepsD [OF keeps_set_pc [OF keeps_op_ok]])

lemma keeps_jumps [keeps_intros]: "keeps ER s b False any opJump" "keeps ER s b False any opJumpi"
  unfolding opJump_def opJumpi_def by (intro keeps_intros)+

lemma keeps_opPush [keeps_intros]: "keeps ER s b False any (opPush n)"
proof (rule keepsI)
  fix m :: machine assume s: "Static (fr m) = s"
  show "go_all (\<lambda>(m', x). sane ER b False m m' \<and> True) (opPush n m)"
    using keepsD [OF keeps_set_pc [OF keeps_pushes(1)] s] by (simp add: opPush_def Let_def)
qed

section \<open>Charges and the other statements of the switch\<close>

lemma keeps_return_err [keeps_intros]: "keeps ER s b p outcome_ok (return_err e)"
  by (simp add: keeps_def return_err_def fail_result_def)

lemma keeps_return_ok [keeps_intros]: "keeps ER s b p outcome_ok return_ok"
  by (simp add: keeps_def return_ok_def ok_result_def)

lemma keeps_fall [keeps_intros]:
  "keeps ER s b p any k \<Longrightarrow> keeps ER s b p outcome_ok (fall k)"
  by (auto simp: keeps_def fall_def go_all_iff go_bind_Ret_iff)

lemma keeps_charge [keeps_intros]:
  assumes "keeps ER s b p outcome_ok k"
  shows "keeps ER s b p outcome_ok (charge g k)"
  unfolding charge_def [abs_def]
  by (rule keeps_if_at) (simp add: keepsD [OF keeps_return_err], rule keeps_after [OF sane_use_gas _ assms])

lemma keeps_charge_op [keeps_intros]:
  assumes "keeps ER s b p any k"
  shows "keeps ER s b p any (charge_op g k)"
  unfolding charge_op_def [abs_def]
  by (rule keeps_if_at) (rule keepsD [OF keeps_op_fail], assumption, rule keeps_after [OF sane_use_gas _ assms])

lemma keeps_bind:
  assumes "keeps ER s b p Q a" and "\<And>m' x. Q m' x \<Longrightarrow> Static (fr m') = s \<Longrightarrow>
      go_all (\<lambda>(m'', y). sane ER b p m' m'' \<and> P m'' y) (k (m', x))"
  shows "keeps ER s b p P (\<lambda>m. go_bind (a m) k)"
proof (rule keepsI)
  fix m :: machine assume s: "Static (fr m) = s"
  show "go_all (\<lambda>(m', x). sane ER b p m m' \<and> P m' x) (go_bind (a m) k)"
  proof (cases "a m")
    case (Ret r)
    obtain m' x where r: "r = (m', x)" by force
    from keepsD [OF assms(1) s] Ret r have m': "sane ER b p m m'" "Q m' x" by auto
    then have "Static (fr m') = s" using s by (simp add: sane_def same_env_def)
    from assms(2) [OF m'(2) this] Ret r show ?thesis
      by (auto elim!: go_all_mono intro: sane_trans [OF m'(1)])
  qed simp_all
qed

lemma keeps_op_then [keeps_intros]:
  assumes "keeps ER s b p any a" and "keeps ER s b p any c"
  shows "keeps ER s b p any (op_then a c)"
  unfolding op_then_def [abs_def]
  by (rule keeps_bind [OF assms(1)]) (auto split: option.split intro: keepsD [OF assms(2), simplified]
      keepsD [OF keeps_op_fail, simplified])

lemma keeps_or_return [keeps_intros]:
  assumes "keeps ER s b p any a" and "keeps ER s b p outcome_ok k"
  shows "keeps ER s b p outcome_ok (or_return a k)"
  unfolding or_return_def [abs_def]
  by (rule keeps_bind [OF assms(1)]) (auto split: option.split intro: keepsD [OF assms(2)]
      keepsD [OF keeps_return_err])

lemma keeps_pop_or_return [keeps_intros]:
  assumes "\<And>v. keeps ER s b p outcome_ok (k v)"
  shows "keeps ER s b p outcome_ok (pop_or_return k)"
proof (rule keepsI)
  fix m :: machine assume s: "Static (fr m) = s"
  have "go_all (\<lambda>(m', x). sane ER b p m m' \<and> outcome_ok m' x) (k v (set_stack s' m))"
    if "Pop (Stk (fr m)) = Ret (Inr (v, s'))" for v s'
    by (rule keeps_after [OF sane_stack s assms]) (use stack_ok_PopE that in blast)
  then show "go_all (\<lambda>(m', x). sane ER b p m m' \<and> outcome_ok m' x) (pop_or_return k m)"
    by (cases "Pop (Stk (fr m))")
      (simp_all add: pop_or_return_def return_err_def fail_result_def split: sum.split prod.split)
qed

lemma keeps_drop_top [keeps_intros]:
  assumes "keeps ER s b p P k"
  shows "keeps ER s b p P (drop_top k)"
proof (rule keepsI)
  fix m :: machine assume s: "Static (fr m) = s"
  have "go_all (\<lambda>(m', x). sane ER b p m m' \<and> P m' x) (k (set_stack s' m))"
    if "Pop (Stk (fr m)) = Ret (Inr (v, s'))" for v s'
    by (rule keeps_after [OF sane_stack s assms]) (use stack_ok_PopE that in blast)
  then show "go_all (\<lambda>(m', x). sane ER b p m m' \<and> P m' x) (drop_top k m)"
    using keepsD [OF assms s]
    by (cases "Pop (Stk (fr m))") (simp_all add: drop_top_def split: sum.split prod.split)
qed

lemma keeps_push_and_return:
  assumes "\<And>m s'. stack_ok (Stk (fr m)) \<Longrightarrow> r m = Ret (Inr s') \<Longrightarrow> stack_ok s'"
  shows "keeps ER s b p outcome_ok (\<lambda>m. push_and_return (r m) m)"
proof (rule keepsI)
  fix m :: machine assume s: "Static (fr m) = s"
  have "go_all (\<lambda>(m', x). sane ER b p m m' \<and> outcome_ok m' x) (return_ok (set_stack s' m))"
    if "r m = Ret (Inr s')" for s'
    by (rule keeps_after [OF sane_stack s keeps_return_ok]) (use assms that in blast)
  then show "go_all (\<lambda>(m', x). sane ER b p m m' \<and> outcome_ok m' x) (push_and_return (r m) m)"
    using keepsD [OF keeps_return_ok s]
    by (cases "r m") (simp_all add: push_and_return_def split: sum.split)
qed

lemma keeps_if_act [keeps_intros]:
  "(c \<Longrightarrow> keeps ER s b p P (g k)) \<Longrightarrow> keeps ER s b p P k \<Longrightarrow> keeps ER s b p P (if_act c g k)"
  by (simp add: if_act_def)

lemma sane_expand:
  assumes "Expand (Mem (fr m)) offset sz (Gas (fr m)) = Ret (Inr (x, g))"
  shows "sane ER b p m (upd_fr (\<lambda>f. f\<lparr>Mem := x, Gas := g\<rparr>) m)"
proof -
  have "g \<le> Gas (fr m)"
    using assms by (auto simp: Expand_def Let_def go_bind_Ret_iff not_less word_sub_le split: sum.splits if_splits)
  then show ?thesis
    using Expand_cases [OF assms] by (auto simp: sane_def refl same_env_def frame_ok_def)
qed

lemma keeps_expandMem [keeps_intros]: "keeps ER s b p any (expandMem offset sz)"
proof (rule keepsI)
  fix m :: machine
  show "go_all (\<lambda>(m', x). sane ER b p m m' \<and> True) (expandMem offset sz m)"
    using sane_expand [of m offset sz]
    by (cases "Expand (Mem (fr m)) offset sz (Gas (fr m))")
      (auto simp: expandMem_def op_ok_def op_fail_def split: sum.split)
qed

lemma keeps_memCopyOp [keeps_intros]: "keeps ER s b p any fn \<Longrightarrow> keeps ER s b p any (memCopyOp fn)"
  unfolding memCopyOp_def by (intro keeps_intros)

lemma keeps_logOp:
  assumes "b \<Longrightarrow> s"
  shows "keeps ER s b p any (logOp n)"
  unfolding logOp_def [abs_def]
  by (intro keeps_static_guard keeps_intros keeps_opLog) (use assms in blast)

lemma keeps_warm_address [keeps_intros]: "keeps ER s b p P k \<Longrightarrow> keeps ER s b p P (warm_address a k)"
  unfolding warm_address_def by (rule keeps_warm)

lemma keeps_chargeExtAccess [keeps_intros]: "keeps ER s b p any (chargeExtAccess a)"
  unfolding chargeExtAccess_def [abs_def] 
  by (rule keeps_if_at) (rule keepsD, intro keeps_intros, assumption)+

section \<open>The cases of the switch\<close>

lemma keeps_read_cases [keeps_intros]:
  "keeps ER s b p outcome_ok (run_EXP L')" "keeps ER s b p any k \<Longrightarrow> keeps ER s b p outcome_ok (run_ext k)"
  "keeps ER s b p any k \<Longrightarrow> keeps ER s b p outcome_ok (run_mem n k)"
  unfolding run_EXP_def run_ext_def run_mem_def by (intro keeps_intros | assumption)+

lemma keeps_run_SLOAD [keeps_intros]: "keeps ER s b p outcome_ok (run_SLOAD L)"
  unfolding run_SLOAD_def Let_def
  by (rule keeps_peek, rule keeps_if_at) (rule keepsD, intro keeps_intros, assumption)+

lemma keeps_run_SHA3 [keeps_intros]: "keeps ER s b p outcome_ok (run_SHA3 L')"
proof -
  have "keeps ER s b p outcome_ok (\<lambda>m1. go_bind (Expand (Mem (fr m1)) off sz (Gas (fr m1))) (\<lambda>r.
            fall (opSha3 L')
              (case r of Inl e \<Rightarrow> m1
               | Inr (x, g) \<Rightarrow> upd_fr (\<lambda>f. f\<lparr>Mem := x, Gas := g\<rparr>) m1)))" for off sz
  proof (rule keepsI)
    fix m :: machine assume s: "Static (fr m) = s"
    note k = keeps_fall [OF keeps_arith(26)]
    show "go_all (\<lambda>(m', x). sane ER b p m m' \<and> outcome_ok m' x)
        (go_bind (Expand (Mem (fr m)) off sz (Gas (fr m))) (\<lambda>r.
            fall (opSha3 L')
              (case r of Inl e \<Rightarrow> m
               | Inr (x, g) \<Rightarrow> upd_fr (\<lambda>f. f\<lparr>Mem := x, Gas := g\<rparr>) m)))"
      using keeps_after [OF sane_expand s k] keepsD [OF k s]
      by (cases "Expand (Mem (fr m)) off sz (Gas (fr m))") (auto split: sum.split)
  qed
  then show ?thesis
    unfolding run_SHA3_def Let_def by (intro keeps_peek) (rule keeps_at, rule keeps_charge)
qed

lemma keeps_run_SSTORE:
  assumes "b \<Longrightarrow> s"
  shows "keeps ER s b p outcome_ok (run_SSTORE L)"
proof -
  have "keeps ER s b p outcome_ok (sstore_charges L slot current original newVal)" if "\<not> s"
    for slot current original newVal
  proof -
    from that assms have b: "b = False" by blast
    show ?thesis
      unfolding sstore_charges_def [abs_def] Let_def case_prod_beta b
      by (rule keeps_if_at)
        (rule keepsD, intro keeps_charge keeps_warm keeps_writes keeps_fall keeps_opSstore; simp)+
  qed
  then show ?thesis
    unfolding run_SSTORE_def [abs_def] Let_def
    by (intro keeps_static_guard keeps_return_err)
      (rule keeps_if_at, rule keepsD, rule keeps_return_err, assumption, rule keepsD, intro keeps_peek,
        rule keeps_at, intro keeps_storage_reads, assumption+)
qed

lemma keeps_run_halt [keeps_intros]: "keeps ER s b p outcome_ok (run_halt err)"
proof -
  have halt: "keeps ER s b p outcome_ok (with_mem (\<lambda>x. GetCopy x off sz) (\<lambda>dat m.
           Ret (m, Done \<lparr>r_ReturnData = dat, r_GasLeft = Gas (fr m), r_Err = err\<rparr>)))" for off sz
    by (auto simp: keeps_def with_mem_def go_all_iff go_bind_Ret_iff GetCopy_def go_make_def
        split: if_splits)
  show ?thesis
    unfolding run_halt_def
    by (intro keeps_peek keeps_or_return keeps_if keeps_expandMem keeps_op_ok keeps_drop_top halt)
qed

lemma keeps_move_balance:
  assumes "keeps ER s False p outcome_ok k"
  shows "keeps ER s False p outcome_ok (move_balance L a k)"
  unfolding move_balance_def [abs_def] Let_def
  by (rule keeps_at, intro keeps_reads keeps_if keeps_writes assms)

lemma keeps_run_SELFDESTRUCT:
  assumes "b \<Longrightarrow> s"
  shows "keeps ER s b p outcome_ok (run_SELFDESTRUCT L)"
proof -
  have suicide: "keeps ER s False p outcome_ok (\<lambda>m2. if db_CreatedInTx (db_of m2) self
      then write_db (\<lambda>d. db_Suicide d self) return_ok m2 else return_ok m2)" for self
    by (rule keeps_if_at) (rule keepsD, intro keeps_writes keeps_return_ok, assumption)+
  have "keeps ER s False p outcome_ok (\<lambda>m1.
      if_act (\<not> db_AddressWarm (db_of m1) (WordToAddress ben)) (charge gas_ColdAccountAccess)
        (read_db (\<lambda>d. db_Exists L d (WordToAddress ben)) (\<lambda>ex.
           if_act (\<not> ex) (charge gas_SelfDestructNewAccount)
             (move_balance L (WordToAddress ben) (\<lambda>m2.
                if db_CreatedInTx (db_of m2) (Contract (fr m1))
                then write_db (\<lambda>d. db_Suicide d (Contract (fr m1))) return_ok m2
                else return_ok m2)))) m1)" for ben
    by (rule keeps_at, intro keeps_if_act keeps_charge keeps_reads keeps_move_balance suicide)
  then have "keeps ER s b p outcome_ok (charge gas_SelfDestruct (pop_or_return (\<lambda>ben m1.
      if_act (\<not> db_AddressWarm (db_of m1) (WordToAddress ben)) (charge gas_ColdAccountAccess)
        (read_db (\<lambda>d. db_Exists L d (WordToAddress ben)) (\<lambda>ex.
           if_act (\<not> ex) (charge gas_SelfDestructNewAccount)
             (move_balance L (WordToAddress ben) (\<lambda>m2.
                if db_CreatedInTx (db_of m2) (Contract (fr m1))
                then write_db (\<lambda>d. db_Suicide d (Contract (fr m1))) return_ok m2
                else return_ok m2)))) m1)))" if "\<not> b"
    using that by (cases b) (simp_all add: keeps_charge keeps_pop_or_return)
  then show ?thesis
    unfolding run_SELFDESTRUCT_def [abs_def] Let_def
    using assms by (intro keeps_static_guard keeps_return_err) blast+
qed

end

section \<open>Calls and creates\<close>

definition is_call :: "byte \<Rightarrow> bool" where
  "is_call op \<longleftrightarrow> op = op_CALL \<or> op = op_CALLCODE \<or> op = op_DELEGATECALL \<or> op = op_STATICCALL
     \<or> op = op_CREATE \<or> op = op_CREATE2"

text \<open>Progress of one pass through the loop, in the gas or else in the program counter.\<close>

definition moves_on :: "machine \<Rightarrow> machine \<Rightarrow> bool" where
  "moves_on m m' \<longleftrightarrow> Gas (fr m') < Gas (fr m) \<or> Gas (fr m') = Gas (fr m) \<and> PC (fr m') = PC (fr m) + 1"

locale call_handler = evm_effects +
  fixes H :: handler
  assumes call_effect: "h_Call H e pf ct a v' g inp = Ret (e', ret, gl, err) \<Longrightarrow> ER False e e'"
    and create_effect: "h_Create H e pf v' initCode salt = Ret (e', addr, gl, err) \<Longrightarrow>
      ER False e e' \<and> gl \<le> Gas pf"
begin

lemma keeps_copy_output:
  "keeps ER s b p outcome_ok k \<Longrightarrow> keeps ER s b p outcome_ok (copy_output off sz ret k)"
  unfolding copy_output_def Let_def by (intro keeps_if keeps_with_mem keeps_mem_writes)

lemma forward_gas_le: "forward_gas arg g \<le> g"
  using CallGas_le [of g] by (auto simp: forward_gas_def)

lemma sub_add_le: "gl \<le> fwd \<Longrightarrow> fwd \<le> g \<Longrightarrow> g - fwd + gl \<le> (g :: u64)"
proof -
  assume "gl \<le> fwd" and "fwd \<le> g"
  then have "fwd - gl \<le> g" using word_sub_le [of gl fwd] by (blast intro: order_trans)
  then have "g - (fwd - gl) \<le> g" by (rule word_sub_le)
  then show ?thesis by (simp add: algebra_simps)
qed

lemma sane_after_call:
  assumes "ER False (evm m) e" and "gl \<le> fwd" and "fwd \<le> Gas (fr m)"
  shows "sane ER False p m (upd_fr (\<lambda>f. f\<lparr>Gas := Gas f + gl, ReturnData := ret\<rparr>) ((use_gas fwd m)\<lparr>evm := e\<rparr>))"
  using assms sub_add_le [OF assms(2,3)] by (simp add: sane_def use_gas_def upd_fr_def same_env_def frame_ok_def)

lemma keeps_do_call: "keeps ER s False p outcome_ok (do_call H op gasArg a val input off sz)"
proof (rule keepsI)
  fix m :: machine assume s: "Static (fr m) = s"
  let ?fwd = "forward_gas gasArg (Gas (fr m))"
  let ?stipend = "if val > 0 then gas_CallStipend else 0"
  let ?m1 = "use_gas ?fwd m"
  let ?call = "h_Call H (evm ?m1) (fr ?m1) (call_type op) a val (?fwd + ?stipend) input"
  show "go_all (\<lambda>(m', x). sane ER False p m m' \<and> outcome_ok m' x) (do_call H op gasArg a val input off sz m)"
  proof (cases ?call)
    case (Ret r)
    obtain e ret gasLeft callErr where r: "r = (e, ret, gasLeft, callErr)" by (cases r) auto
    let ?gl = "if gasLeft > ?fwd + ?stipend - ?stipend then ?fwd + ?stipend - ?stipend else gasLeft"
    let ?m2 = "upd_fr (\<lambda>f. f\<lparr>Gas := Gas f + ?gl, ReturnData := ret\<rparr>) (?m1\<lparr>evm := e\<rparr>)"
    have "ER False (evm m) e" using call_effect Ret r by (force simp: use_gas_def)
    moreover have "?gl \<le> ?fwd" by auto
    ultimately have m2: "sane ER False p m ?m2" by (rule sane_after_call) (rule forward_gas_le)
    have "keeps ER s False p outcome_ok (copy_output off sz ret
        (\<lambda>m3. push_and_return (PushRaw (Stk (fr m3)) (case callErr of Some _ \<Rightarrow> 0 | None \<Rightarrow> 1)) m3))"
      by (intro keeps_copy_output keeps_push_and_return) (rule stack_results_ok)
    from keeps_after [OF m2 s this] Ret r show ?thesis by (simp add: do_call_def Let_def)
  qed (simp_all add: do_call_def Let_def)
qed

lemma keeps_charge_access [keeps_intros]:
  assumes "keeps ER s b p outcome_ok k"
  shows "keeps ER s b p outcome_ok (charge_access a k)"
  unfolding charge_access_def [abs_def]
  by (rule keeps_if_at)
    (rule keepsD [OF keeps_charge [OF keeps_warm_address [OF assms]]], assumption,
      rule keepsD [OF keeps_charge [OF assms]], assumption)

lemma keeps_execCall: "keeps ER s False p outcome_ok (execCall L H op)"
proof -
  have args: "keeps ER s False p outcome_ok (exec_call_args L H op gasArg a val)" for gasArg a val
    unfolding exec_call_args_def charge_value_def
    by (intro keeps_pop_or_return keeps_or_return keeps_expandMem keeps_charge_access keeps_if_act
        keeps_charge keeps_if keeps_reads keeps_with_mem keeps_do_call)
  show ?thesis
    unfolding execCall_def [abs_def]
  proof (rule keeps_if_at)
    fix m :: machine assume "Static (fr m) = s"
    then show "go_all (\<lambda>(m', x). sane ER False p m m' \<and> outcome_ok m' x)
        (push_and_return (PushRaw (Stk (fr m)) 0) m)"
      using keepsD [OF keeps_push_and_return [of "\<lambda>m. PushRaw (Stk (fr m)) 0"]] stack_results_ok(2) by blast
  next
    fix m :: machine assume s: "Static (fr m) = s"
    show "go_all (\<lambda>(m', x). sane ER False p m m' \<and> outcome_ok m' x)
        (pop_or_return (\<lambda>gasArg. pop_or_return (\<lambda>addrWord.
          if op = op_CALL \<or> op = op_CALLCODE
          then pop_or_return (\<lambda>valueWord.
            exec_call_args L H op gasArg (WordToAddress addrWord) (Uint64 valueWord))
          else exec_call_args L H op gasArg (WordToAddress addrWord) 0)) m)"
      by (rule keepsD [OF _ s]) (intro keeps_pop_or_return keeps_if args)
  qed
qed

lemma create_gas_le:
  assumes "gl \<le> g - CallGas g"
  shows "g - CallGas g + gl \<le> g"
proof -
  have "g - CallGas g \<le> CallGas g"
    by (simp add: word_le_nat_alt unat_CallGas CallGas_le unat_diff)
  with assms show ?thesis by (intro sub_add_le) (auto simp: CallGas_le)
qed

lemma keeps_do_create: "keeps ER s False p outcome_ok (do_create H val code salt)"
proof (rule keepsI)
  fix m :: machine assume s: "Static (fr m) = s"
  let ?m1 = "use_gas (CallGas (Gas (fr m))) m"
  let ?create = "h_Create H (evm ?m1) (fr ?m1) val code salt"
  show "go_all (\<lambda>(m', x). sane ER False p m m' \<and> outcome_ok m' x) (do_create H val code salt m)"
  proof (cases ?create)
    case (Ret r)
    obtain e addr gasLeft err where r: "r = (e, addr, gasLeft, err)" by (cases r) auto
    let ?m2 = "upd_fr (\<lambda>f. f\<lparr>Gas := Gas f + gasLeft\<rparr>) (?m1\<lparr>evm := e\<rparr>)"
    have "ER False (evm m) e \<and> gasLeft \<le> Gas (fr m) - CallGas (Gas (fr m))"
      using create_effect Ret r by (force simp: use_gas_def)
    then have m2: "sane ER False p m ?m2"
      using create_gas_le by (simp add: sane_def use_gas_def upd_fr_def same_env_def frame_ok_def)
    have "keeps ER s False p outcome_ok (\<lambda>m2. push_and_return
        (case err of Some _ \<Rightarrow> PushRaw (Stk (fr m2)) 0 | None \<Rightarrow> Push (Stk (fr m2)) (AddressToWord addr)) m2)"
      by (rule keeps_push_and_return) (auto intro: stack_results_ok split: option.splits)
    from keeps_after [OF m2 s this] Ret r show ?thesis by (simp add: do_create_def Let_def)
  qed (simp_all add: do_create_def Let_def)
qed

lemma keeps_execCreate: "keeps ER s False p outcome_ok (execCreate H op)"
proof -
  have create: "keeps ER s False p outcome_ok (create_code H v off sz salt)" for v off sz salt
    unfolding create_code_def by (intro keeps_or_return keeps_expandMem keeps_with_mem keeps_do_create)
  have body: "keeps ER s False p outcome_ok (pop_or_return (\<lambda>valueWord. pop_or_return (\<lambda>offset. pop_or_return (\<lambda>sz.
        if op = op_CREATE2
        then pop_or_return (\<lambda>saltWord.
          create_code H valueWord offset sz (Some (Bytes32 saltWord)))
        else create_code H valueWord offset sz None))))"
    by (intro keeps_pop_or_return keeps_if create)
  have push: "keeps ER s False p outcome_ok (\<lambda>m. push_and_return (PushRaw (Stk (fr m)) 0) m)"
    by (rule keeps_push_and_return) (rule stack_results_ok)
  show ?thesis
    unfolding execCreate_def [abs_def]
    by (intro keeps_static_guard keeps_return_err)
      (rule keeps_if_at, rule keepsD [OF push], assumption, rule keepsD [OF body], assumption)
qed

lemma keeps_resume: "keeps ER s b p outcome_ok k \<Longrightarrow> keeps ER s b p outcome_ok (resume k)"
  unfolding resume_def [abs_def] 
  by (rule keeps_bind [where Q = outcome_ok]) (auto split: outcome.split)

section \<open>The whole switch and the loop\<close>

lemma keeps_rows:
  "list_all (\<lambda>(opc, g, k). 0 < g \<and> keeps ER s b False any k) (arith_ops L @ env_ops L @ mem_ops)"
  unfolding arith_ops_def env_ops_def mem_ops_def
  by (simp, intro conjI keeps_intros)

text \<open>
  A case either leaves the program counter where it is or charges something first.
\<close>

definition advances :: "bool \<Rightarrow> bool \<Rightarrow> act \<Rightarrow> bool" where
  "advances s b k \<longleftrightarrow> keeps ER s b True outcome_ok k
     \<or> (\<exists>g k'. 0 < g \<and> k = charge g k' \<and> keeps ER s b False outcome_ok k')"

lemma advances_if:
  "(c \<Longrightarrow> advances s b k) \<Longrightarrow> (\<not> c \<Longrightarrow> advances s b l) \<Longrightarrow> advances s b (if c then k else l)"
  by simp

lemma advances_keeps: "keeps ER s b True outcome_ok k \<Longrightarrow> advances s b k"
  by (simp add: advances_def)

lemma advances_charge: "0 < g \<Longrightarrow> keeps ER s b False outcome_ok k \<Longrightarrow> advances s b (charge g k)"
  by (auto simp: advances_def)

lemma advances_exec_special:
  "(b \<Longrightarrow> s) \<Longrightarrow> advances s b (exec_special L op)"
  unfolding exec_special_def
  by (intro advances_if advances_keeps keeps_run_SSTORE keeps_intros)

lemma advances_exec_control:
  assumes "b \<Longrightarrow> s \<and> \<not> is_call op"
  shows "advances s b (exec_control L H op)"
  unfolding exec_control_def
proof (intro advances_if)
  show "advances s b (exec_special L op)" using assms by (intro advances_exec_special) blast
  show "advances s b (fall (logOp n))" for n
    using assms by (intro advances_keeps keeps_fall keeps_logOp) blast
  show "advances s b (run_SELFDESTRUCT L)"
    using assms by (intro advances_keeps keeps_run_SELFDESTRUCT) blast
  assume "op = op_CREATE \<or> op = op_CREATE2"
  then have "b = False" using assms by (auto simp: is_call_def)
  then show "advances s b (resume (execCreate H op))"
    by (simp add: advances_keeps keeps_resume keeps_execCreate)
next
  assume "op = op_CALL \<or> op = op_CALLCODE \<or> op = op_DELEGATECALL \<or> op = op_STATICCALL"
  then have "b = False" using assms by (auto simp: is_call_def)
  then show "advances s b (resume (execCall L H op))"
    by (simp add: advances_keeps keeps_resume keeps_execCall)
qed (intro advances_keeps advances_charge keeps_intros; simp)+

lemma advances_exec_op:
  assumes "b \<Longrightarrow> s \<and> \<not> is_call op"
  shows "advances s b (exec_op L H op)"
proof (cases "map_of (arith_ops L @ env_ops L @ mem_ops) op")
  case None
  show ?thesis unfolding exec_op_def None using advances_exec_control [OF assms] by simp
next
  case (Some r)
  obtain g k where r: "r = (g, k)" by force
  have "case (op, g, k) of (opc, g, k) \<Rightarrow> 0 < g \<and> keeps ER s b False any k"
    using map_of_SomeD [OF Some] keeps_rows [of s b] unfolding r list_all_iff by blast
  then have "0 < g" "keeps ER s b False any k" by auto
  then show ?thesis unfolding exec_op_def Some r by (simp add: advances_charge keeps_fall)
qed

lemma advancesE:
  assumes "advances s b k" and "Static (fr m) = s" and "k m = Ret (m', out)"
  shows "sane ER b False m m' \<and> outcome_ok m' out
    \<and> (\<forall>e. out = Next e \<longrightarrow> Gas (fr m') < Gas (fr m) \<or> Gas (fr m') = Gas (fr m) \<and> PC (fr m') = PC (fr m))"
  using assms(1) unfolding advances_def
proof
  assume k: "keeps ER s b True outcome_ok k"
  from keepsD [OF k assms(2)] keepsD [OF keeps_weaken_pc [OF k] assms(2)] assms(3)
  show ?thesis by (auto simp: sane_def)
next
  assume "\<exists>g k'. 0 < g \<and> k = charge g k' \<and> keeps ER s b False outcome_ok k'"
  then obtain g k' where g: "0 < g" "k = charge g k'" "keeps ER s b False outcome_ok k'" by blast
  from keepsD [OF keeps_charge [OF g(3)] assms(2), of g] assms(3)
  have all: "sane ER b False m m' \<and> outcome_ok m' out" by (simp add: g(2))
  show ?thesis
  proof (cases "Gas (fr m) < g")
    case True
    then show ?thesis using all assms(3) g(2) by (auto simp: charge_def return_err_def)
  next
    case False
    then have "k' (use_gas g m) = Ret (m', out)" using assms(3) g(2) by (simp add: charge_def)
    with keepsD [OF g(3), of "use_gas g m"] assms(2) have "Gas (fr m') \<le> Gas (fr m) - g"
      by (auto simp: use_gas_def sane_def)
    moreover have "Gas (fr m) - g < Gas (fr m)"
      using False g(1) unat_diff [of g "Gas (fr m)"] by (simp add: word_less_nat_alt not_less)
        (simp add: word_le_nat_alt)
    ultimately show ?thesis using all by auto
  qed
qed

lemma sane_capture: "sane ER b p m (capture op g err m)"
  by (simp add: capture_def Let_def sane_def refl captures same_env_def)

text \<open>
  One pass through the loop: what \<open>sane\<close> says of the machine, and either a result that hands back at
  most the gas of the frame, or progress in the gas or else in the program counter.
\<close>

lemma sane_next_pc: "sane ER b False m (upd_fr (\<lambda>f. f\<lparr>PC := PC f + 1\<rparr>) m)"
  by (simp add: sane_def refl same_env_def frame_ok_def)

lemma step_sane:
  assumes "step L H m = Ret (m', r)"
    and "b \<Longrightarrow> Static (fr m) \<and> (unat (PC (fr m)) < length (Code (fr m)) \<longrightarrow>
      \<not> is_call (Code (fr m) ! unat (PC (fr m))))"
  shows "sane ER b False m m'
    \<and> (case r of Some res \<Rightarrow> outcome_ok m' (Done res)
        | None \<Rightarrow> unat (PC (fr m)) < length (Code (fr m)) \<and> moves_on m m')"
proof (cases "unat (PC (fr m)) \<ge> length (Code (fr m))")
  case True
  with assms(1) show ?thesis by (auto simp: step_def ok_result_def)
next
  case False
  let ?m1 = "upd_fr (\<lambda>f. f\<lparr>PC := PC f + 1\<rparr>) m" and ?op = "Code (fr m) ! unat (PC (fr m))"
  from assms(1) False obtain m2 out where ex: "exec_op L H ?op ?m1 = Ret (m2, out)"
    and out: "after_switch ?op (Gas (fr m)) out m2 = (m', r)"
    by (auto simp: step_def Let_def go_bind_Ret_iff)
  have "advances (Static (fr m)) b (exec_op L H ?op)"
    using assms(2) False by (intro advances_exec_op) auto
  from advancesE [OF this _ ex] have m2: "sane ER b False ?m1 m2" "outcome_ok m2 out"
    and prog: "\<And>e. out = Next e \<Longrightarrow> moves_on m m2"
    by (auto simp: moves_on_def)
  show ?thesis
  proof (cases out)
    case (Done r')
    with out m2 sane_trans [OF sane_next_pc m2(1)] show ?thesis by auto
  next
    case (Next e)
    let ?m3 = "capture ?op (Gas (fr m)) e m2"
    have m': "m' = ?m3" using out Next by (auto simp: Let_def)
    have "sane ER b False m ?m3"
      by (rule sane_trans [OF sane_trans [OF sane_next_pc m2(1)] sane_capture])
    moreover have "fr ?m3 = fr m2" by (simp add: capture_def Let_def)
    ultimately show ?thesis
      using out Next prog [OF Next] False unfolding m'
      by (auto simp: Let_def moves_on_def fail_result_def split: option.splits if_splits)
  qed
qed

lemma run_loop_sane:
  assumes "run_loop L H n m = Ret (m', res)"
  shows "sane ER False False m m' \<and> outcome_ok m' (Done res)"
  using assms
proof (induction n arbitrary: m)
  case 0
  then show ?case by simp
next
  case (Suc n)
  then obtain m1 r where st: "step L H m = Ret (m1, r)"
    and rest: "(case r of Some res \<Rightarrow> Ret (m1, res) | None \<Rightarrow> run_loop L H n m1) = Ret (m', res)"
    by (auto simp: go_bind_Ret_iff)
  have m1: "sane ER False False m m1"
    and r: "\<And>res. r = Some res \<Longrightarrow> outcome_ok m1 (Done res)"
    using step_sane [OF st, of False] by (auto split: option.splits)
  show ?case
  proof (cases r)
    case None
    with rest have "run_loop L H n m1 = Ret (m', res)" by simp
    from Suc.IH [OF this] sane_trans [OF m1] show ?thesis by blast
  next
    case (Some res')
    with rest r m1 show ?thesis by auto
  qed
qed

end

end
