(* ===== verification/Sha256.thy ===== *)
theory Sha256
  imports Types
begin

text \<open>
  SHA-256 as \<open>crypto/sha256.Sum256\<close> of the Go standard library computes it (FIPS 180-4), which the
  precompiled contract 2 returns: padding, message schedule and compression on 32-bit words.
\<close>

definition sha_init :: "u32 list" where
  "sha_init =
     [1779033703, 3144134277, 1013904242, 2773480762,
      1359893119, 2600822924, 528734635, 1541459225]"

definition sha_K :: "u32 list" where
  "sha_K =
     [1116352408, 1899447441, 3049323471, 3921009573, 961987163, 1508970993, 2453635748, 2870763221,
      3624381080, 310598401, 607225278, 1426881987, 1925078388, 2162078206, 2614888103, 3248222580,
      3835390401, 4022224774, 264347078, 604807628, 770255983, 1249150122, 1555081692, 1996064986,
      2554220882, 2821834349, 2952996808, 3210313671, 3336571891, 3584528711, 113926993, 338241895,
      666307205, 773529912, 1294757372, 1396182291, 1695183700, 1986661051, 2177026350, 2456956037,
      2730485921, 2820302411, 3259730800, 3345764771, 3516065817, 3600352804, 4094571909, 275423344,
      430227734, 506948616, 659060556, 883997877, 958139571, 1322822218, 1537002063, 1747873779,
      1955562222, 2024104815, 2227730452, 2361852424, 2428436474, 2756734187, 3204031479, 3329325298]"

definition sha_pad :: "bytes \<Rightarrow> bytes" where
  "sha_pad msg =
     msg @ [0x80] @ replicate ((119 - length msg mod 64) mod 64) 0 @
     be_bytes 8 (of_nat (8 * length msg) :: u64)"

fun word_blocks :: "bytes \<Rightarrow> u32 list" where
  "word_blocks (a # b # c # d # rest) = be_word [a, b, c, d] # word_blocks rest"
| "word_blocks rest = []"

definition small_sigma0 :: "u32 \<Rightarrow> u32" where
  "small_sigma0 x = word_rotr 7 x XOR word_rotr 18 x XOR drop_bit 3 x"

definition small_sigma1 :: "u32 \<Rightarrow> u32" where
  "small_sigma1 x = word_rotr 17 x XOR word_rotr 19 x XOR drop_bit 10 x"

definition big_sigma0 :: "u32 \<Rightarrow> u32" where
  "big_sigma0 x = word_rotr 2 x XOR word_rotr 13 x XOR word_rotr 22 x"

definition big_sigma1 :: "u32 \<Rightarrow> u32" where
  "big_sigma1 x = word_rotr 6 x XOR word_rotr 11 x XOR word_rotr 25 x"

definition sha_schedule :: "u32 list \<Rightarrow> u32 list" where
  "sha_schedule ws =
     foldl (\<lambda>w t. w @ [small_sigma1 (w ! (t - 2)) + w ! (t - 7) + small_sigma0 (w ! (t - 15)) + w ! (t - 16)])
       ws [16..<64]"

fun sha_round :: "u32 list \<Rightarrow> u32 \<times> u32 \<Rightarrow> u32 list" where
  "sha_round [a, b, c, d, e, f, g, h] (k, w) =
     (let t1 = h + big_sigma1 e + ((e AND f) XOR (NOT e AND g)) + k + w;
          t2 = big_sigma0 a + ((a AND b) XOR (a AND c) XOR (b AND c))
      in [t1 + t2, a, b, c, d + t1, e, f, g])"
| "sha_round st kw = st"

definition sha_compress :: "u32 list \<Rightarrow> bytes \<Rightarrow> u32 list" where
  "sha_compress st block =
     map2 (+) st (foldl sha_round st (zip sha_K (sha_schedule (word_blocks block))))"

fun sha_blocks :: "nat \<Rightarrow> u32 list \<Rightarrow> bytes \<Rightarrow> u32 list" where
  "sha_blocks 0 st msg = st"
| "sha_blocks (Suc n) st msg = sha_blocks n (sha_compress st (take 64 msg)) (drop 64 msg)"

definition Sum256 :: "bytes \<Rightarrow> bytes" where
  "Sum256 msg =
     (let p = sha_pad msg in concat (map (be_bytes 4) (sha_blocks (length p div 64) sha_init p)))"

lemma length_sha_round [simp]: "length (sha_round st kw) = length st"
  by (induction st kw rule: sha_round.induct) (simp_all add: Let_def)

lemma length_sha_rounds [simp]: "length (foldl sha_round st xs) = length st"
  by (induction xs arbitrary: st) simp_all

lemma length_sha_compress [simp]: "length (sha_compress st block) = length st"
  by (simp add: sha_compress_def)

lemma length_sha_blocks [simp]: "length (sha_blocks n st msg) = length st"
  by (induction n arbitrary: st msg) simp_all

lemma length_concat_same: "(\<And>x. x \<in> set xs \<Longrightarrow> length (f x) = n) \<Longrightarrow> length (concat (map f xs)) = n * length xs"
  by (induction xs) auto

lemma length_Sum256 [simp]: "length (Sum256 msg) = 32"
  by (simp add: Sum256_def Let_def length_concat_same [where n = 4] sha_init_def)

lemma length_sha_pad: "64 dvd length (sha_pad msg)"
proof -
  have pad: "64 dvd r + 9 + (119 - r) mod 64" if "r < 64" for r :: nat
  proof (cases "r \<le> 55")
    case True
    then have "(119 - r) mod 64 = 55 - r" using mod_add_self1 [of 64 "55 - r"] by simp
    then show ?thesis using True by simp
  next
    case False
    then show ?thesis using that by simp
  qed
  have "64 dvd 64 * (length msg div 64) + (length msg mod 64 + 9 + (119 - length msg mod 64) mod 64)"
    by (rule dvd_add [OF dvd_triv_left pad]) simp
  also have "\<dots> = length (sha_pad msg)"
    using mult_div_mod_eq [of 64 "length msg"] by (simp add: sha_pad_def)
  finally show ?thesis .
qed

end
