(* ===== verification/Precompile.thy ===== *)
theory Precompile
  imports Sha256
begin

text \<open>
  The precompiled contracts (\<open>precompile/precompile.go\<close>).  \<open>math/big\<close> numbers are naturals, read and
  written as big-endian bytes; lengths and offsets are 64-bit words with their wrap-around, and a slice
  expression or a \<open>make\<close> out of range is a \<open>Panic\<close>.  The hashes and curves of third-party packages are
  fields of \<open>lib\<close>; the BLAKE2b compression is the code's own.
\<close>

datatype pc_error = Precompile_ErrOutOfGas | Pc_InvalidLength | Pc_InvalidPoint

type_synonym pc_result = "bytes \<times> u64 \<times> pc_error option"

section \<open>Big numbers (math/big)\<close>

definition big_of :: "bytes \<Rightarrow> nat" where
  "big_of bs = foldl (\<lambda>n b. 256 * n + unat b) 0 bs"

fun big_bytes :: "nat \<Rightarrow> bytes" where
  "big_bytes n = (if n = 0 then [] else big_bytes (n div 256) @ [of_nat (n mod 256)])"

declare big_bytes.simps [simp del]

fun big_bitlen :: "nat \<Rightarrow> nat" where
  "big_bitlen n = (if n = 0 then 0 else Suc (big_bitlen (n div 2)))"

declare big_bitlen.simps [simp del]

section \<open>Helpers\<close>

definition wordCount :: "bytes \<Rightarrow> u64" where
  "wordCount b = (of_nat (length b) + 31) div 32"

definition zero32 :: bytes where
  "zero32 = replicate 32 0"

definition pad32 :: "bytes \<Rightarrow> bytes go" where
  "pad32 b =
     (if length b = 32 then Ret b
      else if length b \<le> 32 then Ret (copy_at (replicate 32 0) (32 - length b) b)
      else Panic)"

text \<open>The slice expression \<open>bs[lo:hi]\<close> with unsigned bounds.\<close>

definition go_slice :: "bytes \<Rightarrow> u64 \<Rightarrow> u64 \<Rightarrow> bytes go" where
  "go_slice bs lo hi =
     (if lo \<le> hi \<and> unat hi \<le> length bs
      then Ret (take (unat hi - unat lo) (drop (unat lo) bs)) else Panic)"

text \<open>\<open>in := make([]byte, n); copy(in, input)\<close>.\<close>

definition padded :: "nat \<Rightarrow> bytes \<Rightarrow> bytes" where
  "padded n input = copy_at (replicate n 0) 0 input"

text \<open>\<open>if gas < cost { return nil, 0, ErrOutOfGas }; gas -= cost\<close>.\<close>

definition pay :: "u64 \<Rightarrow> u64 \<Rightarrow> (u64 \<Rightarrow> pc_result go) \<Rightarrow> pc_result go" where
  "pay cost gas k = (if gas < cost then Ret ([], 0, Some Precompile_ErrOutOfGas) else k (gas - cost))"

section \<open>Hashes, signatures and identity\<close>

definition ecRecover :: "lib \<Rightarrow> bytes \<Rightarrow> u64 \<Rightarrow> pc_result go" where
  "ecRecover L input gas = pay 3000 gas (\<lambda>gas.
     let in' = padded 128 input;
         hash = take 32 in';
         v = big_of (take 32 (drop 32 in'));
         r = big_of (take 32 (drop 64 in'));
         s = big_of (take 32 (drop 96 in'))
     in if big_bitlen v > 8 then Ret (zero32, gas, None)
        else let vByte = (of_nat v :: byte) in
          if vByte \<noteq> 27 \<and> vByte \<noteq> 28 then Ret (zero32, gas, None)
          else go_bind (pad32 (big_bytes r)) (\<lambda>rb. go_bind (pad32 (big_bytes s)) (\<lambda>sb.
            case recover_pubkey L ([vByte] @ rb @ sb) hash of
              None \<Rightarrow> Ret (zero32, gas, None)
            | Some uncompressed \<Rightarrow>
                if uncompressed = [] then Panic
                else let h = keccak L (drop 1 uncompressed) in
                  Ret (copy_at (replicate 32 0) 12 (drop 12 h), gas, None))))"

definition sha256hash :: "bytes \<Rightarrow> u64 \<Rightarrow> pc_result go" where
  "sha256hash input gas = pay (60 + 12 * wordCount input) gas (\<lambda>gas. Ret (Sum256 input, gas, None))"

definition ripemd160hash :: "lib \<Rightarrow> bytes \<Rightarrow> u64 \<Rightarrow> pc_result go" where
  "ripemd160hash L input gas = pay (600 + 120 * wordCount input) gas (\<lambda>gas.
     Ret (copy_at (replicate 32 0) 12 (ripemd160 L input), gas, None))"

definition identity :: "bytes \<Rightarrow> u64 \<Rightarrow> pc_result go" where
  "identity input gas = pay (15 + 3 * wordCount input) gas (\<lambda>gas.
     go_bind (go_make (length input)) (\<lambda>out. Ret (copy_at out 0 input, gas, None)))"

section \<open>modexp\<close>

definition readLen :: "bytes \<Rightarrow> nat \<Rightarrow> u64" where
  "readLen input off =
     (if off + 32 > length input then
        of_nat (big_of (if off < length input
          then copy_at (replicate 32 0) (32 - (length input - off)) (drop off input)
          else replicate 32 0))
      else of_nat (big_of (take 32 (drop off input))))"

definition iter_head :: "bytes \<Rightarrow> u64 \<Rightarrow> u64 \<Rightarrow> nat go" where
  "iter_head input bLen n =
     (let start = 96 + bLen in
      if sint start < int (length input) then
        let end0 = start + n;
            end' = (if sint end0 > int (length input) then of_nat (length input) else end0);
            at = n - (end' - start)
        in if at \<le> n
           then go_bind (go_slice input start end') (\<lambda>src.
                  Ret (big_of (copy_at (replicate (unat n) 0) (unat at) src)))
           else Panic
      else Ret 0)"

definition modexpGasEIP2565 :: "u64 \<Rightarrow> u64 \<Rightarrow> u64 \<Rightarrow> bytes \<Rightarrow> u64 go" where
  "modexpGasEIP2565 bLen eLen mLen input =
     (let maxLen = (if mLen > bLen then mLen else bLen);
          words = (maxLen + 7) div 8;
          multComplexity = words * words;
          iter = (if eLen \<le> 32 then
                    if eLen = 0 then Ret 0
                    else go_bind (iter_head input bLen eLen) (\<lambda>e.
                      Ret (if e = 0 then 0 else of_nat (big_bitlen e - 1)))
                  else go_bind (iter_head input bLen 32) (\<lambda>e.
                    Ret (if e = 0 then 8 * (eLen - 32) else of_nat (big_bitlen e - 1) + 8 * (eLen - 32))))
      in go_bind iter (\<lambda>iterCount.
           let count = (if iterCount < 1 then 1 else iterCount);
               gas = multComplexity * count div 3
           in Ret (if gas < 200 then 200 else gas)))"

definition getData :: "bytes \<Rightarrow> u64 \<Rightarrow> u64 \<Rightarrow> bytes go" where
  "getData input off len =
     (if len = 0 then Ret []
      else let start = 96 + off in
        if unat start \<ge> length input then go_make (unat len)
        else let end' = start + len in
          if unat end' > length input
          then go_bind (go_make (unat len)) (\<lambda>tmp. Ret (copy_at tmp 0 (drop (unat start) input)))
          else go_slice input start end')"

definition big_exp :: "nat \<Rightarrow> nat \<Rightarrow> nat \<Rightarrow> nat" where
  "big_exp base e n =
     (if n = 0 then 0 else if n = 1 then 0 else if e = 0 then 1 mod n else base ^ e mod n)"

definition modexp :: "bytes \<Rightarrow> u64 \<Rightarrow> pc_result go" where
  "modexp input gas =
     (let bLen = readLen input 0; eLen = readLen input 32; mLen = readLen input 64 in
      go_bind (modexpGasEIP2565 bLen eLen mLen input) (\<lambda>cost. pay cost gas (\<lambda>gas.
        if mLen = 0 then Ret ([], gas, None)
        else
          go_bind (getData input 0 bLen) (\<lambda>b.
          go_bind (getData input bLen eLen) (\<lambda>e.
          go_bind (getData input (bLen + eLen) mLen) (\<lambda>n.
          go_bind (go_make (unat mLen)) (\<lambda>out.
            let rb = big_bytes (big_exp (big_of b) (big_of e) (big_of n)) in
            Ret (if length rb \<le> unat mLen
                 then copy_at out (unat mLen - length rb) rb
                 else copy_at out 0 (drop (length rb - unat mLen) rb), gas, None))))))))"

section \<open>The curve bn256\<close>

definition bn256Add :: "lib \<Rightarrow> bytes \<Rightarrow> u64 \<Rightarrow> pc_result go" where
  "bn256Add L input gas = pay 150 gas (\<lambda>gas.
     let in' = padded 128 input in
     case bn_g1_unmarshal L (take 64 in') of None \<Rightarrow> Ret (replicate 64 0, gas, None)
     | Some p1 \<Rightarrow>
        (case bn_g1_unmarshal L (drop 64 in') of None \<Rightarrow> Ret (replicate 64 0, gas, None)
         | Some p2 \<Rightarrow> Ret (bn_g1_marshal L (bn_g1_add L p1 p2), gas, None)))"

definition bn256ScalarMul :: "lib \<Rightarrow> bytes \<Rightarrow> u64 \<Rightarrow> pc_result go" where
  "bn256ScalarMul L input gas = pay 6000 gas (\<lambda>gas.
     let in' = padded 96 input in
     case bn_g1_unmarshal L (take 64 in') of None \<Rightarrow> Ret (replicate 64 0, gas, None)
     | Some p \<Rightarrow>
        Ret (bn_g1_marshal L (bn_g1_scalar_mult L p (big_of (take 32 (drop 64 in')))), gas, None))"

text \<open>
  The loop over the pairs: \<open>Inl ()\<close> is the early return for a point that does not decode.  \<open>acc\<close> is
  the marshalled pairing, \<open>None\<close> while it is nil.
\<close>

fun pairing_loop :: "lib \<Rightarrow> nat \<Rightarrow> bytes \<Rightarrow> bytes option \<Rightarrow> unit + bytes option" where
  "pairing_loop L 0 input acc = Inr acc"
| "pairing_loop L (Suc k) input acc =
     (case bn_g1_unmarshal L (take 64 input) of None \<Rightarrow> Inl ()
      | Some g1 \<Rightarrow>
         (case bn_g2_unmarshal L (take 128 (drop 64 input)) of None \<Rightarrow> Inl ()
          | Some g2 \<Rightarrow>
              pairing_loop L k (drop 192 input)
                (case acc of None \<Rightarrow> Some (bn_pair_marshal L g1 g2) | Some a \<Rightarrow> Some a)))"

definition bn256Pairing :: "lib \<Rightarrow> bytes \<Rightarrow> u64 \<Rightarrow> pc_result go" where
  "bn256Pairing L input gas =
     (if length input mod 192 \<noteq> 0 then Ret ([], gas, Some Pc_InvalidLength)
      else let k = length input div 192 in
        pay (45000 + 34000 * of_nat k) gas (\<lambda>gas.
          let out = replicate 32 0; one = replicate 31 0 @ [1] in
          if length input = 0 then Ret (one, gas, None)
          else case pairing_loop L k input None of
            Inl _ \<Rightarrow> Ret (out, gas, None)
          | Inr None \<Rightarrow> Ret (out, gas, None)
          | Inr (Some m) \<Rightarrow>
              if m = [] then Panic
              else Ret (if list_all (\<lambda>b. b = 0) (drop 1 m) \<and> m ! 0 = 1 then one else out, gas, None)))"

definition newG1Point :: "lib \<Rightarrow> bytes \<Rightarrow> bytes \<times> pc_error option" where
  "newG1Point L dat =
     (case bn_g1_unmarshal L dat of None \<Rightarrow> ([], Some Pc_InvalidPoint) | Some p \<Rightarrow> (p, None))"

definition newG2Point :: "lib \<Rightarrow> bytes \<Rightarrow> bytes \<times> pc_error option" where
  "newG2Point L dat =
     (case bn_g2_unmarshal L dat of None \<Rightarrow> ([], Some Pc_InvalidPoint) | Some p \<Rightarrow> (p, None))"

section \<open>The BLAKE2b compression\<close>

definition bits64RotR :: "u64 \<Rightarrow> nat \<Rightarrow> u64" where
  "bits64RotR x n = drop_bit n x OR push_bit (64 - n) x"

definition blake_iv :: "u64 list" where
  "blake_iv =
     [0x6a09e667f3bcc908, 0xbb67ae8584caa73b,
      0x3c6ef372fe94f82b, 0xa54ff53a5f1d36f1,
      0x510e527fade682d1, 0x9b05688c2b3e6c1f,
      0x1f83d9abfb41bd6b, 0x5be0cd19137e2179]"

definition blake_sigma :: "nat list list" where
  "blake_sigma =
     [[0, 1, 2, 3, 4, 5, 6, 7, 8, 9, 10, 11, 12, 13, 14, 15],
      [14, 10, 4, 8, 9, 15, 13, 6, 1, 12, 0, 2, 11, 7, 5, 3],
      [11, 8, 12, 0, 5, 2, 15, 13, 10, 14, 3, 6, 7, 1, 9, 4],
      [7, 9, 3, 1, 13, 12, 11, 14, 2, 6, 5, 10, 4, 0, 15, 8],
      [9, 0, 5, 7, 2, 4, 10, 15, 14, 1, 11, 12, 6, 8, 3, 13],
      [2, 12, 6, 10, 0, 11, 8, 3, 4, 13, 7, 5, 15, 14, 1, 9],
      [12, 5, 1, 15, 14, 13, 4, 10, 0, 7, 6, 3, 9, 2, 8, 11],
      [13, 11, 7, 14, 12, 1, 3, 9, 5, 0, 15, 4, 8, 6, 2, 10],
      [6, 15, 14, 9, 11, 3, 0, 8, 12, 2, 13, 7, 1, 4, 10, 5],
      [10, 2, 8, 4, 7, 6, 1, 5, 15, 11, 9, 14, 3, 12, 13, 0],
      [0, 1, 2, 3, 4, 5, 6, 7, 8, 9, 10, 11, 12, 13, 14, 15],
      [14, 10, 4, 8, 9, 15, 13, 6, 1, 12, 0, 2, 11, 7, 5, 3]]"

text \<open>The mixing function \<open>g\<close> on the work vector.\<close>

definition blake_g :: "nat \<Rightarrow> nat \<Rightarrow> nat \<Rightarrow> nat \<Rightarrow> u64 \<Rightarrow> u64 \<Rightarrow> u64 list \<Rightarrow> u64 list" where
  "blake_g a b c d x y v0 =
     (let v1 = v0[a := v0 ! a + v0 ! b + x];
          v2 = v1[d := bits64RotR (v1 ! d XOR v1 ! a) 32];
          v3 = v2[c := v2 ! c + v2 ! d];
          v4 = v3[b := bits64RotR (v3 ! b XOR v3 ! c) 24];
          v5 = v4[a := v4 ! a + v4 ! b + y];
          v6 = v5[d := bits64RotR (v5 ! d XOR v5 ! a) 16];
          v7 = v6[c := v6 ! c + v6 ! d]
      in v7[b := bits64RotR (v7 ! b XOR v7 ! c) 63])"

definition blake_round :: "u64 list \<Rightarrow> nat list \<Rightarrow> u64 list \<Rightarrow> u64 list" where
  "blake_round m s v =
     (blake_g 3 4 9 14 (m ! (s ! 14)) (m ! (s ! 15)) \<circ>
      blake_g 2 7 8 13 (m ! (s ! 12)) (m ! (s ! 13)) \<circ>
      blake_g 1 6 11 12 (m ! (s ! 10)) (m ! (s ! 11)) \<circ>
      blake_g 0 5 10 15 (m ! (s ! 8)) (m ! (s ! 9)) \<circ>
      blake_g 3 7 11 15 (m ! (s ! 6)) (m ! (s ! 7)) \<circ>
      blake_g 2 6 10 14 (m ! (s ! 4)) (m ! (s ! 5)) \<circ>
      blake_g 1 5 9 13 (m ! (s ! 2)) (m ! (s ! 3)) \<circ>
      blake_g 0 4 8 12 (m ! (s ! 0)) (m ! (s ! 1))) v"

definition blake_rounds :: "nat \<Rightarrow> u64 list \<Rightarrow> u64 list \<Rightarrow> u64 list" where
  "blake_rounds rounds m v = foldl (\<lambda>v i. blake_round m (blake_sigma ! (i mod 12)) v) v [0..<rounds]"

definition blake_init :: "u64 list \<Rightarrow> u64 \<Rightarrow> u64 \<Rightarrow> bool \<Rightarrow> u64 list" where
  "blake_init h t0 t1 final =
     (let v = h @ take 4 blake_iv @
            [blake_iv ! 4 XOR t0, blake_iv ! 5 XOR t1, blake_iv ! 6, blake_iv ! 7]
      in if final then v[14 := v ! 14 XOR 0xffffffffffffffff] else v)"

definition blake2bF :: "u64 list \<Rightarrow> u64 list \<Rightarrow> u64 \<Rightarrow> u64 \<Rightarrow> bool \<Rightarrow> u32 \<Rightarrow> u64 list" where
  "blake2bF h m t0 t1 final rounds =
     (let v = blake_rounds (unat rounds) m (blake_init h t0 t1 final)
      in map (\<lambda>i. h ! i XOR (v ! i XOR v ! (i + 8))) [0..<8])"

text \<open>\<open>binary.LittleEndian.Uint64\<close> at an offset, and \<open>PutUint64\<close>.\<close>

definition le64 :: "bytes \<Rightarrow> nat \<Rightarrow> u64" where
  "le64 bs off = be_word (rev (take 8 (drop off bs)))"

definition put_le64 :: "u64 \<Rightarrow> bytes" where
  "put_le64 w = rev (be_bytes 8 w)"

definition blake2F :: "bytes \<Rightarrow> u64 \<Rightarrow> pc_result go" where
  "blake2F input gas =
     (if length input \<noteq> 213 then Ret ([], gas, Some Pc_InvalidLength)
      else let rounds = (be_word (take 4 input) :: u32) in
        pay (ucast rounds) gas (\<lambda>gas.
          let h = map (\<lambda>i. le64 input (4 + i * 8)) [0..<8];
              m = map (\<lambda>i. le64 input (68 + i * 8)) [0..<16];
              t0 = le64 input 196;
              t1 = le64 input 204;
              final = (input ! 212 \<noteq> 0)
          in Ret (concat (map put_le64 (blake2bF h m t0 t1 final rounds)), gas, None)))"

section \<open>Dispatch\<close>

definition dispatch :: "lib \<Rightarrow> byte \<Rightarrow> bytes \<Rightarrow> u64 \<Rightarrow> pc_result go" where
  "dispatch L i input gas =
     (if i = 1 then ecRecover L input gas
      else if i = 2 then sha256hash input gas
      else if i = 3 then ripemd160hash L input gas
      else if i = 4 then identity input gas
      else if i = 5 then modexp input gas
      else if i = 6 then bn256Add L input gas
      else if i = 7 then bn256ScalarMul L input gas
      else if i = 8 then bn256Pairing L input gas
      else if i = 9 then blake2F input gas
      else Ret ([], gas, None))"

definition Precompile_Run :: "lib \<Rightarrow> Address \<Rightarrow> bytes \<Rightarrow> u64 \<Rightarrow> (bytes \<times> u64 \<times> bool) go" where
  "Precompile_Run L addr input gas =
     (if list_ex (\<lambda>i. addr ! i \<noteq> 0) [0..<19] then Ret ([], gas, False)
      else let i = addr ! 19 in
        if i = 0 \<or> i > 9 then Ret ([], gas, False)
        else go_bind (dispatch L i input gas) (\<lambda>(out, gasLeft, err).
          case err of Some _ \<Rightarrow> Ret ([], 0, True) | None \<Rightarrow> Ret (out, gasLeft, True)))"

definition IsPrecompile :: "Address \<Rightarrow> bool" where
  "IsPrecompile addr \<longleftrightarrow>
     list_all (\<lambda>i. addr ! i = 0) [0..<19] \<and> addr ! 19 \<ge> 1 \<and> addr ! 19 \<le> 9"

end
