(* ===== verification/EVM.thy ===== *)
theory EVM
  imports Interp Precompile
begin

text \<open>
  The virtual machine (\<open>evm/evm.go\<close>): message execution, calls and creates, the derivation of contract
  addresses and the intrinsic gas.  The operations take \<open>run\<close>, the \<open>Run\<close> of the EVM's interpreter,
  whose call handler is the EVM itself; \<open>handler_at\<close> ties that knot, with one fuel for the nesting of
  calls and one for the steps of each loop.
\<close>

record AccessListEntry =
  ale_Address :: Address
  ale_Slots :: "Hash list"

record Message =
  msg_From :: Address
  msg_To :: "Address option"
  msg_Gas :: u64
  msg_Value :: "word256 option"
  msg_Data :: bytes
  msg_GasPrice :: u64
  msg_ApplyIntrinsicGas :: bool
  msg_AccessList :: "AccessListEntry list"

record Result =
  res_ReturnData :: bytes
  res_GasUsed :: u64
  res_GasLeft :: u64
  res_Err :: "error option"
  res_ContractAddress :: "Address option"

type_synonym runner = "machine \<Rightarrow> (machine \<times> ExecResult) go"

text \<open>The zero \<open>Result\<close>, of which a literal sets some fields.\<close>

definition zero_Result :: Result where
  "zero_Result = \<lparr>res_ReturnData = [], res_GasUsed = 0, res_GasLeft = 0, res_Err = None,
     res_ContractAddress = None\<rparr>"

definition zero_Message :: Message where
  "zero_Message = \<lparr>msg_From = ZeroAddress, msg_To = None, msg_Gas = 0, msg_Value = None, msg_Data = [],
     msg_GasPrice = 0, msg_ApplyIntrinsicGas = False, msg_AccessList = []\<rparr>"

section \<open>Construction\<close>

definition EVM_New :: "DB \<Rightarrow> Config \<Rightarrow> EVM" where
  "EVM_New db cfg =
     \<lparr>e_db = db, e_config = cfg,
      e_block = \<lparr>blk_Coinbase = cfg_Coinbase cfg, blk_BlockNumber = cfg_BlockNumber cfg,
        blk_Time = cfg_Time cfg, blk_Difficulty = SetUint64 (cfg_Difficulty cfg),
        blk_GasLimit = cfg_GasLimit cfg, blk_BaseFee = SetUint64 (cfg_BaseFee cfg),
        blk_ChainID = SetUint64 (cfg_ChainID cfg)\<rparr>,
      e_tx = \<lparr>tx_Origin = ZeroAddress, tx_GasPrice = 0\<rparr>,
      e_tracer = False, e_captures = [],
      e_callTracer = (if cfg_Trace cfg then Some new_CallTracer else None),
      e_jumpdestCache = (\<lambda>_. None), e_pool = [], e_picks = []\<rparr>"

definition EVM_Tracer :: "EVM \<Rightarrow> CallTracer option" where
  "EVM_Tracer e = e_callTracer e"

definition NewFromFork :: "u64 \<Rightarrow> Config \<Rightarrow> EVM" where
  "NewFromFork n cfg = EVM_New (ForkedDB (new_ForkDB n)) cfg"

section \<open>Contract addresses and intrinsic gas\<close>

definition keccak256Hash :: "lib \<Rightarrow> bytes \<Rightarrow> Hash" where
  "keccak256Hash L dat = keccak L dat"

text \<open>The loop that writes the bytes of a nonce from the last one down.\<close>

function nonce_bytes :: "u64 \<Rightarrow> bytes" where
  "nonce_bytes n = (if n > 0 then nonce_bytes (drop_bit 8 n) @ [ucast n] else [])"
  by pat_completeness auto
termination
proof (relation "measure unat", simp)
  fix n :: u64
  assume "0 < n"
  then have "0 < unat n" by (simp add: word_greater_zero_iff unat_gt_0)
  then show "(drop_bit 8 n, n) \<in> measure unat"
    by (simp add: unat_div drop_bit_eq_div)
qed

declare nonce_bytes.simps [simp del]

definition rlp_nonce :: "u64 \<Rightarrow> bytes" where
  "rlp_nonce nonce =
     (if nonce = 0 then [0x80]
      else if nonce < 0x80 then [ucast nonce]
      else (0x80 + of_nat (length (nonce_bytes nonce))) # nonce_bytes nonce)"

definition rlp_create :: "Address \<Rightarrow> u64 \<Rightarrow> bytes" where
  "rlp_create deployer nonce =
     (let addrEncoded = 0x94 # deployer; nonceEncoded = rlp_nonce nonce
      in (0xc0 + of_nat (length addrEncoded + length nonceEncoded)) # addrEncoded @ nonceEncoded)"

definition createAddress :: "lib \<Rightarrow> Address \<Rightarrow> u64 \<Rightarrow> Address" where
  "createAddress L deployer nonce =
     copy_at (replicate 20 0) 0 (drop 12 (keccak256Hash L (rlp_create deployer nonce)))"

definition create2_buf :: "lib \<Rightarrow> Address \<Rightarrow> bytes \<Rightarrow> bytes \<Rightarrow> bytes" where
  "create2_buf L deployer salt initCode =
     (let b0 = (replicate 85 0)[0 := 0xff];
          b1 = copy_at b0 1 (take 20 deployer);
          b2 = copy_at b1 21 (take 32 salt)
      in copy_at b2 53 (take 32 (keccak256Hash L initCode)))"

definition create2Address :: "lib \<Rightarrow> Address \<Rightarrow> bytes \<Rightarrow> bytes \<Rightarrow> Address" where
  "create2Address L deployer salt initCode =
     copy_at (replicate 20 0) 0 (drop 12 (keccak256Hash L (create2_buf L deployer salt initCode)))"

definition intrinsicGas :: "bytes \<Rightarrow> bool \<Rightarrow> AccessListEntry list \<Rightarrow> u64" where
  "intrinsicGas dat isCreate accessList =
     (let g0 = 21000;
          g1 = (if isCreate then g0 + 32000 else g0);
          g2 = foldl (\<lambda>g b. if b = 0 then g + 4 else g + 16) g1 dat
      in foldl (\<lambda>g entry. g + 2400 + of_nat (length (ale_Slots entry)) * 1900) g2 accessList)"

section \<open>Calls\<close>

definition newFrame :: "EVM \<Rightarrow> bytes \<Rightarrow> Address \<Rightarrow> Address \<Rightarrow> Message \<Rightarrow> machine" where
  "newFrame e code contract caller msg =
     (case AcquireFrame e of (f, e') \<Rightarrow>
        \<lparr>evm = e',
         fr = f\<lparr>Code := code, Gas := msg_Gas msg, Contract := contract, Caller := caller,
           Input := msg_Data msg,
           f_Value := (case msg_Value msg of Some v \<Rightarrow> v | None \<Rightarrow> 0),
           f_Tracer := e_tracer e\<rparr>\<rparr>)"

definition upd_db :: "(DB \<Rightarrow> DB) \<Rightarrow> EVM \<Rightarrow> EVM" where
  "upd_db g e = e\<lparr>e_db := g (e_db e)\<rparr>"

text \<open>A database read of the EVM.\<close>

definition ask :: "(DB \<Rightarrow> 'a \<times> DB) \<Rightarrow> EVM \<Rightarrow> ('a \<Rightarrow> EVM \<Rightarrow> 'r) \<Rightarrow> 'r" where
  "ask g e k = (case g (e_db e) of (x, d) \<Rightarrow> k x (e\<lparr>e_db := d\<rparr>))"

definition trace_enter ::
  "CallType \<Rightarrow> Address \<Rightarrow> Address \<Rightarrow> bytes \<Rightarrow> u64 \<Rightarrow> word256 option \<Rightarrow> EVM \<Rightarrow> EVM" where
  "trace_enter ct caller contract input gas val e =
     (case e_callTracer e of
        Some t \<Rightarrow> if Enabled t then e\<lparr>e_callTracer := Some (OnEnter t ct caller contract input gas val)\<rparr> else e
      | None \<Rightarrow> e)"

definition trace_exit :: "bytes \<Rightarrow> u64 \<Rightarrow> error option \<Rightarrow> EVM \<Rightarrow> EVM" where
  "trace_exit output gasUsed err e =
     (case e_callTracer e of
        Some t \<Rightarrow> if Enabled t then e\<lparr>e_callTracer := Some (OnExit t output gasUsed err)\<rparr> else e
      | None \<Rightarrow> e)"

text \<open>\<open>f := newFrame(...); r := e.interp.Run(f); interpreter.ReleaseFrame(f)\<close>, after \<open>g\<close> set up the frame.\<close>

definition run_frame ::
  "runner \<Rightarrow> (Frame \<Rightarrow> Frame) \<Rightarrow> EVM \<Rightarrow> bytes \<Rightarrow> Address \<Rightarrow> Address \<Rightarrow> Message \<Rightarrow> (EVM \<times> ExecResult) go" where
  "run_frame run g e code contract caller msg =
     go_bind (run (upd_fr g (newFrame e code contract caller msg))) (\<lambda>(m, r).
       Ret (ReleaseFrame (evm m) (fr m), r))"

text \<open>
  The transfer of \<open>execCall\<close> and \<open>create\<close>: \<open>None\<close> when the payer's balance does not cover a non-zero
  value.
\<close>

definition transfer :: "lib \<Rightarrow> EVM \<Rightarrow> Address \<Rightarrow> Address \<Rightarrow> word256 option \<Rightarrow> EVM option \<times> EVM" where
  "transfer L e payer payee val =
     (case val of
        None \<Rightarrow> (Some e, e)
      | Some v \<Rightarrow>
          if v = 0 then (Some e, e)
          else ask (\<lambda>d. db_GetBalance L d payer) e (\<lambda>bal e1.
            if u_lt L bal v then (None, e1)
            else (Some (upd_db (\<lambda>d. db_AddBalance L (db_SubBalance L d payer v) payee v) e1), e1)))"

definition run_code ::
  "lib \<Rightarrow> runner \<Rightarrow> EVM \<Rightarrow> nat \<Rightarrow> Message \<Rightarrow> CallType \<Rightarrow> Address \<Rightarrow> Address \<Rightarrow> (EVM \<times> Result) go" where
  "run_code L run e snap msg ct contract caller =
     ask (\<lambda>d. db_GetCode L d contract) e (\<lambda>code e1.
       if length code = 0 then Ret (e1, zero_Result\<lparr>res_GasLeft := msg_Gas msg\<rparr>)
       else
         let e2 = trace_enter ct caller contract (msg_Data msg) (msg_Gas msg) (msg_Value msg) e1 in
         go_bind (run_frame run (\<lambda>f. f) e2 code contract caller msg) (\<lambda>(e3, r).
           let e4 = trace_exit (r_ReturnData r) (msg_Gas msg - r_GasLeft r) (r_Err r) e3;
               e5 = (if r_Err r \<noteq> None then upd_db (\<lambda>d. db_RevertToSnapshot d snap) e4 else e4)
           in Ret (e5, \<lparr>res_ReturnData = r_ReturnData r, res_GasUsed = msg_Gas msg - r_GasLeft r,
                        res_GasLeft = r_GasLeft r, res_Err = r_Err r, res_ContractAddress = None\<rparr>)))"

definition call_contract ::
  "lib \<Rightarrow> runner \<Rightarrow> EVM \<Rightarrow> Message \<Rightarrow> CallType \<Rightarrow> Address \<Rightarrow> Address \<Rightarrow> (EVM \<times> Result) go" where
  "call_contract L run e msg ct contract caller =
     (case db_Snapshot (e_db e) of (snap, d0) \<Rightarrow>
        let e1 = upd_db (\<lambda>d. db_WarmAddress (db_WarmAddress d caller) contract) (e\<lparr>e_db := d0\<rparr>) in
        if ct = CallTypeCall \<or> ct = CallTypeCallCode then
          (case transfer L e1 caller contract (msg_Value msg) of
             (None, e2) \<Rightarrow>
               Ret (upd_db (\<lambda>d. db_RevertToSnapshot d snap) e2,
                    zero_Result\<lparr>res_Err := Some ErrInsufficientFunds, res_GasUsed := msg_Gas msg\<rparr>)
           | (Some e2, _) \<Rightarrow> run_code L run e2 snap msg ct contract caller)
        else run_code L run e1 snap msg ct contract caller)"

definition EVM_execCall ::
  "lib \<Rightarrow> runner \<Rightarrow> EVM \<Rightarrow> Message \<Rightarrow> CallType \<Rightarrow> Address \<Rightarrow> Address \<Rightarrow> (EVM \<times> Result) go" where
  "EVM_execCall L run e msg ct contract caller =
     (if ct \<noteq> CallTypeDelegateCall then
        go_bind (Precompile_Run L contract (msg_Data msg) (msg_Gas msg)) (\<lambda>(out, gasLeft, isPrecompile).
          if isPrecompile
          then Ret (e, zero_Result\<lparr>res_ReturnData := out, res_GasLeft := gasLeft,
                 res_GasUsed := msg_Gas msg - gasLeft\<rparr>)
          else call_contract L run e msg ct contract caller)
      else call_contract L run e msg ct contract caller)"

text \<open>The address of the new contract, from the creator's nonce or from the salt.\<close>

definition contract_address :: "lib \<Rightarrow> EVM \<Rightarrow> Message \<Rightarrow> bytes option \<Rightarrow> Address \<times> EVM" where
  "contract_address L e msg salt =
     (case salt of
        None \<Rightarrow> ask (\<lambda>d. db_GetNonce L d (msg_From msg)) e
          (\<lambda>nonce e'. (createAddress L (msg_From msg) nonce, e'))
      | Some s \<Rightarrow> (create2Address L (msg_From msg) s (msg_Data msg), e))"

text \<open>The creator's nonce and the new account.\<close>

definition init_account :: "lib \<Rightarrow> EVM \<Rightarrow> Message \<Rightarrow> Address \<Rightarrow> EVM" where
  "init_account L e msg contractAddr =
     ask (\<lambda>d. db_GetNonce L d (msg_From msg)) e (\<lambda>nonce.
       upd_db (\<lambda>d. db_WarmAddress (db_SetNonce L (db_CreateAccount L
         (db_SetNonce L d (msg_From msg) (nonce + 1)) contractAddr) contractAddr 1) contractAddr))"

text \<open>What follows the run of the init code.\<close>

definition finish_create :: "lib \<Rightarrow> nat \<Rightarrow> Address \<Rightarrow> Message \<Rightarrow> EVM \<Rightarrow> ExecResult \<Rightarrow> EVM \<times> Result" where
  "finish_create L snap contractAddr msg e r =
     (if r_Err r \<noteq> None \<and> r_Err r \<noteq> Some ErrRevert then
        (upd_db (\<lambda>d. db_RevertToSnapshot d snap) e,
         zero_Result\<lparr>res_Err := r_Err r, res_GasUsed := msg_Gas msg - r_GasLeft r\<rparr>)
      else if r_Err r = Some ErrRevert then
        (upd_db (\<lambda>d. db_RevertToSnapshot d snap) e,
         zero_Result\<lparr>res_Err := r_Err r, res_ReturnData := r_ReturnData r,
           res_GasUsed := msg_Gas msg - r_GasLeft r\<rparr>)
      else
        (upd_db (\<lambda>d. db_SetCode L d contractAddr (r_ReturnData r) (keccak256Hash L (r_ReturnData r))) e,
         \<lparr>res_ReturnData = r_ReturnData r, res_GasUsed = msg_Gas msg - r_GasLeft r,
          res_GasLeft = r_GasLeft r, res_Err = None, res_ContractAddress = Some contractAddr\<rparr>))"

definition EVM_create ::
  "lib \<Rightarrow> runner \<Rightarrow> EVM \<Rightarrow> Message \<Rightarrow> bytes option \<Rightarrow> (EVM \<times> Result) go" where
  "EVM_create L run e msg salt =
     (case db_Snapshot (e_db e) of (snap, d0) \<Rightarrow>
      case contract_address L (e\<lparr>e_db := d0\<rparr>) msg salt of (contractAddr, e1) \<Rightarrow>
        (case transfer L (init_account L e1 msg contractAddr) (msg_From msg) contractAddr (msg_Value msg) of
           (None, e2) \<Rightarrow>
             Ret (upd_db (\<lambda>d. db_RevertToSnapshot d snap) e2,
                  zero_Result\<lparr>res_Err := Some ErrInsufficientFunds, res_GasUsed := msg_Gas msg\<rparr>)
         | (Some e2, _) \<Rightarrow>
             go_bind (run_frame run (\<lambda>f. f) e2 (msg_Data msg) contractAddr (msg_From msg) msg)
               (\<lambda>(e3, r). Ret (finish_create L snap contractAddr msg e3 r))))"

section \<open>The call handler\<close>

text \<open>The branch of \<open>Call\<close> for STATICCALL.\<close>

definition static_call ::
  "lib \<Rightarrow> runner \<Rightarrow> EVM \<Rightarrow> Frame \<Rightarrow> Message \<Rightarrow> Address \<Rightarrow> Address \<Rightarrow> Address \<Rightarrow> (EVM \<times> Result) go" where
  "static_call L run e parent msg codeAddr contract caller =
     (case db_Snapshot (e_db e) of (snap, d0) \<Rightarrow>
        ask (\<lambda>d. db_GetCode L d codeAddr) (e\<lparr>e_db := d0\<rparr>) (\<lambda>code e1.
          go_bind (run_frame run (\<lambda>f. f\<lparr>Static := True, Depth := Depth parent + 1\<rparr>) e1 code contract caller msg)
            (\<lambda>(e2, r).
              Ret (if r_Err r \<noteq> None \<and> r_Err r \<noteq> Some ErrRevert
                   then upd_db (\<lambda>d. db_RevertToSnapshot d snap) e2 else e2,
                   zero_Result\<lparr>res_ReturnData := r_ReturnData r, res_GasLeft := r_GasLeft r,
                     res_Err := r_Err r\<rparr>))))"

text \<open>The branch for CALLCODE and DELEGATECALL, and its check of the balance.\<close>

definition lacks_funds :: "lib \<Rightarrow> EVM \<Rightarrow> CallType \<Rightarrow> Address \<Rightarrow> u64 \<Rightarrow> bool \<times> EVM" where
  "lacks_funds L e ct caller val =
     (if ct = CallTypeCallCode \<and> val > 0
      then ask (\<lambda>d. db_GetBalance L d caller) e (\<lambda>bal e'. (u_lt L bal (SetUint64 val), e'))
      else (False, e))"

definition foreign_code_call ::
  "lib \<Rightarrow> runner \<Rightarrow> EVM \<Rightarrow> Frame \<Rightarrow> CallType \<Rightarrow> Message \<Rightarrow> u64 \<Rightarrow> Address \<Rightarrow> Address \<Rightarrow> Address \<Rightarrow>
    (EVM \<times> Result) go" where
  "foreign_code_call L run e parent ct msg val codeAddr contract caller =
     (case db_Snapshot (e_db e) of (snap, d0) \<Rightarrow>
        ask (\<lambda>d. db_GetCode L d codeAddr) (e\<lparr>e_db := d0\<rparr>) (\<lambda>code e1.
          case lacks_funds L e1 ct caller val of (poor, e2) \<Rightarrow>
          if poor then
            Ret (e2, zero_Result\<lparr>res_GasLeft := msg_Gas msg, res_Err := Some ErrInsufficientFunds\<rparr>)
          else if length code = 0 then Ret (e2, zero_Result\<lparr>res_GasLeft := msg_Gas msg\<rparr>)
          else
            let e3 = trace_enter ct caller contract (msg_Data msg) (msg_Gas msg) (Some (SetUint64 val)) e2 in
            go_bind (run_frame run (\<lambda>f. f\<lparr>Depth := Depth parent + 1\<rparr>) e3 code contract caller msg)
              (\<lambda>(e4, r).
                let e5 = trace_exit (r_ReturnData r) (msg_Gas msg - r_GasLeft r) (r_Err r) e4
                in Ret (if r_Err r \<noteq> None then upd_db (\<lambda>d. db_RevertToSnapshot d snap) e5 else e5,
                        zero_Result\<lparr>res_ReturnData := r_ReturnData r, res_GasLeft := r_GasLeft r,
                          res_Err := r_Err r\<rparr>))))"

definition EVM_Call ::
  "lib \<Rightarrow> runner \<Rightarrow> EVM \<Rightarrow> Frame \<Rightarrow> CallType \<Rightarrow> Address \<Rightarrow> u64 \<Rightarrow> u64 \<Rightarrow> bytes \<Rightarrow>
    (EVM \<times> bytes \<times> u64 \<times> error option) go" where
  "EVM_Call L run e parent ct addr val gasIn input =
     (if Depth parent + 1 \<ge> MaxCallDepth then Ret (e, [], gasIn, Some ErrDepthLimit)
      else
        let caller = (if ct = CallTypeDelegateCall then Caller parent else Contract parent);
            contract = (if ct = CallTypeDelegateCall \<or> ct = CallTypeCallCode then Contract parent else addr);
            msg = zero_Message\<lparr>msg_From := caller, msg_To := Some contract, msg_Gas := gasIn,
              msg_Value := Some (SetUint64 val), msg_Data := input\<rparr>
        in go_bind
          (if ct = CallTypeStaticCall then static_call L run e parent msg addr contract caller
           else if ct = CallTypeCallCode \<or> ct = CallTypeDelegateCall
           then foreign_code_call L run e parent ct msg val addr contract caller
           else EVM_execCall L run e msg ct contract caller)
          (\<lambda>(e', res). Ret (e', res_ReturnData res, res_GasLeft res, res_Err res)))"

definition EVM_Create ::
  "lib \<Rightarrow> runner \<Rightarrow> EVM \<Rightarrow> Frame \<Rightarrow> u64 \<Rightarrow> bytes \<Rightarrow> bytes option \<Rightarrow>
    (EVM \<times> Address \<times> u64 \<times> error option) go" where
  "EVM_Create L run e parent val initCode salt =
     (if Depth parent + 1 \<ge> MaxCallDepth then Ret (e, ZeroAddress, 0, Some ErrDepthLimit)
      else
        let msg = zero_Message\<lparr>msg_From := Contract parent, msg_Gas := Gas parent,
              msg_Value := Some (SetUint64 val), msg_Data := initCode\<rparr>
        in go_bind (EVM_create L run e msg salt) (\<lambda>(e', res).
             Ret (e', (case res_ContractAddress res of Some a \<Rightarrow> a | None \<Rightarrow> ZeroAddress),
                  res_GasLeft res, res_Err res)))"

text \<open>\<open>interpreter.New(e)\<close>: the EVM is the handler of its own interpreter.\<close>

fun handler_at :: "lib \<Rightarrow> nat \<Rightarrow> nat \<Rightarrow> handler" where
  "handler_at L fuel 0 =
     \<lparr>h_Call = (\<lambda>e parent ct addr val gasIn input. NoFuel),
      h_Create = (\<lambda>e parent val initCode salt. NoFuel)\<rparr>"
| "handler_at L fuel (Suc d) =
     \<lparr>h_Call = EVM_Call L (Run L (handler_at L fuel d) fuel),
      h_Create = EVM_Create L (Run L (handler_at L fuel d) fuel)\<rparr>"

definition EVM_run :: "lib \<Rightarrow> nat \<Rightarrow> nat \<Rightarrow> runner" where
  "EVM_run L fuel d = Run L (handler_at L fuel d) fuel"

section \<open>Messages\<close>

definition precompile_addresses :: "Address list" where
  "precompile_addresses = map (\<lambda>i. replicate 19 0 @ [of_nat i]) [1..<10]"

definition warm_all :: "Message \<Rightarrow> DB \<Rightarrow> DB" where
  "warm_all msg d =
     foldl (\<lambda>d entry. foldl (\<lambda>d slot. db_WarmSlot d (ale_Address entry) slot)
         (db_WarmAddress d (ale_Address entry)) (ale_Slots entry))
       (foldl db_WarmAddress d precompile_addresses) (msg_AccessList msg)"

text \<open>What \<open>Execute\<close> does after the call: the refunds, \<open>Finalise\<close> and the coinbase's tip.\<close>

definition settle :: "lib \<Rightarrow> Message \<Rightarrow> u64 \<Rightarrow> Result \<Rightarrow> EVM \<Rightarrow> EVM" where
  "settle L msg origGas result e =
     (let refund = u_mul L (SetUint64 (res_GasLeft result)) (SetUint64 (msg_GasPrice msg));
          e1 = upd_db (\<lambda>d. db_AddBalance L d (msg_From msg) refund) e;
          totalGasUsed = origGas - res_GasLeft result;
          e2 = (if res_Err result = None \<or> res_Err result = Some ErrRevert then
                  let maxRefund = totalGasUsed div gas_MaxRefundQuotient;
                      r0 = db_GetRefund (e_db e1);
                      r = (if r0 > maxRefund then maxRefund else r0)
                  in if r > 0
                     then upd_db (\<lambda>d. db_AddBalance L d (msg_From msg) (SetUint64 (r * msg_GasPrice msg))) e1
                     else e1
                else e1);
          e3 = upd_db db_Finalise e2
      in if msg_GasPrice msg > cfg_BaseFee (e_config e3) then
           let tip = msg_GasPrice msg - cfg_BaseFee (e_config e3);
               fee = u_mul L (SetUint64 totalGasUsed) (SetUint64 tip)
           in if fee \<noteq> 0 then upd_db (\<lambda>d. db_AddBalance L d (cfg_Coinbase (e_config e3)) fee) e3 else e3
         else e3)"

text \<open>The charge of the upfront cost, the nonce, the transaction context and the warm sets.\<close>

definition begin_tx :: "lib \<Rightarrow> Message \<Rightarrow> word256 \<Rightarrow> EVM \<Rightarrow> EVM" where
  "begin_tx L msg upfront e =
     (let e1 = upd_db (\<lambda>d. db_SubBalance L d (msg_From msg) upfront) e
      in ask (\<lambda>d. db_GetNonce L d (msg_From msg)) e1 (\<lambda>nonce e2.
           let e3 = upd_db (\<lambda>d. db_SetNonce L d (msg_From msg) (nonce + 1)) e2;
               e4 = e3\<lparr>e_tx := \<lparr>tx_Origin = msg_From msg, tx_GasPrice = SetUint64 (msg_GasPrice msg)\<rparr>\<rparr>
           in upd_db (warm_all msg) e4))"

definition Execute :: "lib \<Rightarrow> runner \<Rightarrow> EVM \<Rightarrow> Message \<Rightarrow> (EVM \<times> Result) go" where
  "Execute L run e msg =
     (let upfront = u_mul L (SetUint64 (msg_Gas msg)) (SetUint64 (msg_GasPrice msg)) in
      ask (\<lambda>d. db_GetBalance L d (msg_From msg)) e (\<lambda>senderBal e0.
        if u_lt L senderBal upfront
        then Ret (e0, zero_Result\<lparr>res_Err := Some ErrInsufficientFunds, res_GasUsed := msg_Gas msg\<rparr>)
        else
          let e1 = begin_tx L msg upfront e0;
              origGas = msg_Gas msg;
              ig = (if msg_ApplyIntrinsicGas msg
                    then intrinsicGas (msg_Data msg) (msg_To msg = None) (msg_AccessList msg) else 0)
          in if msg_ApplyIntrinsicGas msg \<and> msg_Gas msg < ig
             then Ret (upd_db (\<lambda>d. db_AddBalance L d (msg_From msg) upfront) e1,
                       zero_Result\<lparr>res_Err := Some ErrIntrinsicGas, res_GasUsed := msg_Gas msg\<rparr>)
             else
               let msg' = msg\<lparr>msg_Gas := msg_Gas msg - ig\<rparr> in
               go_bind (case msg_To msg of
                          None \<Rightarrow> EVM_create L run e1 msg' None
                        | Some to \<Rightarrow> EVM_execCall L run e1 msg' CallTypeCall to (msg_From msg))
                 (\<lambda>(e2, result). Ret (settle L msg origGas result e2, result))))"

definition ExecuteWithTrace :: "lib \<Rightarrow> runner \<Rightarrow> EVM \<Rightarrow> Message \<Rightarrow> bool \<Rightarrow> (EVM \<times> Result) go" where
  "ExecuteWithTrace L run e msg tr =
     go_bind (Execute L run (e\<lparr>e_tracer := tr\<rparr>) msg) (\<lambda>(e', r). Ret (e'\<lparr>e_tracer := False\<rparr>, r))"

text \<open>The tracer passed in is read after the call, so it is returned beside the result.\<close>

definition ExecuteWithCallTrace ::
  "lib \<Rightarrow> runner \<Rightarrow> EVM \<Rightarrow> Message \<Rightarrow> CallTracer \<Rightarrow> (EVM \<times> Result \<times> CallTracer option) go" where
  "ExecuteWithCallTrace L run e msg tr =
     go_bind (Execute L run (e\<lparr>e_callTracer := Some tr\<rparr>) msg) (\<lambda>(e', r).
       Ret (e'\<lparr>e_callTracer := None\<rparr>, r, e_callTracer e'))"

end
