(* ===== verification/Journal.thy ===== *)
theory Journal
  imports StateDB
begin

text \<open>
  The journal of the state database: undoing it restores what the getters show.  The argument is made
  once, for any undo log, in the locale \<open>undo_log\<close>: the log's entries are undone in a preorder \<open>le\<close> of
  states, where a state may be followed by one that shows the same through the getters.  The
  interpretation on the model's \<open>undo\<close> discharges its laws, with \<open>le\<close> the relation \<open>same_view C\<close>:
  equal slots everywhere and equal accounts outside the addresses \<open>C\<close>, up to accounts that were absent
  and are now present and empty.  \<open>db_step\<close> lists every method call that may happen between a snapshot and its
  revert; \<open>C\<close> are the addresses at which an account was created over an existing one.
\<close>

section \<open>Undo logs\<close>

fun undoable :: "('e \<Rightarrow> 's \<Rightarrow> 's) \<Rightarrow> ('e \<Rightarrow> 's \<Rightarrow> bool) \<Rightarrow> 'e list \<Rightarrow> 's \<Rightarrow> bool" where
  "undoable u p [] s = True"
| "undoable u p (e # es) s = (p e s \<and> undoable u p es (u e s))"

lemma undoable_append:
  "undoable u p (xs @ ys) s \<longleftrightarrow> undoable u p xs s \<and> undoable u p ys (fold u xs s)"
  by (induction xs arbitrary: s) auto

locale undo_log =
  fixes u :: "'e \<Rightarrow> 's \<Rightarrow> 's"
    and p :: "'e \<Rightarrow> 's \<Rightarrow> bool"
    and le :: "'s \<Rightarrow> 's \<Rightarrow> bool"
  assumes le_refl: "le s s"
    and le_trans: "le r s \<Longrightarrow> le s t \<Longrightarrow> le r t"
    and present_mono: "le s t \<Longrightarrow> p e s \<Longrightarrow> p e t"
    and undo_mono: "le s t \<Longrightarrow> p e s \<Longrightarrow> le (u e s) (u e t)"
begin

lemma undoable_mono:
  "le s t \<Longrightarrow> undoable u p es s \<Longrightarrow> undoable u p es t \<and> le (fold u es s) (fold u es t)"
proof (induction es arbitrary: s t)
  case Nil
  then show ?case by simp
next
  case (Cons e es)
  then have "le (u e s) (u e t)" and "p e t"
    by (auto intro: undo_mono present_mono)
  with Cons show ?case by simp
qed

lemma log_step:
  assumes "undoable u p es s" and "le s0 (fold u es s)"
    and "p e s'" and "le s (u e s')"
  shows "undoable u p (e # es) s' \<and> le s0 (fold u (e # es) s')"
  using undoable_mono [OF assms(4,1)] assms le_trans by auto

lemma silent_step:
  assumes "undoable u p es s" and "le s0 (fold u es s)" and "le s s'"
  shows "undoable u p es s' \<and> le s0 (fold u es s')"
  using undoable_mono [OF assms(3,1)] assms le_trans by auto

end

section \<open>The state database as an undo log\<close>

fun entry_addr :: "journalEntry \<Rightarrow> Address" where
  "entry_addr (jBalance a v) = a"
| "entry_addr (jNonce a v) = a"
| "entry_addr (jCode a v h) = a"
| "entry_addr (jStorage a k v) = a"
| "entry_addr (jCreate a) = a"
| "entry_addr (jSuicide a v) = a"

text \<open>An entry that changes an account finds it, outside \<open>C\<close>.\<close>

definition present :: "Address set \<Rightarrow> journalEntry \<Rightarrow> StateDB \<Rightarrow> bool" where
  "present C e s \<longleftrightarrow>
     entry_addr e \<in> C \<or> (case e of jStorage a k v \<Rightarrow> True | jCreate a \<Rightarrow> True | _ \<Rightarrow> accounts s (entry_addr e) \<noteq> None)"

definition same_view :: "Address set \<Rightarrow> StateDB \<Rightarrow> StateDB \<Rightarrow> bool" where
  "same_view C s t \<longleftrightarrow>
     (\<forall>a. a \<notin> C \<longrightarrow>
        accounts t a = accounts s a \<or> accounts s a = None \<and> accounts t a = Some new_Account)
     \<and> GetStorage t = GetStorage s"

lemma GetStorage_write_slot:
  "GetStorage (write_slot s a k v) =
     (GetStorage s)(a := (GetStorage s a)(k := v))"
  by (auto simp: fun_eq_iff GetStorage_def write_slot_def storageOf_def slot_of_def split: option.splits)

lemma accounts_write_slot [simp]:
  "accounts (write_slot s a k v) = accounts s" "journal (write_slot s a k v) = journal s"
  "snapshots (write_slot s a k v) = snapshots s"
  by (simp_all add: write_slot_def storageOf_def split: option.splits)

lemma GetStorage_cong: "storage s = storage t \<Longrightarrow> GetStorage s = GetStorage t"
  by (simp add: fun_eq_iff GetStorage_def)

lemma upd_account_simps [simp]:
  "storage (upd_account s a f) = storage s" "journal (upd_account s a f) = journal s"
  "snapshots (upd_account s a f) = snapshots s"
  "accounts (upd_account s a f) = (accounts s)(a := map_option f (accounts s a))"
  by (auto simp: upd_account_def put_account_def fun_eq_iff split: option.splits)

lemma undo_simps [simp]:
  "journal (undo e s) = journal s" "snapshots (undo e s) = snapshots s"
  by (cases e; simp)+

lemma fold_undo_simps [simp]:
  "journal (fold undo es s) = journal s" "snapshots (fold undo es s) = snapshots s"
  by (induction es arbitrary: s) simp_all

lemma GetStorage_undo:
  "GetStorage (undo e s) = (case e of jStorage a k v \<Rightarrow> (GetStorage s)(a := (GetStorage s a)(k := v)) | _ \<Rightarrow> GetStorage s)"
  by (cases e) (auto simp: GetStorage_write_slot intro: GetStorage_cong)

lemma same_view_undo:
  assumes "same_view C s t" and "present C e s"
  shows "same_view C (undo e s) (undo e t)"
proof -
  have "accounts (undo e t) a = accounts (undo e s) a
      \<or> accounts (undo e s) a = None \<and> accounts (undo e t) a = Some new_Account"
    if "a \<notin> C" for a
    using assms that by (cases e) (auto simp: same_view_def present_def)
  moreover have "GetStorage (undo e t) = GetStorage (undo e s)"
    using assms by (auto simp: same_view_def GetStorage_undo split: journalEntry.split)
  ultimately show ?thesis by (simp add: same_view_def)
qed

interpretation db_log: undo_log undo "present C" "same_view C" for C
proof unfold_locales
  fix r s t :: StateDB and e
  show "same_view C s s" by (simp add: same_view_def)
  show "same_view C r s \<Longrightarrow> same_view C s t \<Longrightarrow> same_view C r t"
    unfolding same_view_def by (metis option.distinct(1))
  show "same_view C s t \<Longrightarrow> present C e s \<Longrightarrow> present C e t"
    by (cases e) (auto simp: same_view_def present_def)
  show "same_view C s t \<Longrightarrow> present C e s \<Longrightarrow> same_view C (undo e s) (undo e t)"
    by (rule same_view_undo)
qed

section \<open>The method calls between a snapshot and its revert\<close>

inductive db_step :: "lib \<Rightarrow> Address set \<Rightarrow> nat \<Rightarrow> StateDB \<Rightarrow> StateDB \<Rightarrow> bool"
  for L C b where
  step_SetBalance: "db_step L C b s (SetBalance s a v)"
| step_AddBalance: "db_step L C b s (AddBalance L s a v)"
| step_SubBalance: "db_step L C b s (SubBalance L s a v)"
| step_SetNonce: "db_step L C b s (SetNonce s a n)"
| step_SetCode: "db_step L C b s (SetCode s a c h)"
| step_SetStorage: "db_step L C b s (SetStorage s a k v)"
| step_Suicide: "db_step L C b s (Suicide s a)"
| step_CreateAccount: "accounts s a = None \<or> a \<in> C \<Longrightarrow> db_step L C b s (CreateAccount s a)"
| step_GetCommittedStorage: "db_step L C b s (snd (GetCommittedStorage s a k))"
| step_WarmAddress: "db_step L C b s (WarmAddress s a)"
| step_WarmSlot: "db_step L C b s (WarmSlot s a k)"
| step_AddLog: "db_step L C b s (AddLog s l)"
| step_AddRefund: "db_step L C b s (AddRefund s g)"
| step_SubRefund: "db_step L C b s (SubRefund s g)"
| step_Snapshot: "db_step L C b s (snd (Snapshot s))"
| step_Revert: "b < i \<Longrightarrow> db_step L C b s (RevertToSnapshot s i)"

inductive db_reach :: "lib \<Rightarrow> Address set \<Rightarrow> nat \<Rightarrow> StateDB \<Rightarrow> StateDB \<Rightarrow> bool"
  for L C b where
  reach_refl: "db_reach L C b s s"
| reach_step: "db_reach L C b s t \<Longrightarrow> db_step L C b t v \<Longrightarrow> db_reach L C b s v"

lemma db_reach_trans:
  "db_reach L C b t v \<Longrightarrow> db_reach L C b s t \<Longrightarrow> db_reach L C b s v"
  by (induction rule: db_reach.induct) (auto intro: db_reach.intros)

lemma db_reach_one: "db_step L C b s t \<Longrightarrow> db_reach L C b s t"
  by (blast intro: db_reach.intros)

lemma db_step_weaken: "db_step L C b s t \<Longrightarrow> b' \<le> b \<Longrightarrow> C \<subseteq> C' \<Longrightarrow> db_step L C' b' s t"
  by (induction rule: db_step.induct) (auto intro: db_step.intros)

lemma db_reach_weaken: "db_reach L C b s t \<Longrightarrow> b' \<le> b \<Longrightarrow> C \<subseteq> C' \<Longrightarrow> db_reach L C' b' s t"
  by (induction rule: db_reach.induct) (auto intro: db_reach.intros db_step_weaken)

text \<open>
  Every step either adds one journal entry whose undoing gives the state before, up to the view, or
  keeps the journal, accounts and storage as they are, or takes or undoes a snapshot.
\<close>

definition logs_one :: "Address set \<Rightarrow> StateDB \<Rightarrow> StateDB \<Rightarrow> bool" where
  "logs_one C s s' \<longleftrightarrow> snapshots s' = snapshots s \<and>
     (\<exists>e. journal s' = journal s @ [e] \<and> present C e s' \<and> same_view C s (undo e s'))"

definition logs_none :: "StateDB \<Rightarrow> StateDB \<Rightarrow> bool" where
  "logs_none s s' \<longleftrightarrow> snapshots s' = snapshots s \<and> journal s' = journal s
     \<and> accounts s' = accounts s \<and> storage s' = storage s"

lemma getOrCreate_cases:
  obtains (found) a where "accounts s addr = Some a" "getOrCreate s addr = (a, s)"
    | (created) "accounts s addr = None"
        "getOrCreate s addr = (new_Account, s\<lparr>accounts := (accounts s)(addr \<mapsto> new_Account)\<rparr>)"
  by (cases "accounts s addr") (auto simp: getOrCreate_def)

lemmas mutator_defs =
  SetBalance_def AddBalance_def SubBalance_def SetNonce_def SetCode_def Suicide_def
  put_account_def add_journal_def

lemma logs_one_mutators:
  "logs_one C s (SetBalance s a v)" "logs_one C s (AddBalance L s a v)"
  "logs_one C s (SubBalance L s a v)" "logs_one C s (SetNonce s a n)"
  "logs_one C s (SetCode s a c h)" "logs_one C s (Suicide s a)"
  by (rule getOrCreate_cases [of s a];
      simp add: logs_one_def mutator_defs present_def same_view_def fun_eq_iff GetStorage_def
        new_Account_def)+

lemma logs_one_CreateAccount:
  "accounts s a = None \<or> a \<in> C \<Longrightarrow> logs_one C s (CreateAccount s a)"
  by (auto simp: logs_one_def CreateAccount_def Let_def put_account_def add_journal_def
      present_def same_view_def fun_eq_iff GetStorage_def)

lemma remember_orig_simps [simp]:
  "accounts (remember_orig s a k v) = accounts s" "journal (remember_orig s a k v) = journal s"
  "snapshots (remember_orig s a k v) = snapshots s" "storage (remember_orig s a k v) = storage s"
  by (simp_all add: remember_orig_def origStorageOf_def split: option.splits)

lemma storageOf_simps:
  assumes "storageOf s a = (st, s1)"
  shows "accounts s1 = accounts s" "journal s1 = journal s" "snapshots s1 = snapshots s"
    "GetStorage s1 = GetStorage s" "slot_of st k = GetStorage s a k"
  using assms
  by (auto simp: storageOf_def GetStorage_def slot_of_def fun_eq_iff split: option.splits if_splits)

lemma logs_one_SetStorage: "logs_one C s (SetStorage s a k v)"
proof -
  obtain st s1 where st: "storageOf s a = (st, s1)" by fastforce
  note s1 = storageOf_simps [OF st]
  let ?s3 = "add_journal (remember_orig s1 a k (slot_of st k)) (jStorage a k (slot_of st k))"
  have eq: "SetStorage s a k v = write_slot ?s3 a k v"
    using st by (simp add: SetStorage_def Let_def)
  have "GetStorage ?s3 = GetStorage s1"
    by (rule GetStorage_cong) (simp add: add_journal_def)
  then have "GetStorage (undo (jStorage a k (slot_of st k)) (write_slot ?s3 a k v)) = GetStorage s"
    using s1 by (auto simp: GetStorage_write_slot fun_eq_iff)
  moreover have "accounts ?s3 = accounts s" "journal ?s3 = journal s @ [jStorage a k (slot_of st k)]"
    "snapshots ?s3 = snapshots s"
    using s1 by (simp_all add: add_journal_def)
  ultimately show ?thesis
    unfolding logs_one_def eq
    by (intro conjI exI [of _ "jStorage a k (slot_of st k)"]) (simp_all add: present_def same_view_def)
qed

lemma logs_none_others:
  "logs_none s (snd (GetCommittedStorage s a k))" "logs_none s (WarmAddress s a)"
  "logs_none s (WarmSlot s a k)" "logs_none s (AddLog s l)" "logs_none s (AddRefund s g)"
  "logs_none s (SubRefund s g)"
  by (simp_all add: logs_none_def GetCommittedStorage_def origStorageOf_def WarmAddress_def
      WarmSlot_def AddLog_def AddRefund_def SubRefund_def Let_def split: option.splits)

section \<open>The region of a snapshot\<close>

text \<open>
  What holds of every state between the snapshot number \<open>b\<close> of \<open>s0\<close> and its revert: the snapshot is
  still on the stack, later ones do not reach below it, the older part of the journal is untouched,
  and undoing the newer part shows \<open>s0\<close> again.
\<close>

definition region :: "Address set \<Rightarrow> StateDB \<Rightarrow> StateDB \<Rightarrow> bool" where
  "region C s0 s \<longleftrightarrow>
     (let b = length (snapshots s0); n = length (journal s0) in
      take (Suc b) (snapshots s) = snapshots s0 @ [n]
      \<and> (\<forall>x \<in> set (drop b (snapshots s)). n \<le> x)
      \<and> take n (journal s) = journal s0
      \<and> undoable undo (present C) (rev (drop n (journal s))) s
      \<and> same_view C s0 (fold undo (rev (drop n (journal s))) s))"

lemma region_start: "region C s (snd (Snapshot s))"
  by (simp add: region_def Snapshot_def same_view_def GetStorage_def fun_eq_iff)

lemma region_length: "region C s0 s \<Longrightarrow> length (journal s0) \<le> length (journal s)"
  unfolding region_def Let_def by (metis length_take min.cobounded1)

lemma region_logs_one:
  assumes "region C s0 s" and "logs_one C s s'"
  shows "region C s0 s'"
proof -
  from assms(2) obtain e where e: "journal s' = journal s @ [e]" "present C e s'"
      "same_view C s (undo e s')" "snapshots s' = snapshots s"
    by (auto simp: logs_one_def)
  let ?n = "length (journal s0)"
  have "rev (drop ?n (journal s')) = e # rev (drop ?n (journal s))"
    using region_length [OF assms(1)] e by simp
  then show ?thesis
    using assms(1) e db_log.log_step [of C "rev (drop ?n (journal s))" s s0 e s']
      region_length [OF assms(1)]
    by (simp add: region_def Let_def)
qed

lemma region_logs_none:
  assumes "region C s0 s" and "logs_none s s'"
  shows "region C s0 s'"
proof -
  have "same_view C s s'"
    using assms(2) by (auto simp: logs_none_def same_view_def intro: GetStorage_cong)
  then show ?thesis
    using assms db_log.silent_step [of C "rev (drop (length (journal s0)) (journal s))" s s0 s']
    by (simp add: region_def Let_def logs_none_def)
qed

lemma region_Snapshot:
  assumes "region C s0 s"
  shows "region C s0 (snd (Snapshot s))"
proof -
  let ?n = "length (journal s0)" and ?b = "length (snapshots s0)"
  have len: "Suc ?b \<le> length (snapshots s)"
    using assms unfolding region_def Let_def by (metis length_append_singleton length_take min.cobounded1)
  have "same_view C s (snd (Snapshot s))"
    by (simp add: same_view_def Snapshot_def GetStorage_def fun_eq_iff)
  then have "undoable undo (present C) (rev (drop ?n (journal s))) (snd (Snapshot s))
      \<and> same_view C s0 (fold undo (rev (drop ?n (journal s))) (snd (Snapshot s)))"
    using assms db_log.silent_step [of C "rev (drop ?n (journal s))" s s0 "snd (Snapshot s)"]
    by (simp add: region_def Let_def)
  then show ?thesis
    using assms len region_length [OF assms] by (auto simp: region_def Let_def Snapshot_def)
qed

lemma region_Revert:
  assumes "region C s0 s" and "length (snapshots s0) < i"
  shows "region C s0 (RevertToSnapshot s i)"
proof (cases "length (snapshots s) \<le> i")
  case True
  with assms show ?thesis by (simp add: RevertToSnapshot_def)
next
  case False
  let ?n = "length (journal s0)" and ?b = "length (snapshots s0)" and ?l = "snapshots s ! i"
  let ?t = "fold undo (rev (drop ?l (journal s))) s"
  have "?l \<in> set (drop ?b (snapshots s))"
    using assms(2) False by (auto simp: in_set_conv_nth intro!: exI [of _ "i - ?b"])
  then have l: "?n \<le> ?l"
    using assms(1) by (simp add: region_def Let_def)
  have "drop ?n (journal s) = drop ?n (take ?l (journal s)) @ drop ?l (journal s)"
    using l drop_append [of ?n "take ?l (journal s)" "drop ?l (journal s)"]
    by (cases "?l \<le> length (journal s)") auto
  then have split: "rev (drop ?n (journal s))
      = rev (drop ?l (journal s)) @ rev (drop ?n (take ?l (journal s)))" by simp
  let ?r = "RevertToSnapshot s i"
  have r: "journal ?r = take ?l (journal s)" "snapshots ?r = take i (snapshots s)"
    "same_view C ?t ?r" 
    using False by (auto simp: RevertToSnapshot_def Let_def same_view_def GetStorage_def fun_eq_iff)
  have "undoable undo (present C) (rev (drop ?n (take ?l (journal s)))) ?t
      \<and> same_view C s0 (fold undo (rev (drop ?n (take ?l (journal s)))) ?t)"
    using assms(1) unfolding region_def Let_def split by (simp add: undoable_append)
  then have "undoable undo (present C) (rev (drop ?n (journal ?r))) ?r
      \<and> same_view C s0 (fold undo (rev (drop ?n (journal ?r))) ?r)"
    unfolding r(1) by (intro db_log.silent_step [OF _ _ r(3)]) auto
  moreover have "take (Suc ?b) (snapshots ?r) = snapshots s0 @ [?n]"
    using assms unfolding r(2) by (simp add: region_def Let_def min_def)
  moreover have "\<forall>x \<in> set (drop ?b (snapshots ?r)). ?n \<le> x"
    using assms(1) unfolding r(2) region_def Let_def
    by (metis drop_take in_set_takeD)
  moreover have "take ?n (journal ?r) = journal s0"
    using assms(1) l unfolding r(1) by (simp add: region_def Let_def min_def)
  ultimately show ?thesis by (simp add: region_def Let_def)
qed

lemma region_step:
  assumes "db_step L C b s t" and "region C s0 s" and "b = length (snapshots s0)"
  shows "region C s0 t"
  using assms
proof (induction rule: db_step.induct)
  case (step_CreateAccount s a)
  then show ?case by (blast intro: region_logs_one logs_one_CreateAccount)
next
  case (step_SetStorage s a k v)
  then show ?case by (blast intro: region_logs_one logs_one_SetStorage)
qed (auto intro: region_Revert region_Snapshot
       region_logs_one [OF _ logs_one_mutators(1)] region_logs_one [OF _ logs_one_mutators(2)]
       region_logs_one [OF _ logs_one_mutators(3)] region_logs_one [OF _ logs_one_mutators(4)]
       region_logs_one [OF _ logs_one_mutators(5)] region_logs_one [OF _ logs_one_mutators(6)]
       region_logs_none [OF _ logs_none_others(1)] region_logs_none [OF _ logs_none_others(2)]
       region_logs_none [OF _ logs_none_others(3)] region_logs_none [OF _ logs_none_others(4)]
       region_logs_none [OF _ logs_none_others(5)] region_logs_none [OF _ logs_none_others(6)])

lemma region_reach:
  "db_reach L C b t v \<Longrightarrow> region C s0 t \<Longrightarrow> b = length (snapshots s0) \<Longrightarrow> region C s0 v"
  by (induction rule: db_reach.induct) (auto intro: region_step)

lemma region_reverted:
  assumes "region C s0 s"
  shows "same_view C s0 (RevertToSnapshot s (length (snapshots s0)))
    \<and> journal (RevertToSnapshot s (length (snapshots s0))) = journal s0
    \<and> snapshots (RevertToSnapshot s (length (snapshots s0))) = snapshots s0"
proof -
  let ?b = "length (snapshots s0)" and ?n = "length (journal s0)"
  have snaps: "take (Suc ?b) (snapshots s) = snapshots s0 @ [?n]"
    using assms by (simp add: region_def Let_def)
  then have b: "?b < length (snapshots s)" and nth: "snapshots s ! ?b = ?n"
    by (metis Suc_le_eq length_append_singleton length_take min.cobounded1,
        metis lessI nth_append_length nth_take)
  have "take ?b (snapshots s) = snapshots s0"
    using arg_cong [OF snaps, of "take ?b"] by (simp add: min_def)
  with assms b nth show ?thesis
    by (auto simp: RevertToSnapshot_def Let_def region_def same_view_def GetStorage_def fun_eq_iff)
qed

text \<open>What the getters show.\<close>

lemma same_view_storage: "same_view C s t \<Longrightarrow> GetStorage t = GetStorage s"
  by (simp add: same_view_def)

lemma same_view_getters:
  assumes "same_view C s t" and "a \<notin> C"
  shows "GetBalance t a = GetBalance s a" "GetNonce t a = GetNonce s a"
    "GetCode t a = GetCode s a" "GetCodeHash t a = GetCodeHash s a"
    "HasSuicided t a = HasSuicided s a" "Empty t a = Empty s a" "Exists s a \<Longrightarrow> Exists t a"
proof -
  have "accounts t a = accounts s a \<or> accounts s a = None \<and> accounts t a = Some new_Account"
    using assms by (auto simp: same_view_def)
  then show "GetBalance t a = GetBalance s a" "GetNonce t a = GetNonce s a"
    "GetCode t a = GetCode s a" "GetCodeHash t a = GetCodeHash s a"
    "HasSuicided t a = HasSuicided s a" "Empty t a = Empty s a" "Exists s a \<Longrightarrow> Exists t a"
    by (auto simp: GetBalance_def GetNonce_def GetCode_def GetCodeHash_def
        HasSuicided_def Empty_def Exists_def new_Account_def)
qed

lemma revert_same_view:
  assumes "Snapshot s0 = (i, s1)" and "db_reach L C i s1 s"
  shows "same_view C s0 (RevertToSnapshot s i) \<and> journal (RevertToSnapshot s i) = journal s0
    \<and> snapshots (RevertToSnapshot s i) = snapshots s0"
proof -
  from assms(1) have i: "i = length (snapshots s0)" and s1: "s1 = snd (Snapshot s0)"
    by (auto simp: Snapshot_def)
  have "region C s0 s"
    using region_reach [OF assms(2)] region_start [of C s0] by (simp add: i s1)
  from region_reverted [OF this] show ?thesis unfolding i .
qed

section \<open>Properties\<close>



text \<open>
  C28: undoing a creation over an existing account loses that account.  \<open>CreateAccount\<close> keeps the balance of
  an account it replaces, but reverting to a snapshot taken before it deletes the account instead of
  putting the old one back: the balance it had at the snapshot is gone.
\<close>

theorem revert_of_creation_loses_the_account:
  assumes "accounts s0 a = Some acc" and "Snapshot s0 = (i, s1)"
  shows "GetBalance (CreateAccount s1 a) a = acc_Balance acc
    \<and> accounts (RevertToSnapshot (CreateAccount s1 a) i) a = None
    \<and> GetBalance (RevertToSnapshot (CreateAccount s1 a) i) a = 0"
proof -
  from assms(2) have i: "i = length (snapshots s0)"
    and s1: "s1 = s0\<lparr>snapshots := snapshots s0 @ [length (journal s0)]\<rparr>"
    by (auto simp: Snapshot_def)
  have "journal (CreateAccount s1 a) = journal s0 @ [jCreate a]"
    "snapshots (CreateAccount s1 a) = snapshots s0 @ [length (journal s0)]"
    by (simp_all add: s1 CreateAccount_def Let_def put_account_def add_journal_def)
  then have "accounts (RevertToSnapshot (CreateAccount s1 a) i) a = None"
    by (simp add: RevertToSnapshot_def Let_def i)
  then show ?thesis
    using assms(1) by (simp add: GetBalance_def s1 CreateAccount_def Let_def put_account_def
        add_journal_def new_Account_def)
qed

theorem revert_of_creation_loses_the_account_witness:
  "\<exists>s1. Snapshot (SetBalance new_StateDB [1] 9) = (0, s1)
     \<and> GetBalance (RevertToSnapshot (CreateAccount s1 [1]) 0) [1] = 0"
proof -
  let ?s = "SetBalance new_StateDB [1] 9"
  have "accounts ?s [1] = Some (new_Account\<lparr>acc_Balance := 9\<rparr>)" and "Snapshot ?s = (0, snd (Snapshot ?s))"
    by (simp_all add: SetBalance_def getOrCreate_def put_account_def add_journal_def new_StateDB_def
        Snapshot_def)
  from revert_of_creation_loses_the_account [OF this] this(2) show ?thesis by blast
qed

text \<open>
  C6: a reverted write leaves an empty account behind.  When money is added to an address without an
  account after a snapshot and the snapshot is reverted, the address reads as empty again but the account
  exists, where it did not before: its allocation is not journalled.
\<close>

theorem revert_leaves_an_account_behind:
  assumes "\<not> Exists s0 a" and "Snapshot s0 = (i, s1)"
  shows "Exists (RevertToSnapshot (AddBalance L s1 a v) i) a
    \<and> Empty (RevertToSnapshot (AddBalance L s1 a v) i) a"
proof -
  let ?s = "AddBalance L s1 a v"
  from assms(2) have i: "i = length (snapshots s0)"
    and s1: "s1 = s0\<lparr>snapshots := snapshots s0 @ [length (journal s0)]\<rparr>"
    by (auto simp: Snapshot_def)
  have "accounts ?s a = Some (new_Account\<lparr>acc_Balance := u_add L 0 v\<rparr>)" "journal ?s = journal s0 @ [jBalance a 0]"
    "snapshots ?s = snapshots s0 @ [length (journal s0)]"
    using assms(1) by (simp_all add: s1 Exists_def getOrCreate_def mutator_defs new_Account_def)
  then show ?thesis
    by (simp add: RevertToSnapshot_def Let_def i Exists_def Empty_def new_Account_def)
qed

theorem revert_leaves_an_account_behind_witness:
  "\<exists>s1. Snapshot new_StateDB = (0, s1) \<and> \<not> Exists new_StateDB [1]
     \<and> Exists (RevertToSnapshot (AddBalance std_lib s1 [1] 7) 0) [1]"
proof -
  have "\<not> Exists new_StateDB [1]" and "Snapshot new_StateDB = (0, snd (Snapshot new_StateDB))"
    by (simp_all add: Exists_def Snapshot_def new_StateDB_def)
  with revert_leaves_an_account_behind [OF this] show ?thesis by blast
qed

lemma undo_side_effects:
  "Logs (undo e s) = Logs s" "Refund (undo e s) = Refund s"
  "accessedAddrs (undo e s) = accessedAddrs s" "accessedSlots (undo e s) = accessedSlots s"
  by (cases e; simp add: upd_account_def put_account_def write_slot_def storageOf_def
      split: option.splits)+

lemma fold_undo_side_effects:
  "Logs (fold undo es s) = Logs s \<and> Refund (fold undo es s) = Refund s
   \<and> accessedAddrs (fold undo es s) = accessedAddrs s \<and> accessedSlots (fold undo es s) = accessedSlots s"
  by (induction es arbitrary: s) (simp_all add: undo_side_effects)

text \<open>
  C27: a revert leaves the logs, the refund counter and the access lists as they are, those of the
  reverted part included.
\<close>

theorem revert_keeps_logs_and_refund:
  "Logs (RevertToSnapshot s i) = Logs s \<and> Refund (RevertToSnapshot s i) = Refund s
   \<and> accessedAddrs (RevertToSnapshot s i) = accessedAddrs s
   \<and> accessedSlots (RevertToSnapshot s i) = accessedSlots s"
  using fold_undo_side_effects [of "rev (drop (snapshots s ! i) (journal s))" s]
  by (simp add: RevertToSnapshot_def Let_def)

end
