(* ===== verification/Effects.thy ===== *)
theory Effects
  imports Switch EVM Journal
begin

text \<open>
  The EVM as a call handler.  \<open>evm_rel i\<close> relates an EVM to what running code may make of it while the
  snapshot number \<open>i\<close> of its database is live: every change of the plain database is a sequence of
  journalled method calls that stay above that snapshot (\<open>db_reach\<close>), the frame pool stays well formed,
  the contexts stay as they are.  The interpretations discharge the laws of \<open>Steps\<close> and \<open>Switch\<close> for it,
  the handler's by induction on the nesting of calls.
\<close>

section \<open>The relation\<close>

text \<open>What a reading instruction leaves alone.\<close>

definition reads_only :: "StateDB \<Rightarrow> StateDB \<Rightarrow> bool" where
  "reads_only s s' \<longleftrightarrow> accounts s' = accounts s \<and> storage s' = storage s \<and> Logs s' = Logs s
     \<and> Refund s' = Refund s \<and> createdInTx s' = createdInTx s \<and> journal s' = journal s
     \<and> snapshots s' = snapshots s"

text \<open>Code lengths fit Go's 64-bit integers.\<close>

definition codes_ok :: "StateDB \<Rightarrow> bool" where
  "codes_ok s \<longleftrightarrow> (\<forall>a acc. accounts s a = Some acc \<longrightarrow> length (acc_Code acc) < 2 ^ 64)
     \<and> (\<forall>e \<in> set (journal s). case e of jCode a c h \<Rightarrow> length c < 2 ^ 64 | _ \<Rightarrow> True)"

text \<open>
  The effects on a database, where \<open>C\<close> are the addresses at which an account may be created over an
  existing one.
\<close>

definition db_rel :: "lib \<Rightarrow> Address set \<Rightarrow> nat \<Rightarrow> StateDB \<Rightarrow> StateDB \<Rightarrow> bool" where
  "db_rel L C i s s' \<longleftrightarrow> (codes_ok s \<longrightarrow> codes_ok s')
     \<and> (i < length (snapshots s) \<longrightarrow> i < length (snapshots s') \<and> db_reach L C i s s')"

definition evm_rel :: "lib \<Rightarrow> Address set \<Rightarrow> nat \<Rightarrow> bool \<Rightarrow> EVM \<Rightarrow> EVM \<Rightarrow> bool" where
  "evm_rel L C i b e e' \<longleftrightarrow>
     (pool_ok e \<longrightarrow> pool_ok e') \<and> e_config e' = e_config e \<and> e_block e' = e_block e \<and> e_tx e' = e_tx e
     \<and> (\<forall>s. e_db e = PlainDB s \<longrightarrow>
          (\<exists>s'. e_db e' = PlainDB s' \<and> db_rel L C i s s' \<and> (b \<longrightarrow> reads_only s s')))"

lemma db_rel_refl [simp]: "db_rel L C i s s"
  by (simp add: db_rel_def reach_refl)

lemma db_rel_trans: "db_rel L C i r s \<Longrightarrow> db_rel L C i s t \<Longrightarrow> db_rel L C i r t"
  by (auto simp: db_rel_def intro: db_reach_trans)

lemma reads_only_refl [simp]: "reads_only s s"
  by (simp add: reads_only_def)

lemma evm_rel_refl [simp]: "evm_rel L C i b e e"
  by (simp add: evm_rel_def)

lemma evm_rel_trans: "evm_rel L C i b e1 e2 \<Longrightarrow> evm_rel L C i b e2 e3 \<Longrightarrow> evm_rel L C i b e1 e3"
  unfolding evm_rel_def reads_only_def by (auto intro: db_rel_trans) (metis db_rel_trans)+

section \<open>The database methods\<close>

lemma db_rel_step:
  assumes "db_step L C i s s'" and "codes_ok s \<Longrightarrow> codes_ok s'" and "snapshots s' = snapshots s"
  shows "db_rel L C i s s'"
  using assms by (simp add: db_rel_def db_reach_one)

lemma codes_ok_GetCode: "codes_ok s \<Longrightarrow> length (GetCode s a) < 2 ^ 64"
  by (auto simp: codes_ok_def GetCode_def split: option.split)

lemma codes_ok_mutators:
  assumes "codes_ok s"
  shows "codes_ok (SetBalance s a v)" "codes_ok (AddBalance L s a v)" "codes_ok (SubBalance L s a v)"
    "codes_ok (SetNonce s a n)" "codes_ok (Suicide s a)"
    "length c < 2 ^ 64 \<Longrightarrow> codes_ok (SetCode s a c h)"
  by (rule getOrCreate_cases [of s a]; use assms in \<open>auto simp: codes_ok_def mutator_defs new_Account_def\<close>)+

lemma codes_ok_CreateAccount: "codes_ok s \<Longrightarrow> codes_ok (CreateAccount s a)"
  by (auto simp: codes_ok_def CreateAccount_def Let_def put_account_def add_journal_def new_Account_def
      split: option.splits)

lemma codes_ok_SetStorage: "codes_ok s \<Longrightarrow> codes_ok (SetStorage s a k v)"
  by (auto simp: codes_ok_def SetStorage_def Let_def case_prod_beta add_journal_def storageOf_def
      split: option.splits)

lemma codes_ok_logs_none: "codes_ok s \<Longrightarrow> logs_none s s' \<Longrightarrow> codes_ok s'"
  by (simp add: codes_ok_def logs_none_def)

lemma codes_ok_undo:
  assumes "codes_ok s" and "e \<in> set (journal s)"
  shows "codes_ok (undo e s)"
  using assms by (cases e) (auto simp: codes_ok_def)

lemma codes_ok_Revert:
  assumes "codes_ok s"
  shows "codes_ok (RevertToSnapshot s i)"
proof -
  have "codes_ok (fold undo es s)" if "set es \<subseteq> set (journal s)" for es
    using that assms
  proof (induction es arbitrary: s)
    case (Cons e es)
    then have "codes_ok (undo e s)" by (intro codes_ok_undo) auto
    with Cons show ?case by simp
  qed simp
  moreover have "set (rev (drop n (journal s))) \<subseteq> set (journal s)" for n
    by (auto dest: in_set_dropD)
  ultimately have "codes_ok (fold undo (rev (drop n (journal s))) s)" for n by blast
  then show ?thesis
    using assms by (auto simp: RevertToSnapshot_def Let_def codes_ok_def dest: in_set_takeD)
qed

lemma snapshots_mutators [simp]:
  "snapshots (SetBalance s a v) = snapshots s" "snapshots (AddBalance L s a v) = snapshots s"
  "snapshots (SubBalance L s a v) = snapshots s" "snapshots (SetNonce s a n) = snapshots s"
  "snapshots (Suicide s a) = snapshots s" "snapshots (SetCode s a c h) = snapshots s"
  "snapshots (CreateAccount s a) = snapshots s" "snapshots (SetStorage s a k w) = snapshots s"
  "snapshots (WarmAddress s a) = snapshots s" "snapshots (WarmSlot s a k) = snapshots s"
  "snapshots (AddLog s l) = snapshots s" "snapshots (AddRefund s g) = snapshots s"
  "snapshots (snd (GetCommittedStorage s a k)) = snapshots s"
  by (simp_all add: mutator_defs CreateAccount_def SetStorage_def WarmAddress_def WarmSlot_def AddLog_def
      AddRefund_def Let_def case_prod_beta getOrCreate_def storageOf_def GetCommittedStorage_def
      origStorageOf_def split: option.splits)

lemma db_rel_mutators:
  "db_rel L C i s (SetBalance s a v)" "db_rel L C i s (AddBalance L s a v)"
  "db_rel L C i s (SubBalance L s a v)" "db_rel L C i s (SetNonce s a n)" "db_rel L C i s (Suicide s a)"
  "db_rel L C i s (SetStorage s a k w)" "db_rel L C i s (WarmAddress s a)" "db_rel L C i s (WarmSlot s a k)"
  "db_rel L C i s (AddLog s l)" "db_rel L C i s (AddRefund s g)"
  "db_rel L C i s (snd (GetCommittedStorage s a k))"
  by (rule db_rel_step; auto intro: db_step.intros codes_ok_mutators codes_ok_SetStorage
      codes_ok_logs_none logs_none_others)+

lemma db_rel_SetCode: "length c < 2 ^ 64 \<Longrightarrow> db_rel L C i s (SetCode s a c h)"
  by (rule db_rel_step) (auto intro: db_step.intros codes_ok_mutators)

text \<open>The account of a new contract: created, its nonce set, and warmed.\<close>

lemma db_rel_new_contract:
  assumes "accounts s a = None \<or> a \<in> C"
  shows "db_rel L C i s (WarmAddress (SetNonce (CreateAccount s a) a n) a)"
proof -
  have "db_rel L C i s (CreateAccount s a)"
    by (rule db_rel_step) (simp_all add: step_CreateAccount assms codes_ok_CreateAccount)
  then show ?thesis by (intro db_rel_trans [OF db_rel_trans [OF _ db_rel_mutators(4)] db_rel_mutators(7)])
qed

lemma db_rel_Snapshot: "db_rel L C i s (snd (Snapshot s))"
  by (auto simp: db_rel_def Snapshot_def codes_ok_def
      intro: db_reach_one [OF step_Snapshot [of L C i s, unfolded Snapshot_def, simplified]])

lemma db_rel_Revert:
  assumes "i < j \<or> length (snapshots s) \<le> i"
  shows "db_rel L C i s (RevertToSnapshot s j)"
  using assms
  by (auto simp: db_rel_def codes_ok_Revert intro: db_reach_one step_Revert)
    (simp add: RevertToSnapshot_def Let_def)

lemma reads_only_cases:
  "reads_only s (WarmAddress s a)" "reads_only s (WarmSlot s a k)"
  "reads_only s (snd (GetCommittedStorage s a k))"
  by (simp_all add: reads_only_def WarmAddress_def WarmSlot_def Let_def GetCommittedStorage_def
      origStorageOf_def split: option.splits)

lemma evm_rel_db:
  assumes "\<And>s. e_db e = PlainDB s \<Longrightarrow>
     \<exists>s'. d = PlainDB s' \<and> db_rel L C i s s' \<and> (b \<longrightarrow> reads_only s s')"
  shows "evm_rel L C i b e (e\<lparr>e_db := d\<rparr>)"
  using assms by (simp add: evm_rel_def pool_ok_def)

lemmas db_method_defs =
  db_GetBalance_def db_GetCode_def db_GetCodeHash_def db_GetNonce_def db_Exists_def db_Empty_def
  db_GetStorage_def db_GetCommittedStorage_def db_WarmAddress_def db_WarmSlot_def db_SetStorage_def
  db_AddBalance_def db_SubBalance_def db_AddLog_def db_AddRefund_def db_Suicide_def db_SetNonce_def
  db_SetCode_def db_CreateAccount_def db_Snapshot_def db_RevertToSnapshot_def

interpretation fx: evm_effects L "evm_rel L C i" for L C i
proof unfold_locales
  fix b e e2 e3
  show "evm_rel L C i b e e" by simp
  show "evm_rel L C i b e e2 \<Longrightarrow> evm_rel L C i b e2 e3 \<Longrightarrow> evm_rel L C i b e e3"
    by (rule evm_rel_trans)
  show "evm_rel L C i True e e2 \<Longrightarrow> evm_rel L C i False e e2"
    by (auto simp: evm_rel_def)
  show "evm_rel L C i b e (e\<lparr>e_captures := cs\<rparr>)" for cs
    by (simp add: evm_rel_def pool_ok_def)
qed (auto intro!: evm_rel_db simp: db_method_defs Let_def db_rel_mutators reads_only_cases)

section \<open>Frames\<close>

lemma evm_rel_pool:
  "pool_ok e \<longrightarrow> pool_ok e' \<Longrightarrow> e_db e' = e_db e \<Longrightarrow> e_config e' = e_config e \<Longrightarrow>
   e_block e' = e_block e \<Longrightarrow> e_tx e' = e_tx e \<Longrightarrow> evm_rel L C i b e e'"
  by (simp add: evm_rel_def)

lemma AcquireFrame_same:
  "AcquireFrame e = (f, e') \<Longrightarrow>
     e_db e' = e_db e \<and> e_config e' = e_config e \<and> e_block e' = e_block e \<and> e_tx e' = e_tx e"
  by (auto simp: AcquireFrame_def split: list.splits if_splits)

lemma newFrame_props:
  assumes "newFrame e code contract caller msg = m"
  shows "evm_rel L C i b e (evm m)" "pool_ok e \<longrightarrow> frame_ok (fr m)" "Gas (fr m) = msg_Gas msg"
    "Code (fr m) = code" "Static (fr m) = False \<or> \<not> pool_ok e" "PC (fr m) = 0 \<or> \<not> pool_ok e"
proof -
  obtain f e' where a: "AcquireFrame e = (f, e')" by force
  with assms have m: "evm m = e'" "fr m = f\<lparr>Code := code, Gas := msg_Gas msg, Contract := contract,
      Caller := caller, Input := msg_Data msg,
      f_Value := (case msg_Value msg of Some v \<Rightarrow> v | None \<Rightarrow> 0), f_Tracer := e_tracer e\<rparr>"
    by (auto simp: newFrame_def)
  show "evm_rel L C i b e (evm m)"
    using AcquireFrame_same [OF a] AcquireFrame_ok [OF _ a] m by (intro evm_rel_pool) auto
  show "pool_ok e \<longrightarrow> frame_ok (fr m)" "Static (fr m) = False \<or> \<not> pool_ok e" "PC (fr m) = 0 \<or> \<not> pool_ok e"
    using AcquireFrame_ok [OF _ a] m by (auto simp: frame_ok_def)
  show "Gas (fr m) = msg_Gas msg" "Code (fr m) = code" using m by simp_all
qed

lemma evm_rel_ReleaseFrame:
  assumes "pool_ok e \<longrightarrow> frame_ok f"
  shows "evm_rel L C i b e (ReleaseFrame e f)"
  using assms ReleaseFrame_ok by (intro evm_rel_pool) (auto simp: ReleaseFrame_def)

text \<open>A whole run, in a handler that keeps the laws.\<close>

definition run_law :: "lib \<Rightarrow> Address set \<Rightarrow> runner \<Rightarrow> bool" where
  "run_law L C run \<longleftrightarrow> (\<forall>i m m' r. run m = Ret (m', r) \<longrightarrow>
     evm_rel L C i False (evm m) (evm m') \<and> (frame_ok (fr m) \<longrightarrow> frame_ok (fr m'))
     \<and> r_GasLeft r \<le> Gas (fr m) \<and> length (r_ReturnData r) \<le> maxAlloc)"

lemma run_law_Run:
  assumes "\<And>i. call_handler L (evm_rel L C i) H"
  shows "run_law L C (Run L H fuel)"
  unfolding run_law_def
proof (intro allI impI)
  fix i m m' r
  assume run: "Run L H fuel m = Ret (m', r)"
  let ?m = "load_jumpdests L m"
  have "evm_rel L C i False (evm m) (evm ?m)" and fr: "frame_ok (fr ?m) = frame_ok (fr m)" "Gas (fr ?m) = Gas (fr m)"
    by (auto simp: load_jumpdests_def Let_def evm_rel_def pool_ok_def frame_ok_def split: option.split)
  moreover have "sane (evm_rel L C i) False False ?m m'" "outcome_ok m' (Done r)"
    using call_handler.run_loop_sane [OF assms] run by (auto simp: Run_def)
  ultimately show "evm_rel L C i False (evm m) (evm m') \<and> (frame_ok (fr m) \<longrightarrow> frame_ok (fr m'))
     \<and> r_GasLeft r \<le> Gas (fr m) \<and> length (r_ReturnData r) \<le> maxAlloc"
    by (auto simp: sane_def intro: evm_rel_trans)
qed

lemma run_frame_law:
  assumes "run_law L C run" and "run_frame run g e code contract caller msg = Ret (e', r)"
    and g: "\<And>f. frame_ok (g f) = frame_ok f" "\<And>f. Gas (g f) = Gas f"
  shows "evm_rel L C i False e e' \<and> r_GasLeft r \<le> msg_Gas msg \<and> length (r_ReturnData r) \<le> maxAlloc"
proof -
  let ?m = "newFrame e code contract caller msg"
  obtain m' where run: "run (upd_fr g ?m) = Ret (m', r)" and e': "e' = ReleaseFrame (evm m') (fr m')"
    using assms(2) by (auto simp: run_frame_def go_bind_Ret_iff)
  have law: "evm_rel L C i False (evm ?m) (evm m')" "frame_ok (fr ?m) \<longrightarrow> frame_ok (fr m')"
    "r_GasLeft r \<le> msg_Gas msg" "length (r_ReturnData r) \<le> maxAlloc"
    using assms(1) [unfolded run_law_def, rule_format, OF run] newFrame_props(3) [OF HOL.refl, of e code contract caller msg] g
    by auto
  have "evm_rel L C i False e (evm m')"
    using newFrame_props(1) [OF HOL.refl] law(1) by (rule evm_rel_trans)
  moreover have "pool_ok e \<longrightarrow> pool_ok e'"
    using calculation law(2) newFrame_props(2) [OF HOL.refl, of e code contract caller msg] ReleaseFrame_ok e'
    by (auto simp: evm_rel_def)
  ultimately have "evm_rel L C i False e e'"
    by (simp add: evm_rel_def e') (simp add: ReleaseFrame_def)
  with law show ?thesis by blast
qed

section \<open>Steps of the EVM\<close>

lemma evm_rel_upd_db:
  assumes "\<And>s. e_db e = PlainDB s \<Longrightarrow> \<exists>s'. f (PlainDB s) = PlainDB s' \<and> db_rel L C i s s'"
  shows "evm_rel L C i False e (upd_db f e)"
  unfolding upd_db_def by (rule evm_rel_db) (use assms in auto)

lemma ask_rel:
  assumes "ask g e k = r" and "\<And>s. snd (g (PlainDB s)) = PlainDB s"
  obtains x e' where "k x e' = r" and "\<And>i b. evm_rel L C i b e e'"
proof
  show "k (fst (g (e_db e))) (e\<lparr>e_db := snd (g (e_db e))\<rparr>) = r"
    using assms(1) by (simp add: ask_def case_prod_beta)
  show "evm_rel L C i b e (e\<lparr>e_db := snd (g (e_db e))\<rparr>)" for i b
    using assms(2) by (intro evm_rel_db) auto
qed

lemma trace_rel:
  "evm_rel L C i b e (trace_enter ct caller contract input gas val e)"
  "evm_rel L C i b e (trace_exit output used err e)"
  by (auto simp: trace_enter_def trace_exit_def evm_rel_def pool_ok_def split: option.splits)

definition snapshot_of :: "EVM \<Rightarrow> nat \<Rightarrow> bool" where
  "snapshot_of e snap \<longleftrightarrow> (\<forall>s. e_db e = PlainDB s \<longrightarrow> snap = length (snapshots s))"

lemma Snapshot_rel:
  assumes "db_Snapshot (e_db e) = (snap, d0)"
  shows "evm_rel L C i False e (e\<lparr>e_db := d0\<rparr>)" and "snapshot_of e snap"
  using assms
  by (auto simp: db_Snapshot_def snapshot_of_def Snapshot_def intro!: evm_rel_db db_rel_Snapshot [unfolded Snapshot_def, simplified])

lemma evm_rel_revert:
  assumes "evm_rel L C i False e e2" and "snapshot_of e snap"
  shows "evm_rel L C i False e (upd_db (\<lambda>d. db_RevertToSnapshot d snap) e2)"
proof -
  have "\<exists>s'. db_RevertToSnapshot (e_db e2) snap = PlainDB s' \<and> db_rel L C i s s'" if s: "e_db e = PlainDB s" for s
  proof -
    from assms s obtain s2 where s2: "e_db e2 = PlainDB s2" "db_rel L C i s s2" and snap: "snap = length (snapshots s)"
      by (auto simp: evm_rel_def snapshot_of_def)
    have "db_rel L C i s (RevertToSnapshot s2 snap)"
    proof (cases "i < length (snapshots s)")
      case True
      then have "db_rel L C i s2 (RevertToSnapshot s2 snap)" using snap by (intro db_rel_Revert) simp
      with s2(2) show ?thesis by (rule db_rel_trans)
    next
      case False
      with s2(2) show ?thesis by (simp add: db_rel_def codes_ok_Revert)
    qed
    with s2(1) show ?thesis by (simp add: db_RevertToSnapshot_def)
  qed
  with assms(1) show ?thesis by (auto simp: evm_rel_def upd_db_def pool_ok_def)
qed

lemma transfer_rel:
  assumes "transfer L e payer payee val = (r, e1)"
  shows "evm_rel L C i False e e1" and "r = Some e2 \<Longrightarrow> evm_rel L C i False e e2"
proof -
  let ?bal = "\<lambda>v. upd_db (\<lambda>d. db_AddBalance L (db_SubBalance L d payer v) payee v)"
  have ask: "evm_rel L C i False e (e\<lparr>e_db := snd (db_GetBalance L (e_db e) payer)\<rparr>)"
    by (rule fx.get_balance)
  have move: "evm_rel L C i False e' (?bal v e')" for v e'
    by (rule evm_rel_upd_db) (auto simp: db_AddBalance_def db_SubBalance_def intro: db_rel_trans db_rel_mutators)
  show "evm_rel L C i False e e1" "r = Some e2 \<Longrightarrow> evm_rel L C i False e e2"
    using assms ask evm_rel_trans [OF ask move]
    by (auto simp: transfer_def ask_def case_prod_beta split: option.splits if_splits)
qed

lemma run_code_rel:
  assumes "run_law L C run" and "run_code L run e snap msg ct contract caller = Ret (e', res)"
  obtains e2 where "\<And>i. evm_rel L C i False e e2"
    and "e' = (if res_Err res \<noteq> None then upd_db (\<lambda>d. db_RevertToSnapshot d snap) e2 else e2)"
    and "res_GasLeft res \<le> msg_Gas msg"
proof (rule ask_rel [OF assms(2) [unfolded run_code_def]])
  show "snd (db_GetCode L (PlainDB s) contract) = PlainDB s" for s by (simp add: db_GetCode_def Let_def)
  fix code e1
  assume r: "(if length code = 0 then Ret (e1, zero_Result\<lparr>res_GasLeft := msg_Gas msg\<rparr>)
       else
         let e2 = trace_enter ct caller contract (msg_Data msg) (msg_Gas msg) (msg_Value msg) e1 in
         go_bind (run_frame run (\<lambda>f. f) e2 code contract caller msg) (\<lambda>(e3, r).
           let e4 = trace_exit (r_ReturnData r) (msg_Gas msg - r_GasLeft r) (r_Err r) e3;
               e5 = (if r_Err r \<noteq> None then upd_db (\<lambda>d. db_RevertToSnapshot d snap) e4 else e4)
           in Ret (e5, \<lparr>res_ReturnData = r_ReturnData r, res_GasUsed = msg_Gas msg - r_GasLeft r,
                        res_GasLeft = r_GasLeft r, res_Err = r_Err r, res_ContractAddress = None\<rparr>))) = Ret (e', res)"
    and e1: "\<And>i b. evm_rel L C i b e e1"
  show thesis
  proof (cases "length code = 0")
    case True
    with r e1 show thesis by (intro that [of e1]) (auto simp: zero_Result_def)
  next
    case False
    let ?e2 = "trace_enter ct caller contract (msg_Data msg) (msg_Gas msg) (msg_Value msg) e1"
    from r False obtain e3 x where run: "run_frame run (\<lambda>f. f) ?e2 code contract caller msg = Ret (e3, x)"
      and e': "e' = (if r_Err x \<noteq> None then upd_db (\<lambda>d. db_RevertToSnapshot d snap)
          (trace_exit (r_ReturnData x) (msg_Gas msg - r_GasLeft x) (r_Err x) e3)
          else trace_exit (r_ReturnData x) (msg_Gas msg - r_GasLeft x) (r_Err x) e3)"
      and res: "res_Err res = r_Err x" "res_GasLeft res = r_GasLeft x"
      by (auto simp: Let_def go_bind_Ret_iff)
    let ?e4 = "trace_exit (r_ReturnData x) (msg_Gas msg - r_GasLeft x) (r_Err x) e3"
    from run_frame_law [OF assms(1) run]
    have e3: "evm_rel L C i False ?e2 e3" "r_GasLeft x \<le> msg_Gas msg" for i by auto
    have e4: "evm_rel L C i False e ?e4" for i
      by (rule evm_rel_trans [OF e1 evm_rel_trans [OF trace_rel(1) evm_rel_trans [OF e3(1) trace_rel(2)]]])
    show thesis by (rule that [OF e4]) (use e' res e3(2) in simp_all)
  qed
qed

lemma call_contract_rel:
  assumes "run_law L C run" and "call_contract L run e msg ct contract caller = Ret (e', res)"
  obtains snap d0 e2 where "db_Snapshot (e_db e) = (snap, d0)"
    and "\<And>i. evm_rel L C i False (e\<lparr>e_db := d0\<rparr>) e2"
    and "e' = (if res_Err res \<noteq> None then upd_db (\<lambda>d. db_RevertToSnapshot d snap) e2 else e2)"
    and "res_GasLeft res \<le> msg_Gas msg"
proof -
  note result = that
  obtain snap d0 where snap: "db_Snapshot (e_db e) = (snap, d0)" by force
  let ?e1 = "upd_db (\<lambda>d. db_WarmAddress (db_WarmAddress d caller) contract) (e\<lparr>e_db := d0\<rparr>)"
  have e1: "evm_rel L C i False (e\<lparr>e_db := d0\<rparr>) ?e1" for i
    by (rule evm_rel_upd_db) (auto simp: db_WarmAddress_def intro: db_rel_trans db_rel_mutators)
  have finish: thesis if rc: "run_code L run e2 snap msg ct contract caller = Ret (e', res)"
    and e2: "\<And>i. evm_rel L C i False ?e1 e2" for e2
  proof (rule run_code_rel [OF assms(1) rc])
    fix e3
    assume e3: "\<And>i. evm_rel L C i False e2 e3"
      "e' = (if res_Err res \<noteq> None then upd_db (\<lambda>d. db_RevertToSnapshot d snap) e3 else e3)"
      "res_GasLeft res \<le> msg_Gas msg"
    show thesis
      by (rule result [OF snap _ e3(2,3)]) (intro evm_rel_trans [OF e1] evm_rel_trans [OF e2] e3(1))
  qed
  show thesis
  proof (cases "ct = CallTypeCall \<or> ct = CallTypeCallCode")
    case False
    then show thesis using assms(2) snap by (intro finish [of ?e1]) (auto simp: call_contract_def Let_def)
  next
    case True
    obtain r e2 where tr: "transfer L ?e1 caller contract (msg_Value msg) = (r, e2)" by force
    show thesis
    proof (cases r)
      case (Some e3)
      have "evm_rel L C i False ?e1 e3" for i by (rule transfer_rel(2) [OF tr Some])
      then show thesis
        using assms(2) snap tr Some True by (intro finish [of e3]) (auto simp: call_contract_def Let_def)
    next
      case None
      then have "e' = upd_db (\<lambda>d. db_RevertToSnapshot d snap) e2" "res_Err res = Some ErrInsufficientFunds"
        "res_GasLeft res = 0"
        using assms(2) snap tr True by (auto simp: call_contract_def Let_def zero_Result_def)
      then show thesis
        by (intro result [OF snap evm_rel_trans [OF e1 transfer_rel(1) [OF tr]]]) auto
    qed
  qed
qed

lemma evm_rel_maybe_revert:
  assumes "db_Snapshot (e_db e) = (snap, d0)" and "evm_rel L C i False (e\<lparr>e_db := d0\<rparr>) e2"
  shows "evm_rel L C i False e e2" and "evm_rel L C i False e (upd_db (\<lambda>d. db_RevertToSnapshot d snap) e2)"
proof -
  show "evm_rel L C i False e e2" by (rule evm_rel_trans [OF Snapshot_rel(1) [OF assms(1)] assms(2)])
  then show "evm_rel L C i False e (upd_db (\<lambda>d. db_RevertToSnapshot d snap) e2)"
    by (rule evm_rel_revert) (rule Snapshot_rel(2) [OF assms(1)])
qed

lemma EVM_execCall_rel:
  assumes "run_law L C run" and "EVM_execCall L run e msg ct contract caller = Ret (e', res)"
  shows "evm_rel L C i False e e'"
proof -
  have "evm_rel L C i False e e'" if "call_contract L run e msg ct contract caller = Ret (e', res)"
    by (rule call_contract_rel [OF assms(1) that]) (auto intro: evm_rel_maybe_revert)
  then show ?thesis
    using assms(2) by (auto simp: EVM_execCall_def go_bind_Ret_iff split: if_splits)
qed

lemma create_setup_rel:
  assumes "\<And>s. e_db e = PlainDB s \<Longrightarrow> a \<noteq> from \<and> accounts s a = None \<or> a \<in> C"
  shows "evm_rel L C i False e (upd_db (\<lambda>d. db_WarmAddress (db_SetNonce L (db_CreateAccount L
      (db_SetNonce L d from n) a) a 1) a) e)"
proof (rule evm_rel_upd_db)
  fix s assume s: "e_db e = PlainDB s"
  have "accounts (SetNonce s from n) a = None \<or> a \<in> C"
    using assms [OF s] by (cases "accounts s from") (auto simp: mutator_defs getOrCreate_def)
  from db_rel_trans [OF db_rel_mutators(4) db_rel_new_contract [OF this]]
  show "\<exists>s'. db_WarmAddress (db_SetNonce L (db_CreateAccount L (db_SetNonce L (PlainDB s) from n) a) a 1) a = PlainDB s'
    \<and> db_rel L C i s s'"
    by (auto simp: db_method_defs)
qed

lemma db_GetNonce_plain: "snd (db_GetNonce L (PlainDB s) a) = PlainDB s"
  by (simp add: db_GetNonce_def Let_def)

lemma evm_rel_nonce: "evm_rel L C i b e (e\<lparr>e_db := snd (db_GetNonce L (e_db e) a)\<rparr>)"
  by (rule evm_rel_db) (simp add: db_GetNonce_plain)

lemma contract_address_rel:
  "contract_address L e msg salt = (addr, e1) \<Longrightarrow> evm_rel L C i b e e1"
  using evm_rel_nonce [of L C i b e "msg_From msg"]
  by (cases salt) (auto simp: contract_address_def ask_def case_prod_beta)

lemma init_account_rel:
  assumes "\<And>s. e_db e = PlainDB s \<Longrightarrow> addr \<noteq> msg_From msg \<and> accounts s addr = None \<or> addr \<in> C"
  shows "evm_rel L C i False e (init_account L e msg addr)"
  unfolding init_account_def ask_def case_prod_beta
proof (rule evm_rel_trans [OF evm_rel_nonce create_setup_rel])
  fix s assume "e_db (e\<lparr>e_db := snd (db_GetNonce L (e_db e) (msg_From msg))\<rparr>) = PlainDB s"
  then have "e_db e = PlainDB s" by (cases "e_db e") (auto simp: db_GetNonce_def split: prod.splits)
  with assms show "addr \<noteq> msg_From msg \<and> accounts s addr = None \<or> addr \<in> C" by blast
qed

text \<open>
  A create at a taken address: an account exists there when \<open>CreateAccount\<close> is called, or the address is the
  creator's own.
\<close>

definition collides :: "lib \<Rightarrow> EVM \<Rightarrow> Message \<Rightarrow> bytes option \<Rightarrow> bool" where
  "collides L e msg salt \<longleftrightarrow>
     (case db_Snapshot (e_db e) of (snap, d0) \<Rightarrow>
      case contract_address L (e\<lparr>e_db := d0\<rparr>) msg salt of (addr, e1) \<Rightarrow>
        addr = msg_From msg \<or> fst (db_Exists L (e_db e1) addr))"

lemma EVM_create_rel:
  assumes "run_law L C run" and "C = UNIV \<or> \<not> collides L e msg salt"
    and "EVM_create L run e msg salt = Ret (e', res)"
  obtains snap d0 e2 where "db_Snapshot (e_db e) = (snap, d0)"
    and "\<And>i. evm_rel L C i False (e\<lparr>e_db := d0\<rparr>) e2"
    and "e' = (if res_Err res \<noteq> None then upd_db (\<lambda>d. db_RevertToSnapshot d snap) e2 else e2)"
    and "res_GasLeft res \<le> msg_Gas msg"
proof -
  note result = that
  obtain snap d0 where snap: "db_Snapshot (e_db e) = (snap, d0)" by force
  let ?e0 = "e\<lparr>e_db := d0\<rparr>"
  obtain addr e1 where addr: "contract_address L ?e0 msg salt = (addr, e1)" by force
  let ?e2 = "init_account L e1 msg addr"
  have e2: "evm_rel L C i False ?e0 ?e2" for i
  proof (rule evm_rel_trans [OF contract_address_rel [OF addr] init_account_rel])
    fix s assume "e_db e1 = PlainDB s"
    then show "addr \<noteq> msg_From msg \<and> accounts s addr = None \<or> addr \<in> C"
      using assms(2) by (auto simp: collides_def snap addr db_Exists_def Exists_def)
  qed
  obtain r e3 where tr: "transfer L ?e2 (msg_From msg) addr (msg_Value msg) = (r, e3)" by force
  note unf = assms(3) [unfolded EVM_create_def snap prod.case addr tr]
  show thesis
  proof (cases r)
    case None
    with unf have "e' = upd_db (\<lambda>d. db_RevertToSnapshot d snap) e3" "res_Err res = Some ErrInsufficientFunds"
      "res_GasLeft res = 0"
      by (auto simp: zero_Result_def)
    then show thesis
      by (intro result [OF snap evm_rel_trans [OF e2 transfer_rel(1) [OF tr]]]) auto
  next
    case (Some e5)
    have e5: "evm_rel L C i False ?e0 e5" for i by (rule evm_rel_trans [OF e2 transfer_rel(2) [OF tr Some]])
    obtain e6 x where run: "run_frame run (\<lambda>f. f) e5 (msg_Data msg) addr (msg_From msg) msg = Ret (e6, x)"
      and fin: "finish_create L snap addr msg e6 x = (e', res)"
      using unf Some by (auto simp: go_bind_Ret_iff)
    from run_frame_law [OF assms(1) run]
    have e6: "evm_rel L C i False ?e0 e6" "r_GasLeft x \<le> msg_Gas msg" "length (r_ReturnData x) \<le> maxAlloc" for i
      by (auto intro: evm_rel_trans [OF e5])
    have code: "evm_rel L C i False ?e0 (upd_db (\<lambda>d. db_SetCode L d addr (r_ReturnData x) h) e6)" for i h
      using e6(3)
      by (intro evm_rel_trans [OF e6(1)] evm_rel_upd_db)
        (auto simp: db_SetCode_def maxAlloc_def intro!: db_rel_SetCode)
    show thesis
    proof (cases "r_Err x")
      case None
      with fin
      have "e' = upd_db (\<lambda>d. db_SetCode L d addr (r_ReturnData x) (keccak256Hash L (r_ReturnData x))) e6"
        "res_Err res = None" "res_GasLeft res = r_GasLeft x" by (auto simp: finish_create_def)
      then show thesis by (intro result [OF snap code]) (use e6(2) in auto)
    next
      case (Some err)
      with fin
      have "e' = upd_db (\<lambda>d. db_RevertToSnapshot d snap) e6" "res_Err res = r_Err x" "res_GasLeft res = 0"
        by (auto simp: zero_Result_def finish_create_def split: if_splits)
      with Some show thesis by (intro result [OF snap e6(1)]) auto
    qed
  qed
qed

lemma static_call_rel:
  assumes "run_law L C run" and "static_call L run e pf msg codeAddr contract caller = Ret (e', res)"
  shows "evm_rel L C i False e e'"
proof -
  obtain snap d0 where snap: "db_Snapshot (e_db e) = (snap, d0)" by force
  note unf = assms(2) [unfolded static_call_def snap prod.case]
  show ?thesis
  proof (rule ask_rel [OF unf])
    show "snd (db_GetCode L (PlainDB s) codeAddr) = PlainDB s" for s by (simp add: db_GetCode_def Let_def)
    fix code e1
    assume r: "go_bind (run_frame run (\<lambda>f. f\<lparr>Static := True, Depth := Depth pf + 1\<rparr>) e1 code contract caller msg)
            (\<lambda>(e2, r).
              Ret (if r_Err r \<noteq> None \<and> r_Err r \<noteq> Some ErrRevert
                   then upd_db (\<lambda>d. db_RevertToSnapshot d snap) e2 else e2,
                   zero_Result\<lparr>res_ReturnData := r_ReturnData r, res_GasLeft := r_GasLeft r,
                     res_Err := r_Err r\<rparr>)) = Ret (e', res)"
      and e1: "\<And>i b. evm_rel L C i b (e\<lparr>e_db := d0\<rparr>) e1"
    from r obtain e2 x where run: "run_frame run (\<lambda>f. f\<lparr>Static := True, Depth := Depth pf + 1\<rparr>) e1 code contract caller msg = Ret (e2, x)"
      and e': "e' = (if r_Err x \<noteq> None \<and> r_Err x \<noteq> Some ErrRevert
                   then upd_db (\<lambda>d. db_RevertToSnapshot d snap) e2 else e2)"
      by (auto simp: go_bind_Ret_iff)
    have "evm_rel L C i False e1 e2" for i
      using run_frame_law [OF assms(1) run] by (simp add: frame_ok_def)
    then have "evm_rel L C i False (e\<lparr>e_db := d0\<rparr>) e2" for i by (rule evm_rel_trans [OF e1])
    from evm_rel_maybe_revert [OF snap this] e' show ?thesis by simp
  qed
qed

lemma if_cases: "P a \<Longrightarrow> P b \<Longrightarrow> P (if c then a else b)"
  by simp

lemma foreign_code_call_rel:
  assumes "run_law L C run" and "foreign_code_call L run e pf ct msg val codeAddr contract caller = Ret (e', res)"
  shows "evm_rel L C i False e e'"
proof -
  obtain snap d0 where snap: "db_Snapshot (e_db e) = (snap, d0)" by force
  let ?e0 = "e\<lparr>e_db := d0\<rparr>"
  show ?thesis
  proof (rule ask_rel [OF assms(2) [unfolded foreign_code_call_def snap prod.case]])
    show "snd (db_GetCode L (PlainDB s) codeAddr) = PlainDB s" for s by (simp add: db_GetCode_def Let_def)
    fix code e1
    assume e1: "\<And>i b. evm_rel L C i b ?e0 e1"
    obtain poor e2 where poor: "lacks_funds L e1 ct caller val = (poor, e2)" by force
    have "evm_rel L C i False e1 e2" for i
      using poor fx.get_balance [of L C i False e1 caller]
      by (auto simp: lacks_funds_def ask_def case_prod_beta split: if_splits)
    then have e2: "evm_rel L C i False ?e0 e2" for i by (rule evm_rel_trans [OF e1])
    let ?e3 = "trace_enter ct caller contract (msg_Data msg) (msg_Gas msg) (Some (SetUint64 val)) e2"
    assume r: "(case lacks_funds L e1 ct caller val of (poor, e2) \<Rightarrow>
          if poor then
            Ret (e2, zero_Result\<lparr>res_GasLeft := msg_Gas msg, res_Err := Some ErrInsufficientFunds\<rparr>)
          else if length code = 0 then Ret (e2, zero_Result\<lparr>res_GasLeft := msg_Gas msg\<rparr>)
          else
            let e3 = trace_enter ct caller contract (msg_Data msg) (msg_Gas msg) (Some (SetUint64 val)) e2 in
            go_bind (run_frame run (\<lambda>f. f\<lparr>Depth := Depth pf + 1\<rparr>) e3 code contract caller msg)
              (\<lambda>(e4, r).
                let e5 = trace_exit (r_ReturnData r) (msg_Gas msg - r_GasLeft r) (r_Err r) e4
                in Ret (if r_Err r \<noteq> None then upd_db (\<lambda>d. db_RevertToSnapshot d snap) e5 else e5,
                        zero_Result\<lparr>res_ReturnData := r_ReturnData r, res_GasLeft := r_GasLeft r,
                          res_Err := r_Err r\<rparr>))) = Ret (e', res)"
    show ?thesis
    proof (cases "poor \<or> length code = 0")
      case True
      with r poor have "e' = e2" by (auto split: if_splits)
      with evm_rel_maybe_revert(1) [OF snap e2] show ?thesis by simp
    next
      case False
      with r poor obtain e4 x where
        run: "run_frame run (\<lambda>f. f\<lparr>Depth := Depth pf + 1\<rparr>) ?e3 code contract caller msg = Ret (e4, x)"
        and e': "e' = (if r_Err x \<noteq> None
          then upd_db (\<lambda>d. db_RevertToSnapshot d snap) (trace_exit (r_ReturnData x) (msg_Gas msg - r_GasLeft x) (r_Err x) e4)
          else trace_exit (r_ReturnData x) (msg_Gas msg - r_GasLeft x) (r_Err x) e4)"
        by (auto simp: go_bind_Ret_iff Let_def)
      have "evm_rel L C i False ?e3 e4" for i
        using run_frame_law [OF assms(1) run] by (simp add: frame_ok_def)
      then have "evm_rel L C i False ?e0 (trace_exit (r_ReturnData x) (msg_Gas msg - r_GasLeft x) (r_Err x) e4)" for i
        by (intro evm_rel_trans [OF e2 evm_rel_trans [OF trace_rel(1) evm_rel_trans [OF _ trace_rel(2)]]])
      note both = evm_rel_maybe_revert [OF snap this]
      show ?thesis unfolding e' by (rule if_cases) (rule both)+
    qed
  qed
qed

section \<open>The EVM is a lawful call handler\<close>

lemma EVM_Call_rel:
  assumes "run_law L C run" and "EVM_Call L run e pf ct a v g inp = Ret (e', ret, gl, err)"
  shows "evm_rel L C i False e e'"
  using assms(2)
  by (auto simp: EVM_Call_def Let_def go_bind_Ret_iff split: if_splits
      intro: static_call_rel [OF assms(1)] foreign_code_call_rel [OF assms(1)] EVM_execCall_rel [OF assms(1)])

text \<open>The message of a CREATE or CREATE2.\<close>

definition create_message :: "Frame \<Rightarrow> u64 \<Rightarrow> bytes \<Rightarrow> Message" where
  "create_message parent val code =
     zero_Message\<lparr>msg_From := Contract parent, msg_Gas := Gas parent, msg_Value := Some (SetUint64 val), msg_Data := code\<rparr>"

lemma EVM_Create_eq:
  "EVM_Create L run e parent val code salt =
     (if Depth parent + 1 \<ge> MaxCallDepth then Ret (e, ZeroAddress, 0, Some ErrDepthLimit)
      else go_bind (EVM_create L run e (create_message parent val code) salt) (\<lambda>(e', res).
        Ret (e', (case res_ContractAddress res of Some a \<Rightarrow> a | None \<Rightarrow> ZeroAddress), res_GasLeft res, res_Err res)))"
  by (simp add: EVM_Create_def create_message_def Let_def)

lemma EVM_Create_rel:
  assumes "run_law L C run" and "C = UNIV \<or> Depth pf + 1 \<ge> MaxCallDepth \<or> \<not> collides L e (create_message pf v code) salt"
    and "EVM_Create L run e pf v code salt = Ret (e', addr, gl, err)"
  shows "evm_rel L C i False e e' \<and> gl \<le> Gas pf"
proof (cases "Depth pf + 1 \<ge> MaxCallDepth")
  case True
  with assms(3) show ?thesis by (auto simp: EVM_Create_eq)
next
  case False
  with assms(3) obtain res where c: "EVM_create L run e (create_message pf v code) salt = Ret (e', res)"
    and g: "gl = res_GasLeft res"
    by (auto simp: EVM_Create_eq go_bind_Ret_iff)
  from assms(2) False have free: "C = UNIV \<or> \<not> collides L e (create_message pf v code) salt" by simp
  show ?thesis
    by (rule EVM_create_rel [OF assms(1) free c]) (auto simp: g create_message_def intro: evm_rel_maybe_revert)
qed

text \<open>
  The EVM runs creates at any address; the same EVM that gives up on a create at a taken address tells
  which runs have none.
\<close>

definition careful_Create ::
  "lib \<Rightarrow> runner \<Rightarrow> EVM \<Rightarrow> Frame \<Rightarrow> u64 \<Rightarrow> bytes \<Rightarrow> bytes option \<Rightarrow> (EVM \<times> Address \<times> u64 \<times> error option) go" where
  "careful_Create L run e parent val code salt =
     (if Depth parent + 1 < MaxCallDepth \<and> collides L e (create_message parent val code) salt then NoFuel
      else EVM_Create L run e parent val code salt)"

fun careful_at :: "lib \<Rightarrow> nat \<Rightarrow> nat \<Rightarrow> handler" where
  "careful_at L fuel 0 = handler_at L fuel 0"
| "careful_at L fuel (Suc d) =
     \<lparr>h_Call = EVM_Call L (Run L (careful_at L fuel d) fuel),
      h_Create = careful_Create L (Run L (careful_at L fuel d) fuel)\<rparr>"

definition careful_run :: "lib \<Rightarrow> nat \<Rightarrow> nat \<Rightarrow> runner" where
  "careful_run L fuel d = Run L (careful_at L fuel d) fuel"

lemma careful_Create_rel:
  assumes "run_law L C run" and "careful_Create L run e pf v code salt = Ret (e', addr, gl, err)"
  shows "evm_rel L C i False e e' \<and> gl \<le> Gas pf"
proof -
  have "C = UNIV \<or> Depth pf + 1 \<ge> MaxCallDepth \<or> \<not> collides L e (create_message pf v code) salt"
    and "EVM_Create L run e pf v code salt = Ret (e', addr, gl, err)"
    using assms(2) by (auto simp: careful_Create_def not_less split: if_splits)
  with assms(1) show ?thesis by (rule EVM_Create_rel)
qed

lemma call_handler_at: "call_handler L (evm_rel L UNIV i) (handler_at L fuel d)"
proof (induction d arbitrary: i)
  case 0
  show ?case by unfold_locales simp_all
next
  case (Suc d)
  have "run_law L UNIV (Run L (handler_at L fuel d) fuel)" by (rule run_law_Run) (rule Suc)
  then show ?case
    by unfold_locales (auto intro: EVM_Call_rel dest: EVM_Create_rel)
qed

lemma careful_handler_at: "call_handler L (evm_rel L {} i) (careful_at L fuel d)"
proof (induction d arbitrary: i)
  case 0
  show ?case by unfold_locales simp_all
next
  case (Suc d)
  have "run_law L {} (Run L (careful_at L fuel d) fuel)" by (rule run_law_Run) (rule Suc)
  then show ?case
    by unfold_locales (auto intro: EVM_Call_rel dest: careful_Create_rel)
qed

interpretation evm_handler: call_handler L "evm_rel L UNIV i" "handler_at L fuel d" for L i fuel d
  by (rule call_handler_at)

interpretation careful_handler: call_handler L "evm_rel L {} i" "careful_at L fuel d" for L i fuel d
  by (rule careful_handler_at)

lemma run_law_EVM: "run_law L UNIV (EVM_run L fuel d)"
  unfolding EVM_run_def by (rule run_law_Run) (rule call_handler_at)

lemma run_law_careful: "run_law L {} (careful_run L fuel d)"
  unfolding careful_run_def by (rule run_law_Run) (rule careful_handler_at)

end
