(* ===== verification/Termination.thy ===== *)
theory Termination
  imports Effects
begin

text \<open>
  Running code returns.  Every pass through the interpreter's loop burns gas or moves the program counter
  forward within the code (\<open>moves_on\<close>), so a bound on the fuel follows from the gas and the length of
  the code.  A call or create hands on strictly less gas than the frame started with, so the nesting is
  bounded by the gas as well.  \<open>quiet g k\<close> says that code started with at most \<open>g\<close> gas does not run out
  of fuel.
\<close>

named_theorems quiet_intros

text \<open>A plain database whose code lengths fit 64 bits, and a well-formed frame pool.\<close>

definition good :: "EVM \<Rightarrow> bool" where
  "good e \<longleftrightarrow> pool_ok e \<and> (\<exists>s. e_db e = PlainDB s \<and> codes_ok s)"

lemma good_rel: "evm_rel L UNIV i b e e' \<Longrightarrow> good e \<Longrightarrow> good e'"
  by (auto simp: good_def evm_rel_def db_rel_def)

definition quiet :: "nat \<Rightarrow> (machine \<Rightarrow> 'a go) \<Rightarrow> bool" where
  "quiet g k \<longleftrightarrow> (\<forall>m. good (evm m) \<longrightarrow> unat (Gas (fr m)) \<le> g \<longrightarrow> k m \<noteq> NoFuel)"

lemma quietD: "quiet g k \<Longrightarrow> good (evm m) \<Longrightarrow> unat (Gas (fr m)) \<le> g \<Longrightarrow> k m \<noteq> NoFuel"
  by (simp add: quiet_def)

lemma quiet_all: "(\<And>m. k m \<noteq> NoFuel) \<Longrightarrow> quiet g k"
  by (simp add: quiet_def)

lemma quiet_mono: "quiet g k \<Longrightarrow> h \<le> g \<Longrightarrow> quiet h k"
  by (auto simp: quiet_def)

section \<open>Primitives never run out of fuel\<close>

lemma data_fuel [simp]: "data_at s i \<noteq> NoFuel" "data_set s i v \<noteq> NoFuel"
  by (simp_all add: data_at_def data_set_def)

lemma stack_fuel [simp]:
  "Pop s \<noteq> NoFuel" "Push s v \<noteq> NoFuel" "PushRaw s w \<noteq> NoFuel" "Back s n \<noteq> NoFuel"
  "SetBack s n v \<noteq> NoFuel" "DupN s n \<noteq> NoFuel" "SwapN s n \<noteq> NoFuel"
  by (simp_all add: Pop_def Push_def PushRaw_def Back_def SetBack_def DupN_def SwapN_def Let_def
      go_bind_NoFuel_iff)

lemma memory_fuel [simp]:
  "Get x off sz \<noteq> NoFuel" "GetCopy x off sz \<noteq> NoFuel" "GetPtr x off sz \<noteq> NoFuel"
  "Set32 x off val \<noteq> NoFuel" "SetByte x off b \<noteq> NoFuel" "Expand x off sz g \<noteq> NoFuel"
  by (simp_all add: Get_def GetCopy_def GetPtr_def Set32_def SetByte_def Expand_def go_make_def grow_def
      Let_def go_bind_NoFuel_iff split: sum.split prod.split)

lemma db_fuel [simp]:
  "db_GetStorage L d a k \<noteq> NoFuel" "db_GetCommittedStorage L d a k \<noteq> NoFuel"
  by (cases d; auto simp: db_GetStorage_def db_GetCommittedStorage_def EnsureSlot_def fetchSlot_def Let_def
      slot_value_def go_bind_NoFuel_iff split: option.splits prod.splits if_splits)+

section \<open>The building blocks\<close>

lemma gas_simps [simp]:
  "Gas (fr (set_stack s m)) = Gas (fr m)" "Gas (fr (set_mem x m)) = Gas (fr m)"
  "Gas (fr (use_gas g m)) = Gas (fr m) - g"
  "evm (set_stack s m) = evm m" "evm (set_mem x m) = evm m" "evm (use_gas g m) = evm m"
  by (simp_all add: set_stack_def set_mem_def use_gas_def)

lemma quiet_ends [quiet_intros]:
  "quiet g op_ok" "quiet g (op_fail e)" "quiet g (return_err e)" "quiet g return_ok"
  by (simp_all add: quiet_def op_ok_def op_fail_def return_err_def return_ok_def)

lemma quiet_if [quiet_intros]:
  "(c \<Longrightarrow> quiet g k) \<Longrightarrow> (\<not> c \<Longrightarrow> quiet g l) \<Longrightarrow> quiet g (if c then k else l)"
  by simp

lemma quiet_if_at:
  "quiet g k \<Longrightarrow> quiet g l \<Longrightarrow> quiet g (\<lambda>m. if c m then k m else l m)"
  by (simp add: quiet_def)

lemma quiet_at: "(\<And>m. quiet g (k m)) \<Longrightarrow> quiet g (\<lambda>m. k m m)"
  by (simp add: quiet_def)

lemma quiet_stack [quiet_intros]:
  "(\<And>v. quiet g (kp v)) \<Longrightarrow> quiet g (pop kp)"
  "(\<And>v. quiet g (kk v)) \<Longrightarrow> quiet g (peek n kk)"
  "quiet g k \<Longrightarrow> quiet g (poke n v k)"
  "(\<And>v. quiet g (kr v)) \<Longrightarrow> quiet g (pop_or_return kr)"
  "quiet g kd \<Longrightarrow> quiet g (drop_top kd)"
  by (auto simp: quiet_def pop_def peek_def poke_def pop_or_return_def drop_top_def op_fail_def
      return_err_def go_bind_NoFuel_iff split: sum.splits)

lemma quiet_push [quiet_intros]:
  "quiet g (push v)" "quiet g (push_raw w)" "quiet g (opDup i)" "quiet g (opSwap i)"
  "quiet g (\<lambda>m. push (fv m) m)" "quiet g (\<lambda>m. push_raw (fw m) m)"
  by (auto simp: quiet_def push_def push_raw_def opDup_def opSwap_def push_result_def op_ok_def op_fail_def
      go_bind_NoFuel_iff split: sum.splits)

lemma quiet_push_and_return:
  "(\<And>m. r m \<noteq> NoFuel) \<Longrightarrow> quiet g (\<lambda>m. push_and_return (r m) m)"
  by (auto simp: quiet_def push_and_return_def return_ok_def go_bind_NoFuel_iff split: sum.splits)

lemma quiet_memory [quiet_intros]:
  "(\<And>x. quiet g (kx x)) \<Longrightarrow> quiet g (with_mem (\<lambda>x. Get x off sz) kx)"
  "(\<And>x. quiet g (ka x)) \<Longrightarrow> quiet g (with_mem (\<lambda>x. GetCopy x off sz) ka)"
  "(\<And>x. quiet g (kp x)) \<Longrightarrow> quiet g (with_mem (\<lambda>x. GetPtr x off sz) kp)"
  "quiet g k \<Longrightarrow> quiet g (write_mem (\<lambda>x. Ret (h x)) k)"
  "quiet g k \<Longrightarrow> quiet g (write_mem (\<lambda>x. Set32 x off val) k)"
  "quiet g k \<Longrightarrow> quiet g (write_mem (\<lambda>x. SetByte x off b) k)"
  by (auto simp: quiet_def with_mem_def write_mem_def go_bind_NoFuel_iff)

lemma quiet_read_db:
  assumes "\<And>e. evm_rel L UNIV 0 b e (e\<lparr>e_db := snd (f (e_db e))\<rparr>)" and "\<And>x. quiet g (k x)"
  shows "quiet g (read_db f k)"
  unfolding quiet_def
proof (intro allI impI)
  fix m :: machine assume "good (evm m)" and g: "unat (Gas (fr m)) \<le> g"
  then have "good (evm (set_db (snd (f (db_of m))) m))" using good_rel [OF assms(1)] by simp
  then have "k (fst (f (db_of m))) (set_db (snd (f (db_of m))) m) \<noteq> NoFuel"
    using quietD [OF assms(2)] g by simp
  then show "read_db f k m \<noteq> NoFuel" by (simp add: read_db_def case_prod_beta)
qed

lemmas quiet_reads [quiet_intros] =
  quiet_read_db [OF fx.get_balance] quiet_read_db [OF fx.get_code] quiet_read_db [OF fx.get_code_hash]
  quiet_read_db [OF fx.exists] quiet_read_db [OF fx.empty]

lemma quiet_write_db:
  assumes "\<And>e. evm_rel L UNIV 0 b e (e\<lparr>e_db := f (e_db e)\<rparr>)" and "quiet g k"
  shows "quiet g (write_db f k)"
  unfolding quiet_def
proof (intro allI impI)
  fix m :: machine assume "good (evm m)" and g: "unat (Gas (fr m)) \<le> g"
  then have "good (evm (set_db (f (db_of m)) m))" using good_rel [OF assms(1)] by simp
  then show "write_db f k m \<noteq> NoFuel" using quietD [OF assms(2)] g by (simp add: write_db_def)
qed

lemmas quiet_writes [quiet_intros] =
  quiet_write_db [OF fx.warm_address] quiet_write_db [OF fx.warm_slot]
  quiet_write_db [OF fx.set_storage] quiet_write_db [OF fx.add_balance]
  quiet_write_db [OF fx.sub_balance] quiet_write_db [OF fx.add_log]
  quiet_write_db [OF fx.add_refund] quiet_write_db [OF fx.suicide]

lemma quiet_read_db_go:
  assumes "\<And>e v d. f (e_db e) = Ret (v, d) \<Longrightarrow> evm_rel L UNIV 0 b e (e\<lparr>e_db := d\<rparr>)"
    and "\<And>x. quiet g (k x)" and "\<And>d. f d \<noteq> NoFuel"
  shows "quiet g (read_db_go f k)"
  unfolding quiet_def
proof (intro allI impI)
  fix m :: machine assume good: "good (evm m)" and g: "unat (Gas (fr m)) \<le> g"
  have "k v (set_db d m) \<noteq> NoFuel" if "f (db_of m) = Ret (v, d)" for v d
    using good_rel [OF assms(1) [OF that] good] g by (intro quietD [OF assms(2)]) simp_all
  then show "read_db_go f k m \<noteq> NoFuel"
    using assms(3) by (auto simp: read_db_go_def go_bind_NoFuel_iff)
qed

lemma quiet_read_storage [quiet_intros]:
  assumes "\<And>x. quiet g (k x)"
  shows "quiet g (read_db_go (\<lambda>d. db_GetStorage L d a slot) k)"
    and "quiet g (read_db_go (\<lambda>d. db_GetCommittedStorage L d a slot) k)"
  by (rule quiet_read_db_go [OF fx.get_storage assms] quiet_read_db_go [OF fx.get_committed assms];
      simp)+

lemma quiet_set_pc [quiet_intros]: "quiet g k \<Longrightarrow> quiet g (set_pc pc k)"
  by (simp add: quiet_def set_pc_def)

lemma quiet_pop_topics: "(\<And>ts. quiet g (k ts)) \<Longrightarrow> quiet g (pop_topics n ts k)"
  by (induction n arbitrary: ts) (auto intro: quiet_stack)

section \<open>The opcode functions\<close>

lemma quiet_copy_in [quiet_intros]: "quiet g (copy_in dest off sz dat)"
  unfolding copy_in_def by (intro quiet_intros)

lemma quiet_arith [quiet_intros]:
  "quiet g (opAdd L)" "quiet g (opMul L)" "quiet g (opSub L)" "quiet g (opDiv L)" "quiet g (opSDiv L)"
  "quiet g (opMod L)" "quiet g (opSMod L)" "quiet g (opAddMod L)" "quiet g (opMulMod L)"
  "quiet g (opExp L)" "quiet g (opSignExtend L)" "quiet g (opNot L)" "quiet g (opLt L)"
  "quiet g (opGt L)" "quiet g (opSlt L)" "quiet g (opSgt L)" "quiet g opEq" "quiet g opIsZero"
  "quiet g (opAnd L)" "quiet g (opOr L)" "quiet g (opXor L)" "quiet g opByte" "quiet g (opShl L)"
  "quiet g (opShr L)" "quiet g (opSar L)" "quiet g (opSha3 L)"
  unfolding opAdd_def opMul_def opSub_def opDiv_def opSDiv_def opMod_def opSMod_def opAddMod_def
    opMulMod_def opExp_def opSignExtend_def opNot_def opLt_def opGt_def opSlt_def opSgt_def opEq_def
    opIsZero_def opAnd_def opOr_def opXor_def opByte_def opShl_def opShr_def opSar_def opSha3_def
  by (intro quiet_intros)+

lemma quiet_at_consts [quiet_intros]:
  "quiet g (\<lambda>m. poke n (v m) op_ok m)" "quiet g (\<lambda>m. copy_in dest off sz (dat m) m)"
  by (rule quiet_at, intro quiet_intros)+

lemma quiet_env [quiet_intros]:
  "quiet g opAddress" "quiet g (opBalance L)" "quiet g opOrigin" "quiet g opCaller" "quiet g opCallValue"
  "quiet g opCalldataLoad" "quiet g opCalldataSize" "quiet g opCodeSize" "quiet g opGasPrice"
  "quiet g (opExtCodeSize L)" "quiet g opReturnDataSize" "quiet g (opExtCodeHash L)" "quiet g opBlockHash"
  "quiet g opCoinbase" "quiet g opTimestamp" "quiet g opNumber" "quiet g opDifficulty" "quiet g opGasLimit"
  "quiet g opChainID" "quiet g opBaseFee"
  unfolding opAddress_def [abs_def] opBalance_def opOrigin_def [abs_def] opCaller_def [abs_def]
    opCallValue_def [abs_def] opCalldataLoad_def opCalldataSize_def [abs_def] opCodeSize_def [abs_def]
    opGasPrice_def [abs_def] opExtCodeSize_def opReturnDataSize_def [abs_def] opExtCodeHash_def
    opBlockHash_def opCoinbase_def [abs_def] opTimestamp_def [abs_def] opNumber_def [abs_def]
    opDifficulty_def [abs_def] opGasLimit_def [abs_def] opChainID_def [abs_def] opBaseFee_def [abs_def]
  by (intro quiet_intros)+

lemma quiet_env_at [quiet_intros]: "quiet g (opSelfBalance L)" "quiet g (opSload L)"
  unfolding opSelfBalance_def [abs_def] opSload_def [abs_def] by (rule quiet_at, intro quiet_intros)+

lemma quiet_copies [quiet_intros]:
  "quiet g opCalldataCopy" "quiet g opCodeCopy" "quiet g (opExtCodeCopy L)"
  unfolding opCalldataCopy_def opCodeCopy_def opExtCodeCopy_def by (intro quiet_intros)+

lemma quiet_opReturnDataCopy [quiet_intros]: "quiet g opReturnDataCopy"
proof -
  have "quiet g (\<lambda>m. if c m then op_fail e m else if d then op_ok m
      else with_mem (\<lambda>x. GetPtr x dest sz) (\<lambda>dst. write_mem (\<lambda>x. Ret (copy_ptr x dst (dat m))) op_ok) m)"
    for c d e dest sz dat
  proof -
    have "quiet g (\<lambda>m. with_mem (\<lambda>x. GetPtr x dest sz) (\<lambda>dst. write_mem (\<lambda>x. Ret (copy_ptr x dst (dat m))) op_ok) m)"
      by (rule quiet_at) (intro quiet_intros)
    then show ?thesis by (simp add: quiet_def op_fail_def op_ok_def)
  qed
  then show ?thesis unfolding opReturnDataCopy_def Let_def by (intro quiet_stack)
qed

lemma quiet_memory_ops [quiet_intros]:
  "quiet g opPop" "quiet g opMload" "quiet g opMstore" "quiet g opMstore8" "quiet g opPC"
  "quiet g opMsize" "quiet g opGas"
  unfolding opPop_def opMload_def opMstore_def opMstore8_def opPC_def [abs_def] opMsize_def [abs_def]
    opGas_def [abs_def]
  by (intro quiet_intros)+

lemma quiet_stores [quiet_intros]: "quiet g (opSstore L)" "quiet g (opLog n)"
  unfolding opSstore_def [abs_def] opLog_def [abs_def]
  by (intro quiet_if_at quiet_ends; rule quiet_at; intro quiet_intros quiet_pop_topics)+

lemma quiet_jumps [quiet_intros]: "quiet g opJump" "quiet g opJumpi" "quiet g (opPush n)"
proof -
  have j: "quiet g (jump_to d)" for d
    unfolding jump_to_def [abs_def] by (intro quiet_if_at quiet_intros)
  show "quiet g opJump" "quiet g opJumpi"
    unfolding opJump_def opJumpi_def by (intro quiet_intros j)+
  show "quiet g (opPush n)"
    using quiet_set_pc [OF quiet_push(1)] by (simp add: quiet_def opPush_def Let_def)
qed

section \<open>Charges\<close>

lemma unat_after_charge: "\<not> x < (c :: u64) \<Longrightarrow> unat x \<le> g \<Longrightarrow> unat c \<le> g \<and> unat (x - c) \<le> g - unat c"
  by (simp add: not_less unat_sub word_le_nat_alt)

lemma quiet_charge [quiet_intros]:
  assumes "unat c \<le> g \<Longrightarrow> quiet (g - unat c) k"
  shows "quiet g (charge c k)"
  unfolding quiet_def
proof (intro allI impI)
  fix m :: machine assume m: "good (evm m)" "unat (Gas (fr m)) \<le> g"
  show "charge c k m \<noteq> NoFuel"
  proof (cases "Gas (fr m) < c")
    case False
    from unat_after_charge [OF False m(2)] quietD [OF assms, of "use_gas c m"] m(1) False
    show ?thesis by (simp add: charge_def)
  qed (simp add: charge_def return_err_def)
qed

lemma quiet_charge_op [quiet_intros]:
  assumes "quiet g k"
  shows "quiet g (charge_op c k)"
  unfolding quiet_def
proof (intro allI impI)
  fix m :: machine assume m: "good (evm m)" "unat (Gas (fr m)) \<le> g"
  show "charge_op c k m \<noteq> NoFuel"
  proof (cases "Gas (fr m) < c")
    case False
    have "unat (Gas (fr m) - c) \<le> g" using unat_after_charge [OF False m(2)] by linarith
    with quietD [OF assms, of "use_gas c m"] m(1) False show ?thesis by (simp add: charge_op_def)
  qed (simp add: charge_op_def op_fail_def)
qed

lemma quiet_fall [quiet_intros]: "quiet g k \<Longrightarrow> quiet g (fall k)"
  by (auto simp: quiet_def fall_def go_bind_NoFuel_iff)

text \<open>Going on after an operation that keeps the laws.\<close>

lemma quiet_bind:
  assumes "quiet g a" and "\<And>s. keeps (evm_rel L UNIV 0) s False p P a"
    and "\<And>m' x. good (evm m') \<Longrightarrow> unat (Gas (fr m')) \<le> g \<Longrightarrow> P m' x \<Longrightarrow> k (m', x) \<noteq> NoFuel"
  shows "quiet g (\<lambda>m. go_bind (a m) k)"
  unfolding quiet_def
proof (intro allI impI)
  fix m :: machine assume m: "good (evm m)" "unat (Gas (fr m)) \<le> g"
  have "k (m', x) \<noteq> NoFuel" if "a m = Ret (m', x)" for m' x
  proof (rule assms(3))
    have s: "sane (evm_rel L UNIV 0) False p m m' \<and> P m' x"
      using fx.keepsD [OF assms(2) HOL.refl, of m] that by simp
    then show "P m' x" "good (evm m')" using m(1) by (auto simp: sane_def intro: good_rel)
    show "unat (Gas (fr m')) \<le> g" using s m(2) by (simp add: sane_def word_le_nat_alt)
  qed
  then show "go_bind (a m) k \<noteq> NoFuel"
    using quietD [OF assms(1) m] by (auto simp: go_bind_NoFuel_iff)
qed

lemma quiet_op_then:
  assumes "quiet g a" and "\<And>s. keeps (evm_rel L UNIV 0) s False p any a" and "quiet g b"
  shows "quiet g (op_then a b)"
  unfolding op_then_def [abs_def]
  by (rule quiet_bind [OF assms(1,2)]) (use quietD [OF assms(3)] in \<open>auto simp: op_fail_def split: option.split\<close>)

lemma quiet_or_return:
  assumes "quiet g a" and "\<And>s. keeps (evm_rel L UNIV 0) s False p any a" and "quiet g k"
  shows "quiet g (or_return a k)"
  unfolding or_return_def [abs_def]
  by (rule quiet_bind [OF assms(1,2)]) (use quietD [OF assms(3)] in \<open>auto simp: return_err_def split: option.split\<close>)

lemma quiet_expandMem [quiet_intros]: "quiet g (expandMem off sz)"
  by (rule quiet_all) (auto simp: expandMem_def op_ok_def op_fail_def go_bind_NoFuel_iff split: sum.splits)

lemma quiet_warm_address [quiet_intros]: "quiet g k \<Longrightarrow> quiet g (warm_address a k)"
  unfolding warm_address_def by (rule quiet_writes)

lemma quiet_chargeExtAccess [quiet_intros]: "quiet g (chargeExtAccess a)"
  unfolding chargeExtAccess_def [abs_def] by (intro quiet_if_at quiet_intros)

lemma quiet_expand_then [quiet_intros]:
  "quiet g b \<Longrightarrow> quiet g (op_then (expandMem off sz) b)"
  "quiet g b \<Longrightarrow> quiet g (op_then (if c then expandMem off sz else op_ok) b)"
  "quiet g b \<Longrightarrow> quiet g (op_then (chargeExtAccess a) b)"
  "quiet g k \<Longrightarrow> quiet g (or_return (expandMem off sz) k)"
  "quiet g k \<Longrightarrow> quiet g (or_return (if c then expandMem off sz else op_ok) k)"
  by (rule quiet_op_then quiet_or_return; (intro quiet_intros keeps_intros | assumption)+)+

lemma quiet_memCopyOp [quiet_intros]: "quiet g fn \<Longrightarrow> quiet g (memCopyOp fn)"
  unfolding memCopyOp_def by (intro quiet_intros)

lemma quiet_logOp [quiet_intros]: "quiet g (logOp n)"
  unfolding logOp_def [abs_def] by (intro quiet_if_at quiet_intros)

section \<open>The switch\<close>

lemma quiet_if_act [quiet_intros]:
  "(b \<Longrightarrow> quiet g (h k)) \<Longrightarrow> (\<not> b \<Longrightarrow> quiet g k) \<Longrightarrow> quiet g (if_act b h k)"
  by (simp add: if_act_def)

lemma quiet_run_EXP [quiet_intros]: "quiet g (run_EXP L)"
  unfolding run_EXP_def by (intro quiet_intros)

lemma quiet_run_ext [quiet_intros]: "quiet g k \<Longrightarrow> quiet g (run_ext k)"
  unfolding run_ext_def by (intro quiet_intros)

lemma quiet_run_mem [quiet_intros]: "(\<And>g. quiet g k) \<Longrightarrow> quiet g (run_mem n k)"
  unfolding run_mem_def by (intro quiet_intros)

lemma quiet_run_SLOAD [quiet_intros]: "quiet g (run_SLOAD L)"
  unfolding run_SLOAD_def Let_def
  by (intro quiet_stack quiet_at [where k = "\<lambda>m. if _ m then _ m else _ m"] quiet_if_at)
    (rule quiet_at, intro quiet_intros)+

lemma quiet_run_SHA3 [quiet_intros]: "quiet g (run_SHA3 L)"
proof -
  have "quiet g (\<lambda>m1. go_bind (Expand (Mem (fr m1)) off sz (Gas (fr m1))) (\<lambda>r.
            fall (opSha3 L)
              (case r of Inl e \<Rightarrow> m1
               | Inr (x, g) \<Rightarrow> upd_fr (\<lambda>f. f\<lparr>Mem := x, Gas := g\<rparr>) m1)))" for g off sz
  proof -
    have "fall (opSha3 L) m \<noteq> NoFuel" for m
      by (auto simp: fall_def opSha3_def pop_def peek_def with_mem_def poke_def op_fail_def op_ok_def
          go_bind_NoFuel_iff split: sum.splits)
    then show ?thesis by (auto simp: quiet_def go_bind_NoFuel_iff)
  qed
  then show ?thesis
    unfolding run_SHA3_def Let_def
    by (intro quiet_stack) (rule quiet_at, intro quiet_charge)
qed

lemma quiet_run_SSTORE [quiet_intros]: "quiet g (run_SSTORE L)"
proof -
  have 1: "quiet g (sstore_charges L slot current original newVal)" for g slot current original newVal
  proof -
    have rest: "quiet g (case SstoreCost current original newVal True of (cost, refund) \<Rightarrow>
        charge cost (write_db (\<lambda>d. db_AddRefund d refund) (fall (opSstore L))))" for g
      by (cases "SstoreCost current original newVal True") (simp, intro quiet_intros)
    show ?thesis
      unfolding sstore_charges_def [abs_def] Let_def
      by (rule quiet_if_at, rule quiet_at, intro quiet_intros rest, rule rest)
  qed
  show ?thesis
    unfolding run_SSTORE_def [abs_def] Let_def
    by (intro quiet_if_at quiet_intros) (rule quiet_at, intro quiet_intros 1)
qed

lemma quiet_run_halt [quiet_intros]: "quiet g (run_halt err)"
  unfolding run_halt_def by (intro quiet_intros) (simp add: quiet_def)

lemma quiet_move_balance [quiet_intros]: "quiet g k \<Longrightarrow> quiet g (move_balance L a k)"
  unfolding move_balance_def [abs_def] Let_def by (rule quiet_at, intro quiet_intros)

lemma quiet_run_SELFDESTRUCT [quiet_intros]: "quiet g (run_SELFDESTRUCT L)"
proof -
  have "quiet g (\<lambda>m2. if db_CreatedInTx (db_of m2) self
      then write_db (\<lambda>d. db_Suicide d self) return_ok m2 else return_ok m2)" for g self
    by (intro quiet_if_at quiet_intros)
  then show ?thesis
    unfolding run_SELFDESTRUCT_def [abs_def] Let_def
    by (intro quiet_if_at quiet_intros) (rule quiet_at, intro quiet_intros)
qed

lemma quiet_resume [quiet_intros]: "quiet g k \<Longrightarrow> quiet g (resume k)"
  by (auto simp: quiet_def resume_def go_bind_NoFuel_iff split: outcome.splits if_splits)

lemma quiet_rows: "list_all (\<lambda>(opc, c, k). quiet g k) (arith_ops L @ env_ops L @ mem_ops)"
  unfolding arith_ops_def env_ops_def mem_ops_def by (simp, intro conjI quiet_intros)

lemma quiet_exec_special [quiet_intros]: "quiet g (exec_special L op)"
  unfolding exec_special_def by (intro quiet_intros)

text \<open>Only a call or a create can run out of fuel.\<close>

lemma quiet_exec_op:
  assumes "quiet g (execCall L H op)" and "quiet g (execCreate H op)"
  shows "quiet g (exec_op L H op)"
proof (cases "map_of (arith_ops L @ env_ops L @ mem_ops) op")
  case None
  have "quiet g (exec_control L H op)"
    unfolding exec_control_def by (intro quiet_intros assms)
  then show ?thesis unfolding exec_op_def [abs_def] None by simp
next
  case (Some r)
  obtain c k where r: "r = (c, k)" by force
  have "case (op, c, k) of (opc, c, k) \<Rightarrow> quiet (g - unat c) k"
    using map_of_SomeD [OF Some] quiet_rows [of "g - unat c" L] unfolding r list_all_iff by blast
  then show ?thesis
    unfolding exec_op_def [abs_def] Some r by (simp add: quiet_charge quiet_fall)
qed

section \<open>Calls and creates\<close>

text \<open>A handler that returns when less than \<open>n\<close> gas is handed on.\<close>

definition handler_returns :: "handler \<Rightarrow> nat \<Rightarrow> bool" where
  "handler_returns H n \<longleftrightarrow>
     (\<forall>e pf ct a v g inp. good e \<longrightarrow> unat g < n \<longrightarrow> h_Call H e pf ct a v g inp \<noteq> NoFuel)
     \<and> (\<forall>e pf v c s. good e \<longrightarrow> unat (Gas pf) < n \<longrightarrow> length c < 2 ^ 64 \<longrightarrow> h_Create H e pf v c s \<noteq> NoFuel)"

lemma quiet_copy_output:
  "(\<And>m. k m \<noteq> NoFuel) \<Longrightarrow> copy_output off sz ret k m \<noteq> NoFuel"
  by (auto simp: copy_output_def Let_def with_mem_def write_mem_def go_bind_NoFuel_iff)

lemma push_and_return_fuel: "r \<noteq> NoFuel \<Longrightarrow> push_and_return r m \<noteq> NoFuel"
  by (auto simp: push_and_return_def return_ok_def go_bind_NoFuel_iff split: sum.splits)

lemma unat_sum_le: "unat (a + b :: u64) \<le> unat a + unat b"
  by (simp add: unat_word_ariths)

lemma quiet_do_call:
  assumes "handler_returns H n" and "g + (if val > 0 then 2300 else 0) < n"
  shows "quiet g (do_call H op gasArg a val input off sz)"
  unfolding quiet_def
proof (intro allI impI)
  fix m :: machine assume m: "good (evm m)" "unat (Gas (fr m)) \<le> g"
  let ?fwd = "forward_gas gasArg (Gas (fr m))"
  let ?st = "if val > 0 then gas_CallStipend else 0"
  have "unat ?fwd \<le> g"
    using m(2) CallGas_le [of "Gas (fr m)"] by (auto simp: forward_gas_def word_le_nat_alt word_less_nat_alt)
  then have "unat (?fwd + ?st) < n"
    using assms(2) unat_sum_le [of ?fwd ?st] by (cases "val > 0") simp_all
  then have "h_Call H (evm m) (fr (use_gas ?fwd m)) (call_type op) a val (?fwd + ?st) input \<noteq> NoFuel"
    using assms(1) m(1) unfolding handler_returns_def by blast
  then show "do_call H op gasArg a val input off sz m \<noteq> NoFuel"
    using quiet_copy_output push_and_return_fuel
    by (auto simp: do_call_def Let_def go_bind_NoFuel_iff)
qed

lemma quiet_with_mem_GetCopy:
  assumes "\<And>dat. length dat < 2 ^ 64 \<Longrightarrow> quiet g (k dat)"
  shows "quiet g (with_mem (\<lambda>x. GetCopy x off sz) k)"
proof -
  have "length dat < 2 ^ 64" if "GetCopy x off sz = Ret dat" for x dat
    using that by (auto simp: GetCopy_def go_make_def go_bind_Ret_iff maxAlloc_def split: if_splits)
  then show ?thesis
    using assms by (auto simp: quiet_def with_mem_def go_bind_NoFuel_iff)
qed

lemma quiet_execCall:
  assumes "handler_returns H n"
  shows "quiet n (execCall L H op)"
proof -
  have args: "quiet n (exec_call_args L H op gasArg a val)" for gasArg a val
  proof -
    have call: "quiet g (with_mem (\<lambda>x. if Uint64 inSize > 0 then GetCopy x (Uint64 inOffset) (Uint64 inSize) else Ret [])
         (\<lambda>input. do_call H op gasArg a val input outOffset outSize))"
      if "g + (if val > 0 then 2300 else 0) < n" for g inOffset inSize outOffset outSize
      using quietD [OF quiet_do_call [OF assms that]]
      by (auto simp: quiet_def with_mem_def go_bind_NoFuel_iff split: if_splits)
    have charged: "quiet g (if_act (val > 0) (charge_value L a)
        (with_mem (\<lambda>x. if Uint64 inSize > 0 then GetCopy x (Uint64 inOffset) (Uint64 inSize) else Ret [])
         (\<lambda>input. do_call H op gasArg a val input outOffset outSize)))" if "g < n" for g inOffset inSize outOffset outSize
    proof (intro quiet_if_act)
      assume "0 < val"
      then show "quiet g (charge_value L a (with_mem (\<lambda>x. if Uint64 inSize > 0 then GetCopy x (Uint64 inOffset) (Uint64 inSize) else Ret [])
         (\<lambda>input. do_call H op gasArg a val input outOffset outSize)))"
        unfolding charge_value_def using that by (intro quiet_charge quiet_if quiet_reads call) simp_all
    next
      assume "\<not> 0 < val"
      with that show "quiet g (with_mem (\<lambda>x. if Uint64 inSize > 0 then GetCopy x (Uint64 inOffset) (Uint64 inSize) else Ret [])
         (\<lambda>input. do_call H op gasArg a val input outOffset outSize))"
        by (intro call) simp
    qed
    show ?thesis
      unfolding exec_call_args_def charge_access_def [abs_def]
      by (intro quiet_stack quiet_expand_then quiet_if_at quiet_charge quiet_warm_address charged) simp_all
  qed
  have push: "quiet n (\<lambda>m. push_and_return (PushRaw (Stk (fr m)) 0) m)"
    by (rule quiet_push_and_return) simp
  show ?thesis
    unfolding execCall_def [abs_def] by (intro quiet_if_at push quiet_stack quiet_if args)
qed

lemma quiet_execCreate:
  assumes "handler_returns H n" and "0 < n"
  shows "quiet n (execCreate H op)"
proof -
  have create: "quiet n (do_create H val code salt)" if code: "length code < 2 ^ 64" for val code salt
    unfolding quiet_def
  proof (intro allI impI)
    fix m :: machine assume m: "good (evm m)" "unat (Gas (fr m)) \<le> n"
    let ?m = "use_gas (CallGas (Gas (fr m))) m"
    have "unat (Gas (fr ?m)) = unat (Gas (fr m)) div 64"
      by (simp add: unat_sub [OF CallGas_le] unat_CallGas)
    also have "\<dots> < n" using m(2) assms(2) by linarith
    finally have "h_Create H (evm m) (fr ?m) val code salt \<noteq> NoFuel"
      using assms(1) m(1) code unfolding handler_returns_def by blast
    then show "do_create H val code salt m \<noteq> NoFuel"
      by (auto simp: do_create_def Let_def go_bind_NoFuel_iff intro!: push_and_return_fuel split: option.split)
  qed
  have push: "quiet n (\<lambda>m. push_and_return (PushRaw (Stk (fr m)) 0) m)"
    by (rule quiet_push_and_return) simp
  show ?thesis
    unfolding execCreate_def [abs_def] create_code_def
    by (intro quiet_if_at quiet_ends push quiet_stack quiet_if quiet_expand_then quiet_with_mem_GetCopy create)
qed

section \<open>Frames without gas\<close>

text \<open>
  A frame without gas and with an empty stack does not get past its first instruction, unless it is at
  the depth limit, where a call is answered with a 0 on the stack.  In neither case is the handler used.
\<close>

definition idle :: "machine \<Rightarrow> bool" where
  "idle m \<longleftrightarrow> 1024 \<le> Depth (fr m) \<or> stk_top (Stk (fr m)) = 0"

definition no_handler :: handler where
  "no_handler = \<lparr>h_Call = (\<lambda>e parent ct addr val gasIn input. Panic),
     h_Create = (\<lambda>e parent val initCode salt. Panic)\<rparr>"

lemma handler_returns_no_handler: "handler_returns no_handler n"
  by (simp add: handler_returns_def no_handler_def)

lemma idle_calls:
  "idle m \<Longrightarrow> execCall L H op m = execCall L no_handler op m"
  "idle m \<Longrightarrow> execCreate H op m = execCreate no_handler op m"
  by (auto simp: idle_def execCall_def execCreate_def pop_or_return_def Pop_def)

definition agree :: "machine \<Rightarrow> act \<Rightarrow> act \<Rightarrow> bool" where
  "agree m k l \<longleftrightarrow> k m = l m"

lemma agree_if: "agree m k k' \<Longrightarrow> agree m l l' \<Longrightarrow> agree m (if c then k else l) (if c then k' else l')"
  by simp

lemma agree_refl: "agree m k k"
  by (simp add: agree_def)

lemma idle_exec_op:
  assumes "idle m"
  shows "exec_op L H op m = exec_op L no_handler op m"
proof -
  have resumed: "agree m (resume (execCall L H op)) (resume (execCall L no_handler op))"
    "agree m (resume (execCreate H op)) (resume (execCreate no_handler op))"
    by (simp_all only: agree_def resume_def idle_calls(1) [OF assms, of L H] idle_calls(2) [OF assms, of H])
  have "agree m (exec_control L H op) (exec_control L no_handler op)"
    unfolding exec_control_def
    by (intro agree_if agree_refl resumed)
  then show ?thesis
    by (cases "map_of (arith_ops L @ env_ops L @ mem_ops) op") (simp_all only: exec_op_def option.case agree_def)
qed

lemma idle_step_fuel:
  assumes "idle m" and "good (evm m)"
  shows "step L H m \<noteq> NoFuel"
proof -
  let ?n = "Suc (unat (Gas (fr m)))" and ?m = "upd_fr (\<lambda>f. f\<lparr>PC := PC f + 1\<rparr>) m"
  have "quiet ?n (exec_op L no_handler op)" for op
    by (intro quiet_exec_op quiet_execCall quiet_execCreate handler_returns_no_handler) simp
  from quietD [OF this, of ?m] assms(2) have "exec_op L no_handler op ?m \<noteq> NoFuel" for op
    by simp
  moreover have "idle ?m" using assms(1) by (simp add: idle_def)
  ultimately have "exec_op L H op ?m \<noteq> NoFuel" for op
    by (simp only: idle_exec_op [of ?m L H]) simp
  then show ?thesis
    by (simp add: step_def Let_def go_bind_NoFuel_iff case_prod_beta)
qed

definition broke :: "machine \<Rightarrow> bool" where
  "broke m \<longleftrightarrow> Gas (fr m) = 0 \<and> stk_top (Stk (fr m)) = 0 \<and> Depth (fr m) < 1024"

definition ends :: "machine \<Rightarrow> act \<Rightarrow> bool" where
  "ends m k \<longleftrightarrow> (\<forall>m'. k m \<noteq> Ret (m', Next None))"

lemma broke_Back: "broke m \<Longrightarrow> 0 \<le> n \<Longrightarrow> Back (Stk (fr m)) n = Panic"
  by (simp add: broke_def Back_def data_at_def)

lemma ends_charge: "broke m \<Longrightarrow> 0 < g \<Longrightarrow> ends m (charge g k)"
  by (simp add: ends_def charge_def broke_def return_err_def)

lemma ends_peek: "broke m \<Longrightarrow> 0 \<le> n \<Longrightarrow> ends m (peek n k)" "broke m \<Longrightarrow> 0 \<le> n \<Longrightarrow> ends m (fall (peek n k'))"
  by (simp_all add: ends_def peek_def fall_def broke_Back)

lemma ends_if: "ends m k \<Longrightarrow> ends m l \<Longrightarrow> ends m (if c then k else l)"
  by simp

lemma ends_cases:
  assumes "broke m"
  shows "ends m return_ok" "ends m (return_err e)" "ends m (fall (logOp n))" "ends m (run_SELFDESTRUCT L)"
    "ends m (run_SSTORE L)" "ends m (resume (execCall L H op))" "ends m (resume (execCreate H op))"
  using assms broke_Back [OF assms]
  by (auto simp: ends_def broke_def return_ok_def return_err_def fall_def logOp_def peek_def op_fail_def
      run_SELFDESTRUCT_def charge_def run_SSTORE_def resume_def execCall_def execCreate_def pop_or_return_def
      Pop_def fail_result_def)

lemma broke_exec_op:
  assumes m: "broke m"
  shows "ends m (exec_op L H op)"
proof (cases "map_of (arith_ops L @ env_ops L @ mem_ops) op")
  case None
  have "ends m (exec_special L op)"
    unfolding exec_special_def run_EXP_def run_SHA3_def run_ext_def memCopyOp_def run_mem_def run_SLOAD_def
    by (intro ends_if ends_cases [OF m] ends_peek [OF m] ends_charge [OF m]) simp_all
  then have "ends m (exec_control L H op)"
    unfolding exec_control_def run_halt_def
    by (intro ends_if ends_cases [OF m] ends_peek [OF m] ends_charge [OF m]) simp_all
  then show ?thesis unfolding exec_op_def [abs_def] None by simp
next
  case (Some r)
  obtain c k where r: "r = (c, k)" by force
  have "case (op, c, k) of (opc, c, k) \<Rightarrow> 0 < c \<and> keeps (evm_rel L UNIV 0) False False False any k"
    using map_of_SomeD [OF Some] evm_handler.keeps_rows [of L 0 False False] unfolding r list_all_iff by blast
  then show ?thesis
    unfolding exec_op_def [abs_def] Some r by (simp add: ends_charge [OF m])
qed

lemma broke_step:
  assumes "broke m"
  shows "step L H m \<noteq> Ret (m', None)"
proof
  assume st: "step L H m = Ret (m', None)"
  let ?m = "upd_fr (\<lambda>f. f\<lparr>PC := PC f + 1\<rparr>) m" and ?op = "Code (fr m) ! unat (PC (fr m))"
  have "broke ?m" using assms by (simp add: broke_def)
  from broke_exec_op [OF this] have "exec_op L H ?op ?m \<noteq> Ret (m2, Next None)" for m2
    by (simp add: ends_def)
  moreover from st obtain m2 out where "exec_op L H ?op ?m = Ret (m2, out)"
    and "after_switch ?op (Gas (fr m)) out m2 = (m', None)"
    by (auto simp: step_def Let_def go_bind_Ret_iff split: if_splits)
  moreover from this(2) have "out = Next None"
    by (cases out) (auto simp: Let_def split: option.splits)
  ultimately show False by blast
qed

section \<open>The loop\<close>

lemma budget_gas:
  assumes "g' < g" and "fuel + 1 > g * (len + 1) + (len - pc)"
  shows "fuel > g' * (len + 1) + (len - pc' :: nat)"
proof -
  have "Suc g' * (len + 1) \<le> g * (len + 1)" using assms(1) by (intro mult_le_mono1) simp
  then have "g' * (len + 1) + len + 1 \<le> g * (len + 1)" by (simp add: algebra_simps)
  with assms(2) show ?thesis by linarith
qed

lemma run_loop_returns:
  assumes step: "\<And>m. I m \<Longrightarrow> step L (handler_at L k d) m \<noteq> NoFuel"
    and inv: "\<And>m m'. I m \<Longrightarrow> step L (handler_at L k d) m = Ret (m', None) \<Longrightarrow> I m'"
    and "I m" and "length (Code (fr m)) < 2 ^ 64"
    and "fuel > unat (Gas (fr m)) * (length (Code (fr m)) + 1) + (length (Code (fr m)) - unat (PC (fr m)))"
  shows "run_loop L (handler_at L k d) fuel m \<noteq> NoFuel"
  using assms(3-)
proof (induction fuel arbitrary: m)
  case (Suc fuel)
  let ?H = "handler_at L k d" and ?len = "length (Code (fr m))"
  have "run_loop L ?H fuel m1 \<noteq> NoFuel" if st: "step L ?H m = Ret (m1, None)" for m1
  proof (rule Suc.IH)
    from evm_handler.step_sane [OF st, of False]
    have same: "Code (fr m1) = Code (fr m)" and pc: "unat (PC (fr m)) < ?len" and on: "moves_on m m1"
      by (auto simp: sane_def same_env_def)
    show "I m1" by (rule inv [OF Suc.prems(1) st])
    show "length (Code (fr m1)) < 2 ^ 64" using Suc.prems(2) same by simp
    have fuel: "fuel + 1 > unat (Gas (fr m)) * (?len + 1) + (?len - unat (PC (fr m)))"
      using Suc.prems(3) by simp
    show "fuel > unat (Gas (fr m1)) * (length (Code (fr m1)) + 1) + (length (Code (fr m1)) - unat (PC (fr m1)))"
      unfolding same
    proof (cases "Gas (fr m1) < Gas (fr m)")
      case True
      then show "fuel > unat (Gas (fr m1)) * (?len + 1) + (?len - unat (PC (fr m1)))"
        using budget_gas [OF _ fuel] by (simp only: word_less_nat_alt)
    next
      case False
      with on have g: "Gas (fr m1) = Gas (fr m)" and "PC (fr m1) = PC (fr m) + 1"
        by (auto simp: moves_on_def)
      moreover have "unat (PC (fr m)) + 1 < 2 ^ 64" using pc Suc.prems(2) by linarith
      ultimately have "unat (PC (fr m1)) = unat (PC (fr m)) + 1" by (simp add: unat_word_ariths)
      then show "fuel > unat (Gas (fr m1)) * (?len + 1) + (?len - unat (PC (fr m1)))"
        unfolding g using pc fuel by linarith
    qed
  qed
  then show ?case
    using step [OF Suc.prems(1)] by (auto simp: go_bind_NoFuel_iff split: option.split)
qed simp

text \<open>Enough for every frame: its gas and the length of its code are below \<open>2 ^ 64\<close>.\<close>

definition enough_fuel :: nat where
  "enough_fuel = 2 ^ 128"

lemma enough_fuel:
  assumes "length (Code f) < 2 ^ 64"
  shows "unat (Gas f) * (length (Code f) + 1) + (length (Code f) - unat (PC f)) < enough_fuel"
proof -
  have "unat (Gas f) < 2 ^ 64" using unsigned_less [of "Gas f"] by simp
  then have "unat (Gas f) * (length (Code f) + 1) \<le> (2 ^ 64 - 1) * 2 ^ 64"
    using assms by (intro mult_le_mono) linarith+
  then show ?thesis using assms unfolding enough_fuel_def by simp
qed

definition runner_returns :: "runner \<Rightarrow> nat \<Rightarrow> bool" where
  "runner_returns run n \<longleftrightarrow> (\<forall>m. good (evm m) \<longrightarrow> stk_top (Stk (fr m)) = 0 \<longrightarrow>
     length (Code (fr m)) < 2 ^ 64 \<longrightarrow> unat (Gas (fr m)) \<le> n \<longrightarrow> run m \<noteq> NoFuel)"

lemma good_step:
  assumes "step L (handler_at L k d) m = Ret (m', None)" and "good (evm m)"
  shows "good (evm m')" "Gas (fr m') \<le> Gas (fr m)" "Depth (fr m') = Depth (fr m)"
  using evm_handler.step_sane [OF assms(1), of False 0] assms(2)
  by (auto simp: sane_def same_env_def intro: good_rel)

lemma runner_returns_EVM_run:
  assumes H: "handler_returns (handler_at L k d) n" and "enough_fuel \<le> k"
  shows "runner_returns (EVM_run L k d) n"
  unfolding runner_returns_def
proof (intro allI impI)
  fix m :: machine
  assume m: "good (evm m)" "stk_top (Stk (fr m)) = 0" "length (Code (fr m)) < 2 ^ 64" "unat (Gas (fr m)) \<le> n"
  let ?m = "load_jumpdests L m"
  have m': "good (evm ?m)" "stk_top (Stk (fr ?m)) = 0" "Code (fr ?m) = Code (fr m)" "Gas (fr ?m) = Gas (fr m)"
    using m(1,2) by (auto simp: load_jumpdests_def Let_def good_def pool_ok_def split: option.split)
  have fuel: "unat (Gas (fr ?m)) * (length (Code (fr ?m)) + 1) + (length (Code (fr ?m)) - unat (PC (fr ?m))) < k"
    using enough_fuel [of "fr ?m"] assms(2) m(3) m'(3) by simp
  have len: "length (Code (fr ?m)) < 2 ^ 64" using m(3) m'(3) by simp
  show "EVM_run L k d m \<noteq> NoFuel"
  proof (cases "n = 0")
    case False
    let ?I = "\<lambda>m. good (evm m) \<and> unat (Gas (fr m)) \<le> n"
    have st: "step L (handler_at L k d) m \<noteq> NoFuel" if "?I m" for m :: machine
    proof -
      have "quiet n (exec_op L (handler_at L k d) op)" for op
        using False H by (intro quiet_exec_op quiet_execCall quiet_execCreate) simp_all
      from quietD [OF this, of "upd_fr (\<lambda>f. f\<lparr>PC := PC f + 1\<rparr>) m"] that show ?thesis
        by (simp add: step_def Let_def go_bind_NoFuel_iff case_prod_beta)
    qed
    have "?I m'" if "?I m" "step L (handler_at L k d) m = Ret (m', None)" for m m' :: machine
      using good_step [OF that(2)] that(1) by (simp add: word_le_nat_alt)
    from run_loop_returns [of ?I, OF st this _ len fuel] show ?thesis
      using m' m(4) by (simp add: EVM_run_def Run_def)
  next
    case True
    let ?I = "\<lambda>m. good (evm m) \<and> Gas (fr m) = 0 \<and> idle m"
    have "?I m'" if "?I m" "step L (handler_at L k d) m = Ret (m', None)" for m m' :: machine
    proof -
      have "\<not> broke m" using broke_step that(2) by blast
      then have "1024 \<le> Depth (fr m)" using that(1) by (auto simp: broke_def idle_def)
      then show ?thesis using good_step [OF that(2)] that(1) by (simp add: idle_def)
    qed
    from run_loop_returns [of ?I, OF _ this _ len fuel] idle_step_fuel show ?thesis
      using m' m(4) True by (auto simp: EVM_run_def Run_def idle_def unat_eq_zero)
  qed
qed

section \<open>The virtual machine\<close>

lemma pay_fuel: "(\<And>g. k g \<noteq> NoFuel) \<Longrightarrow> pay c gas k \<noteq> NoFuel"
  by (simp add: pay_def)

lemma slice_fuel [simp]: "go_make n \<noteq> NoFuel" "go_slice bs i j \<noteq> NoFuel" "pad32 bs \<noteq> NoFuel"
  by (simp_all add: go_make_def go_slice_def pad32_def)

lemma modexp_fuel: "modexp input gas \<noteq> NoFuel"
proof -
  have "iter_head input b n \<noteq> NoFuel" for b n
    by (simp add: iter_head_def Let_def go_bind_NoFuel_iff)
  then have "modexpGasEIP2565 b e m input \<noteq> NoFuel" for b e m
    by (simp add: modexpGasEIP2565_def Let_def go_bind_NoFuel_iff)
  moreover have "getData input off len \<noteq> NoFuel" for off len
    by (simp add: getData_def Let_def go_bind_NoFuel_iff)
  ultimately show ?thesis
    by (simp add: modexp_def Let_def go_bind_NoFuel_iff pay_fuel)
qed

lemma precompiles_fuel:
  "ecRecover L input gas \<noteq> NoFuel" "sha256hash input gas \<noteq> NoFuel" "ripemd160hash L input gas \<noteq> NoFuel"
  "identity input gas \<noteq> NoFuel" "bn256Add L input gas \<noteq> NoFuel" "bn256ScalarMul L input gas \<noteq> NoFuel"
  "bn256Pairing L input gas \<noteq> NoFuel" "blake2F input gas \<noteq> NoFuel"
  unfolding ecRecover_def sha256hash_def ripemd160hash_def identity_def bn256Add_def bn256ScalarMul_def
    bn256Pairing_def blake2F_def Let_def
  by (auto intro!: pay_fuel simp: go_bind_NoFuel_iff split: option.splits sum.splits if_splits)

lemma Precompile_Run_fuel [simp]: "Precompile_Run L a input gas \<noteq> NoFuel"
proof -
  have "dispatch L i input gas \<noteq> NoFuel" for i
    by (simp add: dispatch_def precompiles_fuel modexp_fuel)
  then show ?thesis
    by (auto simp: Precompile_Run_def Let_def go_bind_NoFuel_iff split: option.splits)
qed

lemma ask_returns:
  assumes "good e" and "\<And>s. snd (g (PlainDB s)) = PlainDB s"
    and "\<And>e'. good e' \<Longrightarrow> k (fst (g (e_db e))) e' \<noteq> NoFuel"
  shows "ask g e k \<noteq> NoFuel"
proof -
  have "good (e\<lparr>e_db := snd (g (e_db e))\<rparr>)"
    using assms(1,2) by (auto simp: good_def pool_ok_def)
  from assms(3) [OF this] show ?thesis by (simp add: ask_def case_prod_beta)
qed

lemma run_frame_returns:
  assumes "runner_returns run n" and "good e" and "length code < 2 ^ 64" and "unat (msg_Gas msg) \<le> n"
    and g: "\<And>f. Stk (g f) = Stk f" "\<And>f. Gas (g f) = Gas f" "\<And>f. Code (g f) = Code f"
  shows "run_frame run g e code contract caller msg \<noteq> NoFuel"
proof -
  let ?m = "newFrame e code contract caller msg"
  obtain f e' where a: "AcquireFrame e = (f, e')" by force
  have "pool_ok e" using assms(2) by (simp add: good_def)
  from AcquireFrame_ok [OF this a] have "stk_top (Stk (fr ?m)) = 0" by (simp add: newFrame_def a)
  moreover have "good (evm ?m)" using newFrame_props(1) [OF HOL.refl] assms(2) by (rule good_rel)
  ultimately have "run (upd_fr g ?m) \<noteq> NoFuel"
    using assms newFrame_props(3,4) [OF HOL.refl, of e code contract caller msg]
    unfolding runner_returns_def by simp
  then show ?thesis by (simp add: run_frame_def go_bind_NoFuel_iff case_prod_beta)
qed

lemma good_upd_db:
  assumes "good e" and "\<And>s. \<exists>s'. f (PlainDB s) = PlainDB s' \<and> db_rel L UNIV 0 s s'"
  shows "good (upd_db f e)"
  using assms by (intro good_rel [OF evm_rel_upd_db]) auto

lemma good_code:
  "good e \<Longrightarrow> length (fst (db_GetCode L (e_db e) a)) < 2 ^ 64"
  using codes_ok_GetCode by (auto simp: good_def db_GetCode_def)

lemma plain_reads:
  "snd (db_GetCode L (PlainDB s) a) = PlainDB s" "snd (db_GetBalance L (PlainDB s) a) = PlainDB s"
  by (simp_all add: db_GetCode_def db_GetBalance_def Let_def)

lemma run_code_returns:
  assumes run: "runner_returns run n" and "good e" and g: "unat (msg_Gas msg) \<le> n"
  shows "run_code L run e snap msg ct contract caller \<noteq> NoFuel"
  unfolding run_code_def
proof (rule ask_returns [OF assms(2) plain_reads(1)])
  fix e' assume "good e'"
  then have "good (trace_enter ct caller contract (msg_Data msg) (msg_Gas msg) (msg_Value msg) e')"
    using trace_rel(1) by (blast intro: good_rel)
  from run_frame_returns [OF run this good_code [OF assms(2)] g]
  show "(if length (fst (db_GetCode L (e_db e) contract)) = 0 then Ret (e', zero_Result\<lparr>res_GasLeft := msg_Gas msg\<rparr>)
       else
         let e2 = trace_enter ct caller contract (msg_Data msg) (msg_Gas msg) (msg_Value msg) e' in
         go_bind (run_frame run (\<lambda>f. f) e2 (fst (db_GetCode L (e_db e) contract)) contract caller msg) (\<lambda>(e3, r).
           let e4 = trace_exit (r_ReturnData r) (msg_Gas msg - r_GasLeft r) (r_Err r) e3;
               e5 = (if r_Err r \<noteq> None then upd_db (\<lambda>d. db_RevertToSnapshot d snap) e4 else e4)
           in Ret (e5, \<lparr>res_ReturnData = r_ReturnData r, res_GasUsed = msg_Gas msg - r_GasLeft r,
                        res_GasLeft = r_GasLeft r, res_Err = r_Err r, res_ContractAddress = None\<rparr>))) \<noteq> NoFuel"
    by (simp add: Let_def go_bind_NoFuel_iff case_prod_beta)
qed

lemma good_Snapshot: "good e \<Longrightarrow> db_Snapshot (e_db e) = (snap, d0) \<Longrightarrow> good (e\<lparr>e_db := d0\<rparr>)"
  using Snapshot_rel(1) by (blast intro: good_rel)

lemma EVM_execCall_returns:
  assumes run: "runner_returns run n" and "good e" and g: "unat (msg_Gas msg) \<le> n"
  shows "EVM_execCall L run e msg ct contract caller \<noteq> NoFuel"
proof -
  obtain snap d0 where snap: "db_Snapshot (e_db e) = (snap, d0)" by force
  let ?e1 = "upd_db (\<lambda>d. db_WarmAddress (db_WarmAddress d caller) contract) (e\<lparr>e_db := d0\<rparr>)"
  have e1: "good ?e1"
    by (rule good_upd_db [OF good_Snapshot [OF assms(2) snap]])
      (auto simp: db_WarmAddress_def intro: db_rel_trans db_rel_mutators)
  have "call_contract L run e msg ct contract caller \<noteq> NoFuel"
  proof (cases "transfer L ?e1 caller contract (msg_Value msg)")
    case (Pair r e2)
    have "good e3" if "r = Some e3" for e3
      using transfer_rel(2) [OF Pair that] e1 by (rule good_rel)
    then show ?thesis
      using run_code_returns [OF run _ g] e1
      by (simp add: call_contract_def snap Let_def Pair split: option.split)
  qed
  then show ?thesis
    by (auto simp: EVM_execCall_def go_bind_NoFuel_iff)
qed

lemma EVM_create_returns:
  assumes run: "runner_returns run n" and "good e" and g: "unat (msg_Gas msg) \<le> n"
    and code: "length (msg_Data msg) < 2 ^ 64"
  shows "EVM_create L run e msg salt \<noteq> NoFuel"
proof -
  obtain snap d0 where snap: "db_Snapshot (e_db e) = (snap, d0)" by force
  obtain addr e1 where addr: "contract_address L (e\<lparr>e_db := d0\<rparr>) msg salt = (addr, e1)" by force
  let ?e2 = "init_account L e1 msg addr"
  have "good e1"
    using contract_address_rel [OF addr] good_Snapshot [OF assms(2) snap] by (rule good_rel)
  then have e2: "good ?e2"
    by (rule good_rel [OF init_account_rel, rotated]) simp
  show ?thesis
  proof (cases "transfer L ?e2 (msg_From msg) addr (msg_Value msg)")
    case (Pair r e3)
    have "good e4" if "r = Some e4" for e4
      using transfer_rel(2) [OF Pair that] e2 by (rule good_rel)
    then show ?thesis
      using run_frame_returns [OF run _ code g]
      by (simp add: EVM_create_def snap addr Pair go_bind_NoFuel_iff split: option.split)
  qed
qed

lemma static_call_returns:
  assumes run: "runner_returns run n" and "good e" and g: "unat (msg_Gas msg) \<le> n"
  shows "static_call L run e pf msg a contract caller \<noteq> NoFuel"
proof -
  obtain snap d0 where snap: "db_Snapshot (e_db e) = (snap, d0)" by force
  have e0: "good (e\<lparr>e_db := d0\<rparr>)" by (rule good_Snapshot [OF assms(2) snap])
  have "run_frame run (\<lambda>f. f\<lparr>Static := True, Depth := Depth pf + 1\<rparr>) e1
      (fst (db_GetCode L (e_db (e\<lparr>e_db := d0\<rparr>)) a)) contract caller msg \<noteq> NoFuel" if "good e1" for e1
    by (rule run_frame_returns [OF run that good_code [OF e0] g]) simp_all
  then show ?thesis
    unfolding static_call_def snap prod.case
    by (intro ask_returns [OF e0]) (simp_all add: plain_reads go_bind_NoFuel_iff case_prod_beta)
qed

lemma good_lacks_funds: "lacks_funds L e ct caller val = (poor, e') \<Longrightarrow> good e \<Longrightarrow> good e'"
  using good_rel [OF fx.get_balance, of e]
  by (auto simp: lacks_funds_def ask_def case_prod_beta split: if_splits)

lemma foreign_code_call_returns:
  assumes run: "runner_returns run n" and "good e" and g: "unat (msg_Gas msg) \<le> n"
  shows "foreign_code_call L run e pf ct msg val a contract caller \<noteq> NoFuel"
proof -
  obtain snap d0 where snap: "db_Snapshot (e_db e) = (snap, d0)" by force
  have e0: "good (e\<lparr>e_db := d0\<rparr>)" by (rule good_Snapshot [OF assms(2) snap])
  show ?thesis
    unfolding foreign_code_call_def snap prod.case
  proof (rule ask_returns [OF e0 plain_reads(1)])
    fix e1 assume "good e1"
    let ?code = "fst (db_GetCode L (e_db (e\<lparr>e_db := d0\<rparr>)) a)"
    obtain poor e2 where poor: "lacks_funds L e1 ct caller val = (poor, e2)" by force
    have "good (trace_enter ct caller contract (msg_Data msg) (msg_Gas msg) (Some (SetUint64 val)) e2)"
      using good_rel [OF trace_rel(1) good_lacks_funds [OF poor \<open>good e1\<close>]] .
    from run_frame_returns [OF run this good_code [OF e0] g, where g = "\<lambda>f. f\<lparr>Depth := Depth pf + 1\<rparr>"]
    show "(case lacks_funds L e1 ct caller val of (poor, e2) \<Rightarrow>
          if poor then
            Ret (e2, zero_Result\<lparr>res_GasLeft := msg_Gas msg, res_Err := Some ErrInsufficientFunds\<rparr>)
          else if length ?code = 0 then Ret (e2, zero_Result\<lparr>res_GasLeft := msg_Gas msg\<rparr>)
          else
            let e3 = trace_enter ct caller contract (msg_Data msg) (msg_Gas msg) (Some (SetUint64 val)) e2 in
            go_bind (run_frame run (\<lambda>f. f\<lparr>Depth := Depth pf + 1\<rparr>) e3 ?code contract caller msg)
              (\<lambda>(e4, r).
                let e5 = trace_exit (r_ReturnData r) (msg_Gas msg - r_GasLeft r) (r_Err r) e4
                in Ret (if r_Err r \<noteq> None then upd_db (\<lambda>d. db_RevertToSnapshot d snap) e5 else e5,
                        zero_Result\<lparr>res_ReturnData := r_ReturnData r, res_GasLeft := r_GasLeft r,
                          res_Err := r_Err r\<rparr>))) \<noteq> NoFuel"
      by (simp add: poor Let_def go_bind_NoFuel_iff case_prod_beta)
  qed
qed

lemma handler_returns_Suc:
  assumes run: "runner_returns (EVM_run L k d) n"
  shows "handler_returns (handler_at L k (Suc d)) (Suc n)"
  unfolding handler_returns_def
  using static_call_returns [OF run] foreign_code_call_returns [OF run] EVM_execCall_returns [OF run]
    EVM_create_returns [OF run]
  by (auto simp: EVM_Call_def EVM_Create_def Let_def go_bind_NoFuel_iff zero_Message_def EVM_run_def [symmetric])

text \<open>The gas bounds the nesting of calls, so a handler that is \<open>d\<close> calls deep is enough for \<open>d\<close> gas.\<close>

lemma EVM_run_returns:
  assumes "enough_fuel \<le> k"
  shows "runner_returns (EVM_run L k d) d"
proof (induction d)
  case 0
  show ?case by (rule runner_returns_EVM_run [OF _ assms]) (simp add: handler_returns_def)
next
  case (Suc d)
  show ?case by (rule runner_returns_EVM_run [OF handler_returns_Suc [OF Suc] assms])
qed

section \<open>Properties\<close>

lemma foldl_db_rel:
  assumes "\<And>s x. x \<in> set xs \<Longrightarrow> \<exists>s'. f (PlainDB s) x = PlainDB s' \<and> db_rel L UNIV i s s'"
  shows "\<exists>s'. foldl f (PlainDB s) xs = PlainDB s' \<and> db_rel L UNIV i s s'"
  using assms
proof (induction xs arbitrary: s)
  case (Cons x xs)
  obtain s1 where s1: "f (PlainDB s) x = PlainDB s1" "db_rel L UNIV i s s1" using Cons.prems [of x s] by auto
  obtain s2 where "foldl f (PlainDB s1) xs = PlainDB s2" "db_rel L UNIV i s1 s2"
    using Cons.IH [of s1] Cons.prems by auto
  then show ?case using s1 by (auto intro: db_rel_trans)
qed simp

lemma warm_all_rel: "\<exists>s'. warm_all msg (PlainDB s) = PlainDB s' \<and> db_rel L UNIV i s s'"
proof -
  have entry: "\<exists>s'. foldl (\<lambda>d slot. db_WarmSlot d (ale_Address x) slot)
         (db_WarmAddress (PlainDB s) (ale_Address x)) (ale_Slots x) = PlainDB s' \<and> db_rel L UNIV i s s'" for s x
  proof -
    have "\<exists>s'. foldl (\<lambda>d slot. db_WarmSlot d (ale_Address x) slot) (PlainDB t) (ale_Slots x) = PlainDB s' \<and> db_rel L UNIV i t s'" for t
      by (rule foldl_db_rel) (auto simp: db_WarmSlot_def intro: db_rel_mutators)
    from this [of "WarmAddress s (ale_Address x)"] show ?thesis
      by (auto simp: db_WarmAddress_def intro: db_rel_trans [OF db_rel_mutators(7)])
  qed
  obtain s1 where s1: "foldl db_WarmAddress (PlainDB s) precompile_addresses = PlainDB s1" "db_rel L UNIV i s s1"
    using foldl_db_rel [of precompile_addresses db_WarmAddress L i s] db_rel_mutators(7)
    by (auto simp: db_WarmAddress_def)
  show ?thesis
    unfolding warm_all_def s1(1)
    using foldl_db_rel [of "msg_AccessList msg" "\<lambda>d entry. foldl (\<lambda>d slot. db_WarmSlot d (ale_Address entry) slot)
         (db_WarmAddress d (ale_Address entry)) (ale_Slots entry)" L i s1, OF entry] s1(2)
    by (auto intro: db_rel_trans)
qed

lemma begin_tx_good:
  assumes "good e"
  shows "good (begin_tx L msg upfront e)"
proof -
  let ?e1 = "upd_db (\<lambda>d. db_SubBalance L d (msg_From msg) upfront) e"
  let ?e2 = "?e1\<lparr>e_db := snd (db_GetNonce L (e_db ?e1) (msg_From msg))\<rparr>"
  let ?n = "fst (db_GetNonce L (e_db ?e1) (msg_From msg))"
  let ?e3 = "upd_db (\<lambda>d. db_SetNonce L d (msg_From msg) (?n + 1)) ?e2"
  have "good ?e1"
    by (rule good_upd_db [OF assms]) (auto simp: db_SubBalance_def intro: db_rel_mutators)
  then have "good ?e2" using evm_rel_nonce by (rule good_rel [rotated])
  then have "good ?e3"
    by (rule good_upd_db) (auto simp: db_SetNonce_def intro: db_rel_mutators)
  then have "good (?e3\<lparr>e_tx := tx\<rparr>)" for tx
    by (simp add: good_def pool_ok_def)
  then have "good (upd_db (warm_all msg) (?e3\<lparr>e_tx := tx\<rparr>))" for tx
    by (rule good_upd_db) (rule warm_all_rel)
  then show ?thesis by (simp add: begin_tx_def ask_def case_prod_beta Let_def)
qed

text \<open>
  C1: executing a message comes to an end.  On a plain database whose code lengths fit 64 bits and with a
  well-formed frame pool, \<open>Execute\<close> does not run out of fuel: \<open>2 ^ 128\<close> passes through each loop and a
  nesting of calls as deep as the gas of the message are enough, so in the program, which has no such
  bounds, every message yields a result (or a panic).
\<close>

theorem Execute_returns:
  assumes "pool_ok e" and "e_db e = PlainDB s" and "codes_ok s" and "length (msg_Data msg) < 2 ^ 64"
    and "2 ^ 128 \<le> k" and "unat (msg_Gas msg) \<le> d"
  shows "Execute L (EVM_run L k d) e msg \<noteq> NoFuel"
proof -
  have "good e" using assms(1-3) by (simp add: good_def)
  have run: "runner_returns (EVM_run L k d) d"
    by (rule EVM_run_returns) (simp only: enough_fuel_def assms(5))
  show ?thesis
    unfolding Execute_def Let_def
  proof (rule ask_returns [OF \<open>good e\<close> plain_reads(2)], goal_cases)
    case (1 e0)
    let ?e1 = "begin_tx L msg (u_mul L (SetUint64 (msg_Gas msg)) (SetUint64 (msg_GasPrice msg))) e0"
    have e1: "good ?e1" using 1 by (rule begin_tx_good)
    have call: "EVM_create L (EVM_run L k d) ?e1 m salt \<noteq> NoFuel"
      "EVM_execCall L (EVM_run L k d) ?e1 m ct to from \<noteq> NoFuel"
      if "msg_Data m = msg_Data msg" "unat (msg_Gas m) \<le> d" for m salt ct to "from"
      using EVM_create_returns [OF run e1] EVM_execCall_returns [OF run e1] that assms(4) by simp_all
    have "unat (msg_Gas msg - ig) \<le> d" if "ig \<le> msg_Gas msg" for ig
      using that assms(6) word_sub_le [OF that] by (simp add: word_le_nat_alt)
    then show ?case
      using assms(6) by (auto simp: go_bind_NoFuel_iff not_less call split: option.split)
  qed
qed

definition test_config :: Config where
  "test_config = \<lparr>cfg_ChainID = 1, cfg_BlockNumber = 1, cfg_Time = 1, cfg_GasLimit = 30000000, cfg_BaseFee = 0,
     cfg_Coinbase = ZeroAddress, cfg_Difficulty = 0, cfg_Trace = False\<rparr>"

definition test_EVM :: "StateDB \<Rightarrow> EVM" where
  "test_EVM s = EVM_New (PlainDB s) test_config"

lemma test_EVM_simps [simp]:
  "pool_ok (test_EVM s)" "e_db (test_EVM s) = PlainDB s" "e_callTracer (test_EVM s) = None"
  "e_pool (test_EVM s) = []" "e_picks (test_EVM s) = []"
  by (simp_all add: test_EVM_def EVM_New_def pool_ok_def test_config_def)

lemma codes_ok_new [simp]: "codes_ok new_StateDB"
  by (simp add: codes_ok_def new_StateDB_def)

theorem Execute_returns_witness:
  "Execute std_lib (EVM_run std_lib (2 ^ 128) 9) (test_EVM new_StateDB) (zero_Message\<lparr>msg_Gas := 9\<rparr>) \<noteq> NoFuel"
  by (rule Execute_returns [where s = new_StateDB]) (simp_all add: zero_Message_def)

end
