(* ===== verification/Calls.thy ===== *)
theory Calls
  imports Termination
begin

text \<open>
  What the EVM promises about the calls and creates it runs: gas is never made, an instruction of a static
  frame writes nothing itself, a transfer moves the value.  The facts come from the interpretations of
  \<open>Effects\<close>.
\<close>

section \<open>Gas\<close>

lemma pay_gas: "pay c gas k = Ret (out, gl, err) \<Longrightarrow> (\<And>g out gl err. k g = Ret (out, gl, err) \<Longrightarrow> gl \<le> g) \<Longrightarrow> gl \<le> gas"
  using word_sub_le [of c gas] by (fastforce simp: pay_def not_less split: if_splits)

lemma dispatch_gas: "dispatch L i input gas = Ret (out, gl, err) \<Longrightarrow> gl \<le> gas"
  unfolding dispatch_def ecRecover_def sha256hash_def ripemd160hash_def identity_def modexp_def bn256Add_def
    bn256ScalarMul_def bn256Pairing_def blake2F_def Let_def
  by (auto elim!: pay_gas simp: go_bind_Ret_iff split: if_splits option.splits sum.splits)

lemma Precompile_Run_gas: "Precompile_Run L a input gas = Ret (out, gl, b) \<Longrightarrow> gl \<le> gas"
  using dispatch_gas
  by (fastforce simp: Precompile_Run_def Let_def go_bind_Ret_iff split: if_splits option.splits)

lemma EVM_execCall_gas:
  assumes "run_law L C run" and "EVM_execCall L run e msg ct contract caller = Ret (e', res)"
  shows "res_GasLeft res \<le> msg_Gas msg"
proof -
  have "res_GasLeft res \<le> msg_Gas msg" if "call_contract L run e msg ct contract caller = Ret (e', res)"
    by (rule call_contract_rel [OF assms(1) that])
  then show ?thesis
    using assms(2) Precompile_Run_gas
    by (fastforce simp: EVM_execCall_def go_bind_Ret_iff zero_Result_def split: if_splits)
qed

section \<open>Static frames\<close>

lemma static_loop_reads_only:
  assumes "run_loop L (handler_at L k d) n m = Ret (m', r)" and "Static (fr m)"
    and "\<forall>op \<in> set (Code (fr m)). \<not> is_call op"
  shows "evm_rel L UNIV 0 True (evm m) (evm m')"
  using assms
proof (induction n arbitrary: m)
  case (Suc n)
  then obtain m1 o1 where st: "step L (handler_at L k d) m = Ret (m1, o1)"
    and rest: "(case o1 of Some res \<Rightarrow> Ret (m1, res) | None \<Rightarrow> run_loop L (handler_at L k d) n m1) = Ret (m', r)"
    by (auto simp: go_bind_Ret_iff)
  have "Static (fr m) \<and> (unat (PC (fr m)) < length (Code (fr m)) \<longrightarrow> \<not> is_call (Code (fr m) ! unat (PC (fr m))))"
    using Suc.prems by simp
  from evm_handler.step_sane [OF st this] have m1: "sane (evm_rel L UNIV 0) True False m m1" by blast
  then have "evm_rel L UNIV 0 True (evm m) (evm m1)" by (simp add: sane_def)
  moreover have "evm_rel L UNIV 0 True (evm m1) (evm m')"
  proof (cases o1)
    case None
    then show ?thesis using Suc.IH [of m1] rest m1 Suc.prems(2,3) by (simp add: sane_def same_env_def)
  next
    case (Some res)
    then show ?thesis using rest by simp
  qed
  ultimately show ?case by (rule evm_rel_trans)
qed simp

section \<open>Transfers\<close>

lemma balances:
  "GetBalance (AddBalance L s a v) b = (if b = a then u_add L (GetBalance s a) v else GetBalance s b)"
  "GetBalance (SubBalance L s a v) b = (if b = a then u_sub L (GetBalance s a) v else GetBalance s b)"
  by (rule getOrCreate_cases [of s a]; simp add: GetBalance_def mutator_defs new_Account_def)+

lemma not_a_precompile: "a ! 0 \<noteq> 0 \<Longrightarrow> Precompile_Run L a input gas = Ret ([], gas, False)"
  by (auto simp: Precompile_Run_def list_ex_iff)

lemma a_precompile:
  assumes "1 \<le> i" and "i \<le> 9"
  shows "Precompile_Run L (replicate 19 0 @ [i]) input gas = go_bind (dispatch L i input gas) (\<lambda>(out, gasLeft, err).
     case err of Some _ \<Rightarrow> Ret ([], 0, True) | None \<Rightarrow> Ret (out, gasLeft, True))"
proof -
  have "i \<noteq> 0" using assms(1) by auto
  moreover have "\<not> list_ex (\<lambda>k. (replicate 19 0 @ [i]) ! k \<noteq> 0) [0..<19]"
    by (auto simp: list_ex_iff nth_append)
  ultimately show ?thesis using assms(2) by (simp add: Precompile_Run_def nth_append not_less [symmetric])
qed

lemma exec_op_JUMPDEST: "exec_op L H op_JUMPDEST = charge gas_JumpDest (fall op_ok)"
proof -
  have "map_of (arith_ops L @ env_ops L @ mem_ops) op_JUMPDEST = Some (gas_JumpDest, op_ok)"
    by (simp add: arith_ops_def env_ops_def mem_ops_def)
  then show ?thesis by (simp only: exec_op_def option.case prod.case)
qed

section \<open>Properties\<close>

text \<open>
  C5: gas is never made.  Whatever code runs, the gas it hands back is at most the gas it was given; its
  return data was allocated, the frame and the frame pool stay well formed, and the configuration, the
  block and the transaction context are what they were.
\<close>

theorem run_keeps_invariants:
  assumes "EVM_run L k d m = Ret (m', r)"
  shows "r_GasLeft r \<le> Gas (fr m) \<and> length (r_ReturnData r) \<le> maxAlloc
    \<and> (frame_ok (fr m) \<longrightarrow> frame_ok (fr m')) \<and> (pool_ok (evm m) \<longrightarrow> pool_ok (evm m'))
    \<and> e_config (evm m') = e_config (evm m) \<and> e_block (evm m') = e_block (evm m) \<and> e_tx (evm m') = e_tx (evm m)"
  using run_law_EVM [of L k d, unfolded run_law_def, rule_format, OF assms, of 0] by (simp add: evm_rel_def)

theorem run_keeps_invariants_witness:
  "\<exists>m'. EVM_run std_lib 1 0 \<lparr>evm = test_EVM new_StateDB, fr = new_Frame\<lparr>Gas := 7\<rparr>\<rparr>
       = Ret (m', ok_result 7) \<and> pool_ok (evm m')"
proof -
  let ?m = "\<lparr>evm = test_EVM new_StateDB, fr = new_Frame\<lparr>Gas := 7\<rparr>\<rparr>"
  obtain m' where m': "EVM_run std_lib 1 0 ?m = Ret (m', ok_result 7)"
    by (simp add: EVM_run_def Run_def step_def load_jumpdests_def Let_def new_Frame_def test_EVM_def EVM_New_def)
  from run_keeps_invariants [OF m'] m' show ?thesis by simp
qed

text \<open>
  C12: executing a message hands back at most the gas of the message, precompiled contracts, calls and
  creates included.
\<close>

theorem Execute_gas_bound:
  assumes "Execute L (EVM_run L k d) e msg = Ret (e', res)"
  shows "res_GasLeft res \<le> msg_Gas msg"
proof -
  have create: "res_GasLeft res \<le> msg_Gas msg"
    if "EVM_create L (EVM_run L k d) e1 (msg\<lparr>msg_Gas := msg_Gas msg - ig\<rparr>) salt = Ret (e2, res)"
      and "ig \<le> msg_Gas msg" for e1 e2 ig salt
    using that(1) by (rule EVM_create_rel [OF run_law_EVM disjI1 [OF HOL.refl]]) (use word_sub_le [OF that(2)] in simp)
  have call: "res_GasLeft res \<le> msg_Gas msg"
    if "EVM_execCall L (EVM_run L k d) e1 (msg\<lparr>msg_Gas := msg_Gas msg - ig\<rparr>) ct to from = Ret (e2, res)"
      and "ig \<le> msg_Gas msg" for e1 e2 ig ct to "from"
    using EVM_execCall_gas [OF run_law_EVM that(1)] word_sub_le [OF that(2)] by simp
  show ?thesis
    using assms
    by (auto simp: Execute_def ask_def case_prod_beta Let_def go_bind_Ret_iff zero_Result_def not_less
        split: if_splits option.splits intro: create call create [where ig = 0, simplified] call [where ig = 0, simplified])
qed

theorem Execute_gas_bound_witness:
  "\<exists>e' res. Execute std_lib (EVM_run std_lib 0 0) (test_EVM new_StateDB)
       (zero_Message\<lparr>msg_To := Some (replicate 19 0 @ [4]), msg_Gas := 100, msg_Data := [7]\<rparr>) = Ret (e', res)
     \<and> res_ReturnData res = [7] \<and> res_GasLeft res = 82 \<and> res_GasLeft res \<le> 100"
proof -
  let ?msg = "zero_Message\<lparr>msg_To := Some (replicate 19 0 @ [4]), msg_Gas := 100, msg_Data := [7]\<rparr>"
  obtain e' res where x: "Execute std_lib (EVM_run std_lib 0 0) (test_EVM new_StateDB) ?msg = Ret (e', res)"
    and res: "res_ReturnData res = [7]" "res_GasLeft res = 82"
    by (simp add: Execute_def ask_def std.lt zero_Message_def EVM_execCall_def a_precompile dispatch_def
        identity_def pay_def wordCount_def go_make_def maxAlloc_def zero_Result_def db_GetBalance_def GetBalance_def
        new_StateDB_def std.mul Let_def copy_at_def)
  from Execute_gas_bound [OF x] x res show ?thesis by (auto simp: zero_Message_def)
qed

text \<open>
  C8: a static frame writes nothing itself.  On the plain database, running a code in which no byte, push
  data included, is the number of a call or create instruction, in a static frame, leaves accounts,
  storage, logs, the refund counter and the journal alone, whatever the code does.  (On the fork adapter
  even a read may fetch an account or a slot into the local database.)
\<close>

theorem static_run_reads_only:
  assumes "EVM_run L k d m = Ret (m', r)" and "Static (fr m)"
    and "\<forall>op \<in> set (Code (fr m)). \<not> is_call op" and "e_db (evm m) = PlainDB s"
  shows "\<exists>s'. e_db (evm m') = PlainDB s' \<and> accounts s' = accounts s \<and> storage s' = storage s \<and> Logs s' = Logs s
    \<and> Refund s' = Refund s \<and> createdInTx s' = createdInTx s \<and> journal s' = journal s"
proof -
  let ?m = "load_jumpdests L m"
  have db: "e_db (evm ?m) = e_db (evm m)" and "Static (fr ?m) = Static (fr m)" "Code (fr ?m) = Code (fr m)"
    by (simp_all add: load_jumpdests_def Let_def split: option.split)
  with assms(1-3) have "evm_rel L UNIV 0 True (evm ?m) (evm m')"
    by (intro static_loop_reads_only) (auto simp: EVM_run_def Run_def)
  then show ?thesis using assms(4) db by (auto simp: evm_rel_def reads_only_def)
qed

theorem static_run_reads_only_witness:
  "\<exists>m' s'. EVM_run std_lib (Suc (Suc 0)) 0
       \<lparr>evm = test_EVM new_StateDB, fr = new_Frame\<lparr>Code := [op_JUMPDEST], Static := True, Gas := 7\<rparr>\<rparr>
       = Ret (m', ok_result 6) \<and> e_db (evm m') = PlainDB s' \<and> accounts s' = accounts new_StateDB"
proof -
  let ?m = "\<lparr>evm = test_EVM new_StateDB, fr = new_Frame\<lparr>Code := [op_JUMPDEST], Static := True, Gas := 7\<rparr>\<rparr>"
  obtain m' where m': "EVM_run std_lib (Suc (Suc 0)) 0 ?m = Ret (m', ok_result 6)"
    by (simp add: EVM_run_def Run_def step_def load_jumpdests_def Let_def new_Frame_def test_EVM_def EVM_New_def
        exec_op_JUMPDEST charge_def fall_def op_ok_def use_gas_def capture_def)
  from static_run_reads_only [OF m', of new_StateDB] m' show ?thesis by (auto simp: is_call_def)
qed

text \<open>
  C16: the static flag does not reach nested calls.  What a CALL, CALLCODE or DELEGATECALL does depends on
  the parent frame only through its depth, its contract and its caller, never on its static flag, and
  a frame taken for the callee is not static: a contract called inside a STATICCALL may write.
\<close>

theorem nested_call_drops_static:
  assumes "Depth pf' = Depth pf" and "Contract pf' = Contract pf" and "Caller pf' = Caller pf"
  shows "EVM_Call L run e pf' ct addr val g input = EVM_Call L run e pf ct addr val g input
    \<and> (pool_ok e \<longrightarrow> \<not> Static (fr (newFrame e code contract caller msg)))"
proof
  show "EVM_Call L run e pf' ct addr val g input = EVM_Call L run e pf ct addr val g input"
    by (simp only: EVM_Call_def static_call_def foreign_code_call_def assms)
  show "pool_ok e \<longrightarrow> \<not> Static (fr (newFrame e code contract caller msg))"
    using newFrame_props(5) [OF HOL.refl] by blast
qed

theorem nested_call_drops_static_witness:
  "EVM_Call std_lib (EVM_run std_lib 0 0) (test_EVM new_StateDB) (new_Frame\<lparr>Static := True\<rparr>) CallTypeCall [1] 0 5 []
     = EVM_Call std_lib (EVM_run std_lib 0 0) (test_EVM new_StateDB) new_Frame CallTypeCall [1] 0 5 []
   \<and> \<not> Static (fr (newFrame (test_EVM new_StateDB) [] [1] [2] zero_Message))"
  using nested_call_drops_static [of "new_Frame\<lparr>Static := True\<rparr>" new_Frame std_lib "EVM_run std_lib 0 0" "test_EVM new_StateDB" CallTypeCall
      "[1]" 0 5 "[]" "[]" "[1]" "[2]" zero_Message] by simp

text \<open>
  C15: a precompiled contract that fails is reported as a call that succeeded.  When its dispatch returns an
  error (out of gas, a malformed input), the caller is handed no error, no output and no gas, and whatever
  value came with the call is not moved: the EVM is as it was.
\<close>

theorem precompile_failure_reads_as_success:
  assumes "dispatch L i input g = Ret (out, gl, Some err)" and "1 \<le> i" and "i \<le> 9" and "Depth pf < 1023"
  shows "EVM_Call L run e pf CallTypeCall (replicate 19 0 @ [i]) val g input = Ret (e, [], 0, None)"
  using assms(1,4) a_precompile [OF assms(2,3), of L input g]
  by (simp add: EVM_Call_def EVM_execCall_def Let_def zero_Message_def zero_Result_def)

theorem precompile_failure_reads_as_success_witness:
  "EVM_Call std_lib (EVM_run std_lib 0 0) (test_EVM new_StateDB) new_Frame CallTypeCall (replicate 19 0 @ [4]) 5 14 []
     = Ret (test_EVM new_StateDB, [], 0, None)"
proof -
  have "dispatch std_lib 4 [] 14 = Ret ([], 0, Some Precompile_ErrOutOfGas)"
    by (simp add: dispatch_def identity_def pay_def wordCount_def)
  then show ?thesis
    by (rule precompile_failure_reads_as_success) (simp_all add: new_Frame_def)
qed

text \<open>
  C11: a transfer moves the value and makes none, on the plain database.  When the payer's balance covers
  the value, the payer loses exactly that value, without wrapping, the payee gains it modulo
  \<open>2 ^ 256\<close>, the sum of the two balances stays the same when it fits 256 bits, and nobody else's balance
  changes; a transfer to oneself changes nothing.  (On the fork adapter a fetch may fail between the
  check and the writes.)
\<close>

theorem transfer_moves_value:
  assumes "uint256_pkg L" and "e_db e = PlainDB s" and "v \<le> GetBalance s payer"
  shows "\<exists>e1 s1. fst (transfer L e payer payee (Some v)) = Some e1 \<and> e_db e1 = PlainDB s1
    \<and> (payer = payee \<longrightarrow> GetBalance s1 payer = GetBalance s payer)
    \<and> (payer \<noteq> payee \<longrightarrow> unat (GetBalance s1 payer) = unat (GetBalance s payer) - unat v
         \<and> GetBalance s1 payee = GetBalance s payee + v
         \<and> (unat (GetBalance s payer) + unat (GetBalance s payee) < 2 ^ 256 \<longrightarrow>
              unat (GetBalance s1 payer) + unat (GetBalance s1 payee)
              = unat (GetBalance s payer) + unat (GetBalance s payee)))
    \<and> (\<forall>a. a \<noteq> payer \<longrightarrow> a \<noteq> payee \<longrightarrow> GetBalance s1 a = GetBalance s a)"
proof -
  note laws = uint256_pkg.lt [OF assms(1)] uint256_pkg.add [OF assms(1)] uint256_pkg.sub [OF assms(1)]
  let ?s1 = "if v = 0 then s else AddBalance L (SubBalance L s payer v) payee v"
  have "\<exists>e1. fst (transfer L e payer payee (Some v)) = Some e1 \<and> e_db e1 = PlainDB ?s1"
    using assms(2,3) by (auto simp: transfer_def ask_def db_GetBalance_def db_AddBalance_def db_SubBalance_def
        upd_db_def laws not_less)
  then obtain e1 where "fst (transfer L e payer payee (Some v)) = Some e1" "e_db e1 = PlainDB ?s1" by blast
  moreover have "unat (GetBalance s payer - v) = unat (GetBalance s payer) - unat v"
    using assms(3) by (simp add: unat_sub)
  moreover have le: "unat v \<le> unat (GetBalance s payer)" using assms(3) by (simp add: word_le_nat_alt)
  moreover have "unat (GetBalance s payee + v) = unat (GetBalance s payee) + unat v"
    if "unat (GetBalance s payer) + unat (GetBalance s payee) < 2 ^ 256"
    using that le by (subst unat_add_lem [THEN iffD1]) simp_all
  ultimately show ?thesis
    by (intro exI [of _ e1] exI [of _ ?s1]) (auto simp: balances laws)
qed

theorem transfer_moves_value_witness:
  "\<exists>e1 s1. fst (transfer std_lib (test_EVM (SetBalance new_StateDB [1] 9)) [1] [2] (Some 4)) = Some e1
     \<and> e_db e1 = PlainDB s1 \<and> unat (GetBalance s1 [1]) = 5 \<and> GetBalance s1 [2] = 4"
proof -
  have "GetBalance (SetBalance new_StateDB [1] 9) [1] = 9" "GetBalance (SetBalance new_StateDB [1] 9) [2] = 0"
    by (simp_all add: GetBalance_def SetBalance_def getOrCreate_def put_account_def add_journal_def
        new_StateDB_def new_Account_def)
  with transfer_moves_value [OF std.uint256_pkg_axioms test_EVM_simps(2), of 4 "SetBalance new_StateDB [1] 9" "[1]" "[2]"]
  show ?thesis by auto
qed

end
