(* ===== verification/Fuel.thy ===== *)
theory Fuel
  imports Calls
begin

text \<open>
  The two bounds of the model, the passes through a loop and the nesting of calls, are not part of the
  program.  Raising them never changes an outcome: outcomes, ordered as a flat domain with \<open>NoFuel\<close>
  at the bottom, and functions to them, ordered pointwise, grow with the bounds.  The loop itself is the
  reflexive transitive closure of single steps.
\<close>

section \<open>The order of outcomes\<close>

named_theorems le_intros

instantiation go :: (type) order_bot
begin

definition less_eq_go :: "'a go \<Rightarrow> 'a go \<Rightarrow> bool" where
  "less_eq_go x y \<longleftrightarrow> x = NoFuel \<or> y = x"

definition less_go :: "'a go \<Rightarrow> 'a go \<Rightarrow> bool" where
  "less_go x y \<longleftrightarrow> x = NoFuel \<and> y \<noteq> NoFuel"

definition bot_go :: "'a go" where
  "bot_go = NoFuel"

instance
  by standard (auto simp: less_eq_go_def less_go_def bot_go_def)

end

abbreviation (input) le_go :: "'a go \<Rightarrow> 'a go \<Rightarrow> bool" where
  "le_go \<equiv> (\<le>)"

abbreviation (input) le_fun :: "('m \<Rightarrow> 'a go) \<Rightarrow> ('m \<Rightarrow> 'a go) \<Rightarrow> bool" where
  "le_fun \<equiv> (\<le>)"

lemma le_go_refl [le_intros]: "le_go x x"
  by (rule order_refl)

lemma le_go_NoFuel [simp]: "le_go NoFuel y"
  by (simp add: less_eq_go_def)

lemma le_goD: "le_go x y \<Longrightarrow> x \<noteq> NoFuel \<Longrightarrow> y = x"
  by (auto simp: less_eq_go_def)

lemma le_go_bind [le_intros]:
  "le_go x y \<Longrightarrow> (\<And>v. le_go (k v) (l v)) \<Longrightarrow> le_go (go_bind x k) (go_bind y l)"
  by (cases x) (auto simp: less_eq_go_def)

lemma le_go_if [le_intros]: "(c \<Longrightarrow> le_go x y) \<Longrightarrow> (\<not> c \<Longrightarrow> le_go v w) \<Longrightarrow> le_go (if c then x else v) (if c then y else w)"
  by simp

lemma le_go_case_option [le_intros]:
  "le_go x y \<Longrightarrow> (\<And>v. le_go (k v) (l v)) \<Longrightarrow> le_go (case u of None \<Rightarrow> x | Some v \<Rightarrow> k v) (case u of None \<Rightarrow> y | Some v \<Rightarrow> l v)"
  by (simp split: option.split)

lemma le_go_case_prod [le_intros]:
  "(\<And>a b. le_go (k a b) (l a b)) \<Longrightarrow> le_go (case u of (a, b) \<Rightarrow> k a b) (case u of (a, b) \<Rightarrow> l a b)"
  by (simp split: prod.split)

lemma le_go_case_sum [le_intros]:
  "(\<And>a. le_go (k a) (l a)) \<Longrightarrow> (\<And>b. le_go (k' b) (l' b)) \<Longrightarrow>
   le_go (case u of Inl a \<Rightarrow> k a | Inr b \<Rightarrow> k' b) (case u of Inl a \<Rightarrow> l a | Inr b \<Rightarrow> l' b)"
  by (simp split: sum.split)

lemma le_fun_refl [le_intros]: "le_fun k k"
  by (rule order_refl)

section \<open>The interpreter\<close>

definition handler_le :: "handler \<Rightarrow> handler \<Rightarrow> bool" where
  "handler_le H H' \<longleftrightarrow>
     (\<forall>e pf ct a v g inp. le_go (h_Call H e pf ct a v g inp) (h_Call H' e pf ct a v g inp))
     \<and> (\<forall>e pf v c s. le_go (h_Create H e pf v c s) (h_Create H' e pf v c s))"

lemma le_fun_if [le_intros]: "(c \<Longrightarrow> le_fun k l) \<Longrightarrow> (\<not> c \<Longrightarrow> le_fun k' l') \<Longrightarrow> le_fun (if c then k else k') (if c then l else l')"
  by simp

lemma le_fun_blocks [le_intros]:
  "(\<And>v. le_fun (kv v) (lv v)) \<Longrightarrow> le_fun (pop_or_return kv) (pop_or_return lv)"
  "le_fun k l \<Longrightarrow> le_fun (or_return a k) (or_return a l)"
  "le_fun k l \<Longrightarrow> le_fun (charge g k) (charge g l)"
  "(\<And>x. le_fun (kx x) (lx x)) \<Longrightarrow> le_fun (with_mem f kx) (with_mem f lx)"
  "(\<And>y. le_fun (ky y) (ly y)) \<Longrightarrow> le_fun (read_db h ky) (read_db h ly)"
  "le_fun k l \<Longrightarrow> le_fun (write_db w k) (write_db w l)"
  "le_fun k l \<Longrightarrow> le_fun (resume k) (resume l)"
  by (auto simp: le_fun_def pop_or_return_def or_return_def charge_def with_mem_def read_db_def write_db_def
      resume_def intro!: le_go_bind le_go_refl split: sum.split option.split prod.split)

lemma le_fun_charges [le_intros]:
  "le_fun k l \<Longrightarrow> le_fun (charge_access a k) (charge_access a l)"
  "le_fun k l \<Longrightarrow> le_fun (charge_value L a k) (charge_value L a l)"
  by (auto simp: le_fun_def charge_access_def charge_value_def charge_def warm_address_def write_db_def
      read_db_def intro!: le_go_refl split: prod.split)

text \<open>Only a call or a create uses the handler.\<close>

lemma do_call_le:
  "handler_le H H' \<Longrightarrow> le_fun (do_call H op gasArg a v input off sz) (do_call H' op gasArg a v input off sz)"
  by (rule le_funI) (auto simp: do_call_def Let_def handler_le_def intro!: le_intros)

lemma do_create_le: "handler_le H H' \<Longrightarrow> le_fun (do_create H v code salt) (do_create H' v code salt)"
  by (rule le_funI) (auto simp: do_create_def Let_def handler_le_def intro!: le_intros)

lemma le_fun_if_at: "le_fun k l \<Longrightarrow> le_fun k' l' \<Longrightarrow> le_fun (\<lambda>m. if c m then k m else k' m) (\<lambda>m. if c m then l m else l' m)"
  by (simp add: le_fun_def)

lemma exec_calls_le:
  assumes "handler_le H H'"
  shows "le_fun (execCall L H op) (execCall L H' op)" "le_fun (execCreate H op) (execCreate H' op)"
proof -
  have "le_fun (exec_call_args L H op gasArg a v) (exec_call_args L H' op gasArg a v)" for gasArg a v
    unfolding exec_call_args_def if_act_def by (intro le_intros do_call_le [OF assms])
  then show "le_fun (execCall L H op) (execCall L H' op)"
    unfolding execCall_def [abs_def] by (intro le_fun_if_at le_intros)
  have "le_fun (create_code H v off sz salt) (create_code H' v off sz salt)" for v off sz salt
    unfolding create_code_def by (intro le_intros do_create_le [OF assms])
  then show "le_fun (execCreate H op) (execCreate H' op)"
    unfolding execCreate_def [abs_def] by (intro le_fun_if_at le_intros)
qed

lemma exec_op_le:
  assumes "handler_le H H'"
  shows "le_fun (exec_op L H op) (exec_op L H' op)"
proof -
  have "le_fun (exec_control L H op) (exec_control L H' op)"
    unfolding exec_control_def by (intro le_intros exec_calls_le [OF assms])
  then show ?thesis
    by (cases "map_of (arith_ops L @ env_ops L @ mem_ops) op")
      (simp_all only: exec_op_def [abs_def] option.case le_fun_refl)
qed

lemma run_loop_le:
  assumes "handler_le H H'"
  shows "n \<le> n' \<Longrightarrow> le_go (run_loop L H n m) (run_loop L H' n' m)"
proof (induction n arbitrary: n' m)
  case (Suc n)
  then obtain j where j: "n' = Suc j" "n \<le> j" by (cases n') auto
  have st: "le_go (step L H m) (step L H' m)"
    unfolding step_def Let_def by (intro le_intros le_funD [OF exec_op_le [OF assms]])
  show ?case unfolding j(1) run_loop.simps by (intro le_intros st Suc.IH [OF j(2)])
qed simp

lemma Run_le: "handler_le H H' \<Longrightarrow> n \<le> n' \<Longrightarrow> le_fun (Run L H n) (Run L H' n')"
  by (rule le_funI) (simp add: Run_def run_loop_le)

section \<open>The virtual machine\<close>

lemma run_frame_le [le_intros]:
  assumes "le_fun run run'"
  shows "le_go (run_frame run g e code contract caller msg) (run_frame run' g e code contract caller msg)"
  unfolding run_frame_def by (intro le_intros le_funD [OF assms])

lemma ask_le [le_intros]: "(\<And>x e. le_go (k x e) (l x e)) \<Longrightarrow> le_go (ask g e k) (ask g e l)"
  by (simp add: ask_def case_prod_beta)

lemma vm_le [le_intros]:
  assumes "le_fun run run'"
  shows "le_go (EVM_execCall L run e msg ct contract caller) (EVM_execCall L run' e msg ct contract caller)"
    "le_go (EVM_create L run e msg salt) (EVM_create L run' e msg salt)"
    "le_go (static_call L run e pf msg a contract caller) (static_call L run' e pf msg a contract caller)"
    "le_go (foreign_code_call L run e pf ct msg val a contract caller)
      (foreign_code_call L run' e pf ct msg val a contract caller)"
  unfolding EVM_execCall_def call_contract_def run_code_def EVM_create_def static_call_def
    foreign_code_call_def Let_def
  by (intro le_intros assms)+

lemma vm_handler_le:
  "le_fun run run' \<Longrightarrow> handler_le \<lparr>h_Call = EVM_Call L run, h_Create = EVM_Create L run\<rparr>
     \<lparr>h_Call = EVM_Call L run', h_Create = EVM_Create L run'\<rparr>"
  unfolding handler_le_def handler.simps EVM_Call_def EVM_Create_def Let_def
  by (intro conjI allI le_intros)

lemma handler_at_le: "k \<le> k' \<Longrightarrow> d \<le> d' \<Longrightarrow> handler_le (handler_at L k d) (handler_at L k' d')"
proof (induction d arbitrary: d')
  case 0
  show ?case by (simp add: handler_le_def)
next
  case (Suc d)
  then obtain j where j: "d' = Suc j" "d \<le> j" by (cases d') auto
  show ?case unfolding j(1) handler_at.simps
    by (intro vm_handler_le Run_le Suc.IH Suc.prems(1) j(2))
qed

lemma EVM_run_le: "k \<le> k' \<Longrightarrow> d \<le> d' \<Longrightarrow> le_fun (EVM_run L k d) (EVM_run L k' d')"
  unfolding EVM_run_def by (intro Run_le handler_at_le)

lemma Execute_le: "le_fun run run' \<Longrightarrow> le_go (Execute L run e msg) (Execute L run' e msg)"
  unfolding Execute_def Let_def by (intro le_intros)

section \<open>Single steps\<close>

inductive steps :: "lib \<Rightarrow> handler \<Rightarrow> machine \<Rightarrow> machine \<Rightarrow> bool" for L H where
  steps_refl: "steps L H m m"
| steps_step: "step L H m = Ret (m1, None) \<Longrightarrow> steps L H m1 m2 \<Longrightarrow> steps L H m m2"

lemma run_loop_steps:
  "run_loop L H n m = Ret (m', r) \<Longrightarrow> \<exists>m1. steps L H m m1 \<and> step L H m1 = Ret (m', Some r)"
proof (induction n arbitrary: m)
  case (Suc n)
  then obtain m1 res where st: "step L H m = Ret (m1, res)"
    and rest: "(case res of Some x \<Rightarrow> Ret (m1, x) | None \<Rightarrow> run_loop L H n m1) = Ret (m', r)"
    by (auto simp: go_bind_Ret_iff)
  show ?case
  proof (cases res)
    case None
    with Suc.IH [of m1] rest st show ?thesis by (auto intro: steps_step)
  next
    case (Some x)
    with rest st show ?thesis by (auto intro: steps_refl)
  qed
qed simp

lemma steps_run_loop:
  "steps L H m m1 \<Longrightarrow> step L H m1 = Ret (m', Some r) \<Longrightarrow> \<exists>n. run_loop L H n m = Ret (m', r)"
proof (induction rule: steps.induct)
  case (steps_refl m)
  then show ?case by (intro exI [of _ "Suc 0"]) simp
next
  case (steps_step m m1 m2)
  then obtain n where "run_loop L H n m1 = Ret (m', r)" by blast
  with steps_step.hyps(1) show ?case by (intro exI [of _ "Suc n"]) simp
qed

lemma run_loop_panics:
  "run_loop L H n m = Panic \<Longrightarrow> \<exists>m1. steps L H m m1 \<and> step L H m1 = Panic"
proof (induction n arbitrary: m)
  case (Suc n)
  show ?case
  proof (cases "step L H m = Panic")
    case True
    then show ?thesis by (blast intro: steps_refl)
  next
    case False
    with Suc.prems obtain m1 where st: "step L H m = Ret (m1, None)" and "run_loop L H n m1 = Panic"
      by (auto simp: go_bind_Panic_iff split: option.splits)
    with Suc.IH [of m1] show ?thesis by (blast intro: steps_step)
  qed
qed simp

section \<open>Properties\<close>

text \<open>
  The bounds of the model do not show.  Once they are large enough for \<open>Execute\<close> to come to an end, with a
  result or a panic, larger ones give the same outcome.
\<close>

lemma outcome_independent_of_bounds:
  assumes "Execute L (EVM_run L k d) e msg \<noteq> NoFuel" and "k \<le> k'" and "d \<le> d'"
  shows "Execute L (EVM_run L k' d') e msg = Execute L (EVM_run L k d) e msg"
  by (rule le_goD [OF Execute_le [OF EVM_run_le [OF assms(2,3)]] assms(1)])

text \<open>
  The loop is the closure of its passes.  Running the loop returns a result exactly when single passes
  lead to a machine whose next pass returns it.
\<close>

lemma run_loop_iff_steps:
  "(\<exists>n. run_loop L H n m = Ret (m', r)) \<longleftrightarrow> (\<exists>m1. steps L H m m1 \<and> step L H m1 = Ret (m', Some r))"
  using run_loop_steps steps_run_loop by blast

text \<open>
  C10: every frame reaches its end.  On a plain database whose code lengths fit 64 bits, a frame with an empty
  stack whose gas the handler can pass on comes, after finitely many passes through the loop, to one that
  returns a result or panics; nothing in the code makes it run forever.
\<close>

theorem every_frame_reaches_its_end:
  assumes "pool_ok (evm m)" and "e_db (evm m) = PlainDB s" and "codes_ok s"
    and "stk_top (Stk (fr m)) = 0" and "length (Code (fr m)) < 2 ^ 64" and "unat (Gas (fr m)) \<le> d" and "2 ^ 128 \<le> k"
  shows "\<exists>m1. steps L (handler_at L k d) (load_jumpdests L m) m1
    \<and> (step L (handler_at L k d) m1 = Panic \<or> (\<exists>m' r. step L (handler_at L k d) m1 = Ret (m', Some r)))"
proof -
  have "runner_returns (EVM_run L k d) d" by (rule EVM_run_returns) (simp only: enough_fuel_def assms(7))
  then have "EVM_run L k d m \<noteq> NoFuel"
    using assms(1-6) by (simp add: runner_returns_def good_def)
  then consider "EVM_run L k d m = Panic" | m' r where "EVM_run L k d m = Ret (m', r)"
    by (cases "EVM_run L k d m") auto
  then show ?thesis
  proof cases
    case 1
    then show ?thesis unfolding EVM_run_def Run_def by (blast dest: run_loop_panics)
  next
    case 2
    then show ?thesis unfolding EVM_run_def Run_def by (blast dest: run_loop_steps)
  qed
qed

theorem every_frame_reaches_its_end_witness:
  "\<exists>m1. steps std_lib (handler_at std_lib (2 ^ 128) 9)
       (load_jumpdests std_lib \<lparr>evm = test_EVM new_StateDB, fr = new_Frame\<lparr>Code := [op_JUMPDEST], Gas := 9\<rparr>\<rparr>) m1
     \<and> (step std_lib (handler_at std_lib (2 ^ 128) 9) m1 = Panic
        \<or> (\<exists>m' r. step std_lib (handler_at std_lib (2 ^ 128) 9) m1 = Ret (m', Some r)))"
  by (rule every_frame_reaches_its_end [where s = new_StateDB]) (simp_all add: new_Frame_def new_Stack_def)

end
