(* ===== verification/OpSpecs.thy ===== *)
theory OpSpecs
  imports Fuel
begin

text \<open>
  The instructions against their specification on the abstract stack: the arithmetic table over the
  documented laws of the integer package, what happens when the stack is short, jumps and loads.
\<close>

section \<open>Operations on the two topmost words\<close>

text \<open>The byte number \<open>i\<close> of a word, counted from the most significant one.\<close>

definition word_byte :: "word256 \<Rightarrow> word256 \<Rightarrow> word256" where
  "word_byte i x = (if i < 32 then drop_bit (8 * (31 - unat i)) x AND 0xff else 0)"

text \<open>What each instruction makes of the topmost word \<open>a\<close> and the one below it.\<close>

definition alu_table :: "(byte \<times> u64 \<times> (word256 \<Rightarrow> word256 \<Rightarrow> word256)) list" where
  "alu_table =
     [(op_ADD, 3, \<lambda>a b. a + b),
      (op_MUL, 5, \<lambda>a b. a * b),
      (op_SUB, 3, \<lambda>a b. a - b),
      (op_DIV, 5, \<lambda>a b. if b = 0 then 0 else a div b),
      (op_SDIV, 5, \<lambda>a b. if b = 0 then 0 else word_of_int (trunc_div (sint a) (sint b))),
      (op_MOD, 5, \<lambda>a b. if b = 0 then 0 else a mod b),
      (op_SMOD, 5, \<lambda>a b. if b = 0 then 0 else word_of_int (trunc_mod (sint a) (sint b))),
      (op_LT, 3, \<lambda>a b. of_bool (a < b)),
      (op_GT, 3, \<lambda>a b. of_bool (b < a)),
      (op_SLT, 3, \<lambda>a b. of_bool (sint a < sint b)),
      (op_SGT, 3, \<lambda>a b. of_bool (sint b < sint a)),
      (op_EQ, 3, \<lambda>a b. of_bool (a = b)),
      (op_AND, 3, \<lambda>a b. a AND b),
      (op_OR, 3, \<lambda>a b. a OR b),
      (op_XOR, 3, \<lambda>a b. a XOR b),
      (op_BYTE, 3, word_byte),
      (op_SHL, 3, \<lambda>a b. push_bit (unat a) b),
      (op_SHR, 3, \<lambda>a b. drop_bit (unat a) b),
      (op_SAR, 3, \<lambda>a b. signed_drop_bit (unat a) b)]"

definition binop :: "(word256 \<Rightarrow> word256 \<Rightarrow> word256) \<Rightarrow> op" where
  "binop f = pop (\<lambda>a. peek 0 (\<lambda>b. poke 0 (f a b) op_ok))"

lemma binop_two:
  assumes "stack_ok (Stk (fr m))" and "stack_abs (Stk (fr m)) = a # b # st"
  shows "\<exists>s'. binop f m = Ret (set_stack s' m, None) \<and> stack_ok s' \<and> stack_abs s' = f a b # st"
proof (cases rule: evm_stack.pop_cases [OF assms(1)])
  case 1
  with assms(2) show ?thesis by simp
next
  case (2 v s1)
  with assms(2) have s1: "v = a" "stack_abs s1 = b # st" by simp_all
  then have top: "0 < stk_top s1" using length_stack_abs' [of s1] by simp
  let ?s' = "s1\<lparr>stk_data := (stk_data s1)(stk_top s1 - 1 := f a b)\<rparr>"
  have "binop f m = Ret (set_stack ?s' m, None)"
    using 2 s1 top by (simp add: binop_def pop_def peek_def poke_def op_ok_def Back_eq SetBack_eq set_stack_def upd_fr_def)
  moreover have "stack_ok ?s'" using 2(2) by (simp add: stack_ok_def)
  moreover have "stack_abs ?s' = f a b # st" using stack_abs_set [of 0 s1 "f a b"] top s1(2) by simp
  ultimately show ?thesis by blast
qed

lemma binop_one:
  assumes "stack_ok (Stk (fr m))" and "stack_abs (Stk (fr m)) = [a]"
  shows "binop f m = Panic"
proof (cases rule: evm_stack.pop_cases [OF assms(1)])
  case (2 v s1)
  with assms(2) have "stack_abs s1 = []" by simp
  then have "stk_top s1 \<le> 0" using length_stack_abs' [of s1] by simp
  with 2 show ?thesis by (simp add: binop_def pop_def peek_def Back_eq set_stack_def)
qed (use assms(2) in simp)

lemma binop_none:
  assumes "stack_ok (Stk (fr m))" and "stack_abs (Stk (fr m)) = []"
  shows "binop f m = Ret (m, Some Stack_ErrStackUnderflow)"
  by (cases rule: evm_stack.pop_cases [OF assms(1)]) (use assms(2) in \<open>simp_all add: binop_def pop_def op_fail_def\<close>)

section \<open>The arithmetic functions\<close>

lemma poke_if: "(if c then poke n x k else poke n y k) = poke n (if c then x else y) k"
  by simp

lemma unat_low:
  assumes "i < (256 :: word256)"
  shows "unat (Uint64 i) = unat i"
proof -
  have "unat i < 256" using assms by (simp add: word_less_nat_alt)
  then show ?thesis by (simp add: unsigned_ucast_eq unsigned_take_bit_eq take_bit_nat_eq_self)
qed

lemma byte_of_word: "i < 32 \<Longrightarrow> ucast (Bytes32 x ! unat (Uint64 i)) = word_byte i x"
proof -
  assume i: "i < 32"
  then have "i < 256" by (auto intro: less_trans)
  moreover have "unat i < 32" using i by (simp add: word_less_nat_alt)
  moreover have "ucast (ucast w :: byte) = w AND 0xff" for w :: word256
  proof -
    have "(0xff :: word256) = mask 8" by (simp add: mask_eq_exp_minus_1)
    show ?thesis unfolding \<open>0xff = mask 8\<close> by (auto intro!: bit_word_eqI simp: bit_simps)
  qed
  ultimately show ?thesis using i by (simp add: word_byte_def be_bytes_def unat_low)
qed

lemma shifts_off:
  assumes "\<not> a < (256 :: word256)"
  shows "push_bit (unat a) (b :: word256) = 0" "drop_bit (unat a) b = 0"
    "signed_drop_bit (unat a) b = (if sint b < 0 then -1 else 0)"
proof -
  have a: "256 \<le> unat a" using assms by (simp add: not_less word_le_nat_alt)
  then show "push_bit (unat a) b = 0" "drop_bit (unat a) b = 0"
    by (auto intro!: bit_word_eqI simp: bit_push_bit_iff bit_drop_bit_eq dest: bit_imp_le_length)
  show "signed_drop_bit (unat a) b = (if sint b < 0 then -1 else 0)"
    using a bit_last_iff [of b] by (auto intro!: bit_word_eqI simp: bit_signed_drop_bit_iff)
qed

lemma ops_are_binops:
  assumes "uint256_pkg L"
  shows "opAdd L = binop (\<lambda>a b. a + b)" "opMul L = binop (\<lambda>a b. a * b)" "opSub L = binop (\<lambda>a b. a - b)"
    "opDiv L = binop (\<lambda>a b. if b = 0 then 0 else a div b)"
    "opSDiv L = binop (\<lambda>a b. if b = 0 then 0 else word_of_int (trunc_div (sint a) (sint b)))"
    "opMod L = binop (\<lambda>a b. if b = 0 then 0 else a mod b)"
    "opSMod L = binop (\<lambda>a b. if b = 0 then 0 else word_of_int (trunc_mod (sint a) (sint b)))"
    "opLt L = binop (\<lambda>a b. of_bool (a < b))" "opGt L = binop (\<lambda>a b. of_bool (b < a))"
    "opSlt L = binop (\<lambda>a b. of_bool (sint a < sint b))" "opSgt L = binop (\<lambda>a b. of_bool (sint b < sint a))"
    "opEq = binop (\<lambda>a b. of_bool (a = b))"
    "opAnd L = binop (\<lambda>a b. a AND b)" "opOr L = binop (\<lambda>a b. a OR b)" "opXor L = binop (\<lambda>a b. a XOR b)"
proof -
  note u = uint256_pkg.add [OF assms] uint256_pkg.mul [OF assms] uint256_pkg.sub [OF assms]
    uint256_pkg.div [OF assms] uint256_pkg.sdiv [OF assms] uint256_pkg.mod [OF assms] uint256_pkg.smod [OF assms]
    uint256_pkg.lt [OF assms] uint256_pkg.gt [OF assms] uint256_pkg.slt [OF assms] uint256_pkg.sgt [OF assms]
    uint256_pkg.bitwise [OF assms]
  have div: "(if b = 0 then 0 else u_div L a b) = (if b = 0 then 0 else a div b)"
    "(if b = 0 then 0 else u_sdiv L a b) = (if b = 0 then 0 else word_of_int (trunc_div (sint a) (sint b)))"
    "(if b = 0 then 0 else u_mod L a b) = (if b = 0 then 0 else a mod b)"
    "(if b = 0 then 0 else u_smod L a b) = (if b = 0 then 0 else word_of_int (trunc_mod (sint a) (sint b)))" for a b
    by (simp_all add: u)
  have "of_bool256 c = of_bool c" for c by (simp add: of_bool256_def)
  then show "opAdd L = binop (\<lambda>a b. a + b)" "opMul L = binop (\<lambda>a b. a * b)" "opSub L = binop (\<lambda>a b. a - b)"
    "opDiv L = binop (\<lambda>a b. if b = 0 then 0 else a div b)"
    "opSDiv L = binop (\<lambda>a b. if b = 0 then 0 else word_of_int (trunc_div (sint a) (sint b)))"
    "opMod L = binop (\<lambda>a b. if b = 0 then 0 else a mod b)"
    "opSMod L = binop (\<lambda>a b. if b = 0 then 0 else word_of_int (trunc_mod (sint a) (sint b)))"
    "opLt L = binop (\<lambda>a b. of_bool (a < b))" "opGt L = binop (\<lambda>a b. of_bool (b < a))"
    "opSlt L = binop (\<lambda>a b. of_bool (sint a < sint b))" "opSgt L = binop (\<lambda>a b. of_bool (sint b < sint a))"
    "opEq = binop (\<lambda>a b. of_bool (a = b))"
    "opAnd L = binop (\<lambda>a b. a AND b)" "opOr L = binop (\<lambda>a b. a OR b)" "opXor L = binop (\<lambda>a b. a XOR b)"
    by (simp_all only: binop_def opAdd_def opMul_def opSub_def opDiv_def opSDiv_def opMod_def opSMod_def opLt_def
        opGt_def opSlt_def opSgt_def opEq_def opAnd_def opOr_def opXor_def poke_if div u)
qed

lemma shifts_are_binops:
  assumes "uint256_pkg L"
  shows "opByte = binop word_byte" "opShl L = binop (\<lambda>a b. push_bit (unat a) b)"
    "opShr L = binop (\<lambda>a b. drop_bit (unat a) b)" "opSar L = binop (\<lambda>a b. signed_drop_bit (unat a) b)"
proof -
  note u = uint256_pkg.lsh [OF assms] uint256_pkg.rsh [OF assms] uint256_pkg.srsh [OF assms] uint256_pkg.sign [OF assms]
  have "(if i < 32 then ucast (Bytes32 x ! unat (Uint64 i)) else 0) = word_byte i x" for i x
    by (simp add: byte_of_word) (simp add: word_byte_def)
  then show "opByte = binop word_byte"
    by (simp only: opByte_def binop_def poke_if)
  have "(if a < 256 then u_lsh L b (Uint64 a) else 0) = push_bit (unat a) b"
    "(if a < 256 then u_rsh L b (Uint64 a) else 0) = drop_bit (unat a) b" for a b
    by (simp_all add: u unat_low shifts_off)
  then show "opShl L = binop (\<lambda>a b. push_bit (unat a) b)" "opShr L = binop (\<lambda>a b. drop_bit (unat a) b)"
    by (simp_all only: opShl_def opShr_def binop_def poke_if)
  have "(if 255 < a then if u_sign L b < 0 then - 1 else 0 else u_srsh L b (Uint64 a)) = signed_drop_bit (unat a) b"
    for a b
  proof (cases "a < 256")
    case True
    then have "\<not> 255 < a" by (simp add: word_less_nat_alt)
    then show ?thesis using True by (simp add: u unat_low)
  next
    case False
    then have "255 < a" by (simp add: word_less_nat_alt)
    then show ?thesis using shifts_off(3) [OF False] by (simp add: u sgn_if)
  qed
  then show "opSar L = binop (\<lambda>a b. signed_drop_bit (unat a) b)"
    by (simp only: opSar_def binop_def poke_if)
qed

text \<open>Every row of the table is a row of the switch.\<close>

lemma alu_rows:
  assumes "uint256_pkg L"
  shows "list_all (\<lambda>(op, g, f). map_of (arith_ops L) op = Some (g, binop f)) alu_table"
  by (simp add: alu_table_def arith_ops_def ops_are_binops [OF assms] shifts_are_binops [OF assms])

lemma exec_alu:
  assumes "uint256_pkg L" and "map_of alu_table op = Some (g, f)"
  shows "exec_op L H op = charge g (fall (binop f))"
proof -
  have "(op, g, f) \<in> set alu_table" using assms(2) by (rule map_of_SomeD)
  with alu_rows [OF assms(1)] have "map_of (arith_ops L) op = Some (g, binop f)"
    by (auto simp: list_all_iff)
  then have "map_of (arith_ops L @ env_ops L @ mem_ops) op = Some (g, binop f)" by (simp add: map_add_def)
  then show ?thesis by (simp only: exec_op_def option.case prod.case)
qed

section \<open>Jumps and loads\<close>

lemma pop_top:
  assumes "stack_ok (Stk (fr m))" and "stack_abs (Stk (fr m)) = a # st"
  obtains s' where "stack_ok s'" and "stack_abs s' = st" and "\<forall>k. pop k m = k a (set_stack s' m)"
    and "\<forall>k. pop_or_return k m = k a (set_stack s' m)"
  by (cases rule: evm_stack.pop_cases [OF assms(1)]) (use assms(2) in \<open>auto simp: pop_def pop_or_return_def\<close>)

lemma replace_top:
  assumes "stack_ok s" and "stack_abs s = a # st"
  obtains s' where "Back s 0 = Ret a" and "SetBack s 0 v = Ret s'" and "stack_ok s'" and "stack_abs s' = v # st"
proof
  have top: "0 < stk_top s" using assms(2) length_stack_abs' [of s] by simp
  let ?s' = "s\<lparr>stk_data := (stk_data s)(stk_top s - 1 := v)\<rparr>"
  show "Back s 0 = Ret a" "SetBack s 0 v = Ret ?s'"
    using assms top by (simp_all add: Back_eq SetBack_eq)
  show "stack_ok ?s'" using assms(1) by (simp add: stack_ok_def)
  show "stack_abs ?s' = v # st" using stack_abs_set [of 0 s v] top assms(2) by simp
qed

lemma unat_Uint64: "unat (Uint64 w) = unat w mod 2 ^ 64"
  by (simp add: unsigned_ucast_eq unsigned_take_bit_eq take_bit_eq_mod)

lemma nth_padded_from:
  "i < n \<Longrightarrow> padded_from dat off n ! i = (if unat off + i < length dat then dat ! (unat off + i) else 0)"
  by (auto simp: padded_from_def nth_copy_at)

lemma length_padded_from [simp]: "length (padded_from dat off n) = n"
  by (simp add: padded_from_def)

section \<open>Properties\<close>

text \<open>
  C7: the two-operand arithmetic, comparison, bitwise and shift instructions compute what their table says
  of the two topmost words, division by zero and shifts of 256 bits and more included, charge their
  constant and change nothing else.
\<close>

theorem alu_instructions_correct:
  assumes "uint256_pkg L" and "map_of alu_table op = Some (g, f)"
    and "stack_ok (Stk (fr m))" and "stack_abs (Stk (fr m)) = a # b # st" and "g \<le> Gas (fr m)"
  shows "\<exists>s'. exec_op L H op m = Ret (set_stack s' (use_gas g m), Next None)
    \<and> stack_ok s' \<and> stack_abs s' = f a b # st"
proof -
  have "Stk (fr (use_gas g m)) = Stk (fr m)" by (simp add: use_gas_def)
  with binop_two [of "use_gas g m" a b st f] assms(3,4)
  obtain s' where "binop f (use_gas g m) = Ret (set_stack s' (use_gas g m), None)" "stack_ok s'" "stack_abs s' = f a b # st"
    by auto
  then show ?thesis
    using assms(5) by (auto simp: exec_alu [OF assms(1,2)] charge_def fall_def not_less)
qed

theorem alu_instructions_correct_witness:
  "\<exists>m s'. stack_abs (Stk (fr m)) = [7, 0]
     \<and> exec_op std_lib no_handler op_DIV m = Ret (set_stack s' (use_gas 5 m), Next None) \<and> stack_abs s' = [0]"
proof -
  let ?s = "new_Stack\<lparr>stk_data := (\<lambda>i. if i = 1 then 7 else 0), stk_top := 2\<rparr>"
  let ?m = "\<lparr>evm = test_EVM new_StateDB, fr = new_Frame\<lparr>Stk := ?s, Gas := 9\<rparr>\<rparr>"
  have "stack_ok ?s" by (simp add: stack_ok_def MaxDepth_def)
  moreover have s: "stack_abs ?s = [7, 0]" by (simp add: stack_abs_def upt_rec)
  moreover have "map_of alu_table op_DIV = Some (5, \<lambda>a b. if b = 0 then 0 else a div b)"
    by (simp add: alu_table_def)
  ultimately obtain s' where "exec_op std_lib no_handler op_DIV ?m = Ret (set_stack s' (use_gas 5 ?m), Next None)"
    "stack_abs s' = [0]"
    using alu_instructions_correct [OF std.uint256_pkg_axioms, of op_DIV 5 "\<lambda>a b. if b = 0 then 0 else a div b" ?m 7 0 "[]" no_handler]
    by auto
  then show ?thesis using s by (intro exI [of _ ?m] exI [of _ s']) simp
qed

text \<open>
  C22: the same instructions on a short stack.  An empty stack is reported as a stack underflow, but a stack
  with a single word panics: the second operand is read without a bounds check.
\<close>

theorem alu_instructions_on_short_stacks:
  assumes "uint256_pkg L" and "map_of alu_table op = Some (g, f)" and "stack_ok (Stk (fr m))" and "g \<le> Gas (fr m)"
  shows "(stack_abs (Stk (fr m)) = [] \<longrightarrow>
      exec_op L H op m = Ret (use_gas g m, Next (Some Stack_ErrStackUnderflow)))
    \<and> (stack_abs (Stk (fr m)) = [a] \<longrightarrow> exec_op L H op m = Panic)"
  using assms(3,4) binop_none [of "use_gas g m" f] binop_one [of "use_gas g m" a f]
  by (simp add: exec_alu [OF assms(1,2)] charge_def fall_def not_less [symmetric] use_gas_def)

theorem alu_instructions_on_short_stacks_witness:
  "exec_op std_lib no_handler op_ADD \<lparr>evm = test_EVM new_StateDB,
     fr = new_Frame\<lparr>Stk := new_Stack\<lparr>stk_top := 1\<rparr>, Gas := 9\<rparr>\<rparr> = Panic"
proof -
  have "stack_ok (new_Stack\<lparr>stk_top := 1\<rparr>)" by (simp add: stack_ok_def MaxDepth_def)
  moreover have "stack_abs (new_Stack\<lparr>stk_top := 1\<rparr>) = [0]" by (simp add: stack_abs_def new_Stack_def)
  moreover have "map_of alu_table op_ADD = Some (3, \<lambda>a b. a + b)" by (simp add: alu_table_def)
  ultimately show ?thesis
    using alu_instructions_on_short_stacks [OF std.uint256_pkg_axioms, of op_ADD 3 "\<lambda>a b. a + b"
      "\<lparr>evm = test_EVM new_StateDB, fr = new_Frame\<lparr>Stk := new_Stack\<lparr>stk_top := 1\<rparr>, Gas := 9\<rparr>\<rparr>" no_handler 0]
    by simp
qed

text \<open>
  C20: JUMP goes to the destination, or reports an invalid jump, by the low 64 bits of the word; the upper
  192 bits are ignored.  In a frame that \<open>Run\<close> started with no entry in its cache for the key of the code
  (its pointer and length), the destination must be a JUMPDEST instruction of the code, not a byte of push
  data.  When \<open>Run\<close> found an entry for the key, that entry decides, whichever code it was made for.
\<close>

theorem jump_correct:
  assumes "stack_ok (Stk (fr m))" and "stack_abs (Stk (fr m)) = d # st"
    and "jumpdests (fr m) = jumpdests (fr (load_jumpdests L m0))" and "code = Code (fr m0)" and "k = unat d mod 2 ^ 64"
  shows "\<exists>s'. stack_abs s' = st \<and> opJump m =
      (if (case e_jumpdestCache (evm m0) (codeID L code) of
             None \<Rightarrow> instr_start code k \<and> k < length code \<and> code ! k = op_JUMPDEST
           | Some bv \<Rightarrow> bitvec_has bv (of_nat k))
       then Ret (upd_fr (\<lambda>f. f\<lparr>PC := of_nat k\<rparr>) (set_stack s' m), None)
       else Ret (set_stack s' m, Some ErrInvalidJump))"
proof -
  obtain s' where s': "stack_ok s'" "stack_abs s' = st" "\<forall>k. pop k m = k d (set_stack s' m)"
    by (rule pop_top [OF assms(1,2)])
  have "unat (Uint64 d) = k" using assms(5) unat_Uint64 [of d] by simp
  moreover have "Uint64 d = of_nat (unat (Uint64 d))" by simp
  ultimately have pc: "unat (Uint64 d) = k" "Uint64 d = of_nat k" by simp_all
  have table: "bitvec_has (jumpdests (fr m)) (Uint64 d) \<longleftrightarrow> (case e_jumpdestCache (evm m0) (codeID L code) of
        None \<Rightarrow> instr_start code k \<and> k < length code \<and> code ! k = op_JUMPDEST | Some bv \<Rightarrow> bitvec_has bv (of_nat k))"
  proof (cases "e_jumpdestCache (evm m0) (codeID L code)")
    case None
    then have "jumpdests (fr m) = buildJumpdests code" using assms(3,4) by (simp add: load_jumpdests_def Let_def upd_fr_def)
    with None show ?thesis by (simp add: bitvec_has_mem bv_mem_buildJumpdests pc(1))
  next
    case (Some bv)
    then have "jumpdests (fr m) = bv" using assms(3,4) by (simp add: load_jumpdests_def upd_fr_def)
    with Some show ?thesis by (simp add: pc(2))
  qed
  have "opJump m = jump_to (Uint64 d) (set_stack s' m)"
    by (simp add: opJump_def s'(3))
  also have "\<dots> = (if bitvec_has (jumpdests (fr m)) (Uint64 d)
       then Ret (upd_fr (\<lambda>f. f\<lparr>PC := of_nat k\<rparr>) (set_stack s' m), None)
       else Ret (set_stack s' m, Some ErrInvalidJump))"
    by (simp add: jump_to_def set_stack_def set_pc_def op_ok_def op_fail_def) (simp add: pc(2))
  finally show ?thesis using s'(2) unfolding table by blast
qed

theorem jump_correct_witness:
  "\<exists>m s'. stack_abs (Stk (fr m)) = [18446744073709551616]
     \<and> opJump m = Ret (upd_fr (\<lambda>f. f\<lparr>PC := 0\<rparr>) (set_stack s' m), None)"
proof -
  let ?s = "new_Stack\<lparr>stk_data := (\<lambda>i. 18446744073709551616), stk_top := 1\<rparr>"
  let ?start = "\<lparr>evm = test_EVM new_StateDB, fr = new_Frame\<lparr>Stk := ?s, Code := [op_JUMPDEST]\<rparr>\<rparr>"
  let ?m = "load_jumpdests std_lib ?start"
  have cache: "e_jumpdestCache (evm ?start) = (\<lambda>_. None)" by (simp add: test_EVM_def EVM_New_def)
  then have "Stk (fr ?m) = ?s" by (simp add: load_jumpdests_def upd_fr_def Let_def)
  then have s: "stack_ok (Stk (fr ?m))" "stack_abs (Stk (fr ?m)) = [18446744073709551616]"
    by (simp_all add: stack_ok_def MaxDepth_def stack_abs_def)
  from jump_correct [OF this HOL.refl, of "[op_JUMPDEST]" 0] cache start_zero [of "[op_JUMPDEST]"]
  obtain s' where "opJump ?m = Ret (upd_fr (\<lambda>f. f\<lparr>PC := 0\<rparr>) (set_stack s' ?m), None)"
    by auto
  then show ?thesis using s by blast
qed

text \<open>
  C34: CALLDATALOAD pushes the 32 bytes of the input from the offset on, with zeros for what lies behind its
  end.  The offset is the low 64 bits of the word.
\<close>

theorem calldataload_correct:
  assumes "stack_ok (Stk (fr m))" and "stack_abs (Stk (fr m)) = x # st" and "off = unat x mod 2 ^ 64"
  shows "\<exists>s' w. opCalldataLoad m = Ret (set_stack s' m, None) \<and> stack_ok s' \<and> stack_abs s' = w # st
    \<and> Bytes32 w = map (\<lambda>i. if off + i < length (Input (fr m)) then Input (fr m) ! (off + i) else 0) [0..<32]"
proof -
  let ?w = "SetBytes (padded_from (Input (fr m)) (Uint64 x) 32)"
  obtain s' where "Back (Stk (fr m)) 0 = Ret x" "SetBack (Stk (fr m)) 0 ?w = Ret s'" "stack_ok s'" "stack_abs s' = ?w # st"
    by (rule replace_top [OF assms(1,2)])
  moreover from this have "opCalldataLoad m = Ret (set_stack s' m, None)"
    by (simp add: opCalldataLoad_def peek_def poke_def op_ok_def)
  moreover have "Bytes32 ?w = map (\<lambda>i. if off + i < length (Input (fr m)) then Input (fr m) ! (off + i) else 0) [0..<32]"
    using assms(3) by (subst Bytes32_SetBytes) (auto simp: hash_ok_def nth_padded_from unat_Uint64 intro!: nth_equalityI)
  ultimately show ?thesis by blast
qed

theorem calldataload_correct_witness:
  "\<exists>m s' w. Input (fr m) = [7, 8, 9] \<and> opCalldataLoad m = Ret (set_stack s' m, None) \<and> stack_abs s' = [w]
     \<and> Bytes32 w = 8 # 9 # replicate 30 0"
proof -
  let ?s = "new_Stack\<lparr>stk_data := (\<lambda>i. 1), stk_top := 1\<rparr>"
  let ?m = "\<lparr>evm = test_EVM new_StateDB, fr = new_Frame\<lparr>Stk := ?s, Input := [7, 8, 9]\<rparr>\<rparr>"
  have "stack_ok ?s" "stack_abs ?s = [1]" by (simp_all add: stack_ok_def MaxDepth_def stack_abs_def)
  then obtain s' w where "opCalldataLoad ?m = Ret (set_stack s' ?m, None)" "stack_abs s' = [w]"
    and w: "Bytes32 w = map (\<lambda>i. if 1 + i < 3 then [7, 8, 9] ! (1 + i) else 0) [0..<32]"
    using calldataload_correct [of ?m 1 "[]" 1] by auto
  moreover have "map (\<lambda>i. if 1 + i < 3 then [7, 8, 9] ! (1 + i) else 0) [0..<32] = (8 # 9 # replicate 30 0 :: bytes)"
    by (rule nth_equalityI) (auto simp: nth_Cons split: nat.split)
  ultimately show ?thesis by (intro exI [of _ ?m]) auto
qed

end
