(* ===== verification/Charges.thy ===== *)
theory Charges
  imports OpSpecs
begin

text \<open>
  What the instructions with a cost of their own charge: the copy instructions, SHA3 and the creates.
\<close>

section \<open>Copies\<close>

text \<open>What keeps the gas and the length of the memory.\<close>

definition free :: "(machine \<Rightarrow> (machine \<times> 'a) go) \<Rightarrow> bool" where
  "free k \<longleftrightarrow> (\<forall>m m' x. k m = Ret (m', x) \<longrightarrow>
     Gas (fr m') = Gas (fr m) \<and> Memory_Len (Mem (fr m')) = Memory_Len (Mem (fr m)))"

lemma free_ends: "free op_ok"
  by (simp add: free_def op_ok_def)

lemma free_at: "(\<And>m. free (k m)) \<Longrightarrow> free (\<lambda>m. k m m)"
  by (auto simp: free_def)

lemma free_pop:
  assumes "\<And>v. free (k v)"
  shows "free (pop k)"
  unfolding free_def
proof (intro allI impI)
  fix m m' x assume p: "pop k m = Ret (m', x)"
  then obtain r where "Pop (Stk (fr m)) = Ret r"
    and r: "(case r of Inl e \<Rightarrow> op_fail e m | Inr (v, s) \<Rightarrow> k v (set_stack s m)) = Ret (m', x)"
    by (auto simp: pop_def go_bind_Ret_iff)
  show "Gas (fr m') = Gas (fr m) \<and> Memory_Len (Mem (fr m')) = Memory_Len (Mem (fr m))"
  proof (cases r)
    case (Inl e)
    with r show ?thesis by (auto simp: op_fail_def)
  next
    case (Inr y)
    with r obtain v s where "k v (set_stack s m) = Ret (m', x)" by (cases y) auto
    from assms [unfolded free_def, rule_format, OF this] show ?thesis by (simp add: set_stack_def)
  qed
qed

lemma free_if: "free k \<Longrightarrow> free l \<Longrightarrow> free (if c then k else l)"
  by simp

lemma free_with_mem: "(\<And>x. free (k x)) \<Longrightarrow> free (with_mem f k)"
  by (auto simp: free_def with_mem_def go_bind_Ret_iff)

lemma free_write_mem:
  assumes "\<And>x. Memory_Len (h x) = Memory_Len x" and "free k"
  shows "free (write_mem (\<lambda>x. Ret (h x)) k)"
  unfolding free_def
proof (intro allI impI)
  fix m m' x
  assume "write_mem (\<lambda>x. Ret (h x)) k m = Ret (m', x)"
  then have "k (set_mem (h (Mem (fr m))) m) = Ret (m', x)" by (simp add: write_mem_def)
  from assms(2) [unfolded free_def, rule_format, OF this] assms(1)
  show "Gas (fr m') = Gas (fr m) \<and> Memory_Len (Mem (fr m')) = Memory_Len (Mem (fr m))"
    by (simp add: set_mem_def)
qed

lemma free_copy_in: "free (copy_in dest off sz dat)"
proof -
  have "Memory_Len (zero_ptr x p) = Memory_Len x" "Memory_Len (copy_ptr x p d) = Memory_Len x" for x p d
    by (simp_all add: Memory_Len_def zero_ptr_def copy_ptr_def)
  then show ?thesis
    unfolding copy_in_def by (intro free_if free_with_mem free_write_mem free_ends)
qed

lemma free_copies: "free opCalldataCopy" "free opCodeCopy"
  unfolding opCalldataCopy_def opCodeCopy_def by ((rule free_pop)+, rule free_at, rule free_copy_in)+

lemma exec_copies:
  "exec_op L H op_CALLDATACOPY = fall (memCopyOp opCalldataCopy)"
  "exec_op L H op_CODECOPY = fall (memCopyOp opCodeCopy)"
proof -
  have "map_of (arith_ops L @ env_ops L @ mem_ops) op_CALLDATACOPY = None"
    "map_of (arith_ops L @ env_ops L @ mem_ops) op_CODECOPY = None"
    by (simp_all add: arith_ops_def env_ops_def mem_ops_def)
  then show "exec_op L H op_CALLDATACOPY = fall (memCopyOp opCalldataCopy)"
    "exec_op L H op_CODECOPY = fall (memCopyOp opCodeCopy)"
    by (simp_all only: exec_op_def option.case) (simp_all add: exec_control_def exec_special_def)
qed

lemma memCopyOp_zero:
  assumes "stack_ok (Stk (fr m))" and "stack_abs (Stk (fr m)) = dest # off # sz # st" and "Uint64 dest = 0"
  shows "memCopyOp fn m = fn m"
proof -
  have "2 < stk_top (Stk (fr m))"
    using assms(2) length_stack_abs' [of "Stk (fr m)"] by simp
  then show ?thesis
    using assms by (simp add: memCopyOp_def peek_def Back_eq)
qed

section \<open>Creates\<close>

definition leaves :: "act \<Rightarrow> bool" where
  "leaves k \<longleftrightarrow> (\<forall>m m' r. k m = Ret (m', Done r) \<longrightarrow> r_Err r = None \<longrightarrow>
     unat (Gas (fr m')) \<le> 2 * (unat (Gas (fr m)) div 64))"

lemma leaves_pop:
  assumes "\<And>v. leaves (k v)"
  shows "leaves (pop_or_return k)"
  unfolding leaves_def
proof (intro allI impI)
  fix m m' r
  assume "pop_or_return k m = Ret (m', Done r)" and err: "r_Err r = None"
  then obtain x where "(case x of Inl e \<Rightarrow> return_err e m | Inr (v, s) \<Rightarrow> k v (set_stack s m)) = Ret (m', Done r)"
    by (auto simp: pop_or_return_def go_bind_Ret_iff)
  with err obtain v s where "k v (set_stack s m) = Ret (m', Done r)"
    by (auto simp: return_err_def fail_result_def split: sum.splits)
  from assms [unfolded leaves_def, rule_format, OF this err]
  show "unat (Gas (fr m')) \<le> 2 * (unat (Gas (fr m)) div 64)" by simp
qed

lemma leaves_expand:
  assumes "leaves k"
  shows "leaves (or_return (expandMem off sz) k)"
  unfolding leaves_def
proof (intro allI impI)
  fix m m' r
  assume run: "or_return (expandMem off sz) k m = Ret (m', Done r)" and err: "r_Err r = None"
  then obtain m1 e where ex: "expandMem off sz m = Ret (m1, e)"
    and "(case e of None \<Rightarrow> k m1 | Some x \<Rightarrow> return_err x m1) = Ret (m', Done r)"
    by (auto simp: or_return_def go_bind_Ret_iff)
  with err have k: "k m1 = Ret (m', Done r)"
    by (auto simp: return_err_def fail_result_def split: option.splits)
  have "Gas (fr m1) \<le> Gas (fr m)"
    using fx.keepsD [OF fx.keeps_expandMem, of m "Static (fr m)" L UNIV 0 False False off sz] ex
    by (simp add: sane_def)
  then have "unat (Gas (fr m1)) div 64 \<le> unat (Gas (fr m)) div 64"
    by (intro div_le_mono) (simp add: word_le_nat_alt)
  moreover have "unat (Gas (fr m')) \<le> 2 * (unat (Gas (fr m1)) div 64)"
    using assms k err by (simp add: leaves_def)
  ultimately show "unat (Gas (fr m')) \<le> 2 * (unat (Gas (fr m)) div 64)" by linarith
qed

lemma leaves_with_mem: "(\<And>x. leaves (k x)) \<Longrightarrow> leaves (with_mem f k)"
  by (auto simp: leaves_def with_mem_def go_bind_Ret_iff)

lemma push_and_return_gas: "push_and_return x m = Ret (m', out) \<Longrightarrow> Gas (fr m') = Gas (fr m)"
  by (cases x) (auto simp: push_and_return_def return_ok_def set_stack_def split: sum.splits)

lemma leaves_do_create: "leaves (do_create (handler_at L fuel d) val code salt)"
  unfolding leaves_def
proof (intro allI impI)
  fix m m' r
  assume run: "do_create (handler_at L fuel d) val code salt m = Ret (m', Done r)"
  let ?m1 = "use_gas (CallGas (Gas (fr m))) m"
  from run obtain e addr gl err where
    c: "h_Create (handler_at L fuel d) (evm ?m1) (fr ?m1) val code salt = Ret (e, addr, gl, err)"
    and g: "Gas (fr m') = Gas (fr ?m1) + gl"
    by (auto simp: do_create_def Let_def go_bind_Ret_iff dest!: push_and_return_gas)
  have "gl \<le> Gas (fr ?m1)" using evm_handler.create_effect [OF c] by blast
  moreover have "unat (Gas (fr ?m1)) = unat (Gas (fr m)) div 64"
    by (simp add: unat_sub [OF CallGas_le] unat_CallGas)
  ultimately show "unat (Gas (fr m')) \<le> 2 * (unat (Gas (fr m)) div 64)"
    using unat_sum_le [of "Gas (fr ?m1)" gl] by (simp add: g word_le_nat_alt)
qed

lemma leaves_if: "(c \<Longrightarrow> leaves k) \<Longrightarrow> (\<not> c \<Longrightarrow> leaves l) \<Longrightarrow> leaves (if c then k else l)"
  by simp

section \<open>SHA3\<close>

lemma free_opSha3: "free (opSha3 L)"
proof -
  have "free (peek 0 (\<lambda>sz. with_mem (\<lambda>x. Get x (Uint64 off) (Uint64 sz)) (\<lambda>dat.
       poke 0 (SetBytes (keccak L dat)) op_ok)))" for off
    by (auto simp: free_def peek_def with_mem_def poke_def op_ok_def go_bind_Ret_iff set_stack_def)
  then show ?thesis unfolding opSha3_def by (rule free_pop)
qed

lemma fall_opSha3_gas: "fall (opSha3 L) m = Ret (m', out) \<Longrightarrow> Gas (fr m') = Gas (fr m)"
  using free_opSha3 by (auto simp: fall_def go_bind_Ret_iff free_def)

section \<open>Properties\<close>

text \<open>
  C36: copying to the offset 0 is free.  The wrapper of the copy instructions takes the topmost word, the
  destination, for the size: when its low 64 bits are 0, CALLDATACOPY and CODECOPY charge nothing, neither
  for the words copied nor for the memory, and do not extend the memory, whatever they copy.
\<close>

theorem copy_to_zero_is_free:
  assumes "op = op_CALLDATACOPY \<or> op = op_CODECOPY"
    and "stack_ok (Stk (fr m))" and "stack_abs (Stk (fr m)) = dest # off # sz # st" and "unat dest mod 2 ^ 64 = 0"
    and "exec_op L H op m = Ret (m', out)"
  shows "Gas (fr m') = Gas (fr m) \<and> Memory_Len (Mem (fr m')) = Memory_Len (Mem (fr m))"
proof -
  have "Uint64 dest = 0" using unat_Uint64 [of dest] assms(4) by (simp add: unat_eq_zero)
  from memCopyOp_zero [OF assms(2,3) this] assms(1,5)
  have "fall opCalldataCopy m = Ret (m', out) \<or> fall opCodeCopy m = Ret (m', out)"
    by (auto simp: exec_copies fall_def)
  then show ?thesis
    using free_copies by (auto simp: fall_def go_bind_Ret_iff free_def)
qed

theorem copy_to_zero_is_free_witness:
  "\<exists>m m'. stack_abs (Stk (fr m)) = [0, 0, 64] \<and> exec_op std_lib no_handler op_CALLDATACOPY m = Ret (m', Next None)
     \<and> Gas (fr m') = 0 \<and> Memory_Len (Mem (fr m')) = 0"
proof -
  let ?s = "new_Stack\<lparr>stk_data := (\<lambda>i. if i = 0 then 64 else 0), stk_top := 3\<rparr>"
  let ?m = "\<lparr>evm = test_EVM new_StateDB, fr = new_Frame\<lparr>Stk := ?s\<rparr>\<rparr>"
  have s: "stack_ok ?s" "stack_abs ?s = [0, 0, 64]" by (simp_all add: stack_ok_def MaxDepth_def stack_abs_def upt_rec)
  have "Uint64 0 = 0" by simp
  from memCopyOp_zero [of ?m 0 0 64 "[]" opCalldataCopy] s
  obtain m' where m': "exec_op std_lib no_handler op_CALLDATACOPY ?m = Ret (m', Next None)"
    by (simp add: exec_copies fall_def opCalldataCopy_def pop_def Pop_def data_at_def MaxDepth_def copy_in_def
        with_mem_def GetPtr_def slice_ok_def write_mem_def op_ok_def new_Frame_def new_Memory_def set_stack_def)
  from copy_to_zero_is_free [OF _ _ _ _ m', of 0 0 64 "[]"] s m' show ?thesis
    by (intro exI [of _ ?m] exI [of _ m']) (simp add: new_Frame_def new_Memory_def Memory_Len_def)
qed

text \<open>
  C35: a create keeps at most a 32nd of the gas.  The handler is called after 63/64 of the gas were taken
  from the frame and hands on what is left in it, so after a create that returns the frame holds at most
  twice a 64th of the gas it had; the rest is neither used by the init code nor given back.
\<close>

theorem create_keeps_a_32nd:
  assumes "execCreate (handler_at L fuel d) op m = Ret (m', Done r)" and "r_Err r = None"
    and "Depth (fr m) < 1024"
  shows "unat (Gas (fr m')) \<le> 2 * (unat (Gas (fr m)) div 64)"
proof -
  have "leaves (pop_or_return (\<lambda>valueWord. pop_or_return (\<lambda>offset. pop_or_return (\<lambda>sz.
        if op = op_CREATE2
        then pop_or_return (\<lambda>saltWord. create_code (handler_at L fuel d) valueWord offset sz (Some (Bytes32 saltWord)))
        else create_code (handler_at L fuel d) valueWord offset sz None))))"
    unfolding create_code_def
    by (intro leaves_pop leaves_if leaves_expand leaves_with_mem leaves_do_create)
  then show ?thesis
    using assms by (auto simp: execCreate_def return_err_def fail_result_def leaves_def split: if_splits)
qed

theorem create_keeps_a_32nd_witness:
  "\<exists>m m' r. Gas (fr m) = 6400 \<and> execCreate (handler_at std_lib 0 (Suc 0)) op_CREATE m = Ret (m', Done r)
     \<and> r_Err r = None \<and> unat (Gas (fr m')) \<le> 200"
proof -
  let ?s = "new_Stack\<lparr>stk_data := (\<lambda>i. 0), stk_top := 3\<rparr>"
  let ?m = "\<lparr>evm = test_EVM new_StateDB, fr = new_Frame\<lparr>Stk := ?s, Gas := 6400, Depth := 1023\<rparr>\<rparr>"
  have "\<exists>m' r. execCreate (handler_at std_lib 0 (Suc 0)) op_CREATE ?m = Ret (m', Done r) \<and> r_Err r = None"
    by (simp add: execCreate_def pop_or_return_def Pop_def data_at_def MaxDepth_def create_code_def or_return_def
        expandMem_def op_ok_def with_mem_def GetCopy_def do_create_def Let_def EVM_Create_def
        push_and_return_def PushRaw_def return_ok_def new_Frame_def set_stack_def use_gas_def ok_result_def
        new_Memory_def data_set_def)
  then obtain m' r where c: "execCreate (handler_at std_lib 0 (Suc 0)) op_CREATE ?m = Ret (m', Done r)" "r_Err r = None"
    by blast
  have "unat (Gas (fr m')) \<le> 2 * (unat (Gas (fr ?m)) div 64)"
    using c by (rule create_keeps_a_32nd) simp
  with c show ?thesis
    by (intro exI [of _ ?m] exI [of _ m'] exI [of _ r]) simp
qed

text \<open>
  C37: SHA3 pays for the memory twice.  When hashing costs \<open>c\<close> gas of memory expansion, the instruction takes
  \<open>c\<close> with its dynamic gas and \<open>c\<close> again when it expands the memory.
\<close>

theorem sha3_pays_expansion_twice:
  assumes "stack_ok (Stk (fr m))" and "stack_abs (Stk (fr m)) = off # sz # st"
    and "ExpansionCost (Mem (fr m)) (Uint64 off) (Uint64 sz) = Inr c"
    and "c \<le> Gas (fr m) - (30 + c + Sha3Words (Uint64 sz))"
    and "run_SHA3 L m = Ret (m', Next None)"
  shows "Gas (fr m') = Gas (fr m) - (30 + Sha3Words (Uint64 sz) + 2 * c)"
proof -
  let ?m1 = "use_gas (30 + c + Sha3Words (Uint64 sz)) m"
  have "1 < stk_top (Stk (fr m))" using assms(2) length_stack_abs' [of "Stk (fr m)"] by simp
  then have "Back (Stk (fr m)) 0 = Ret off" "Back (Stk (fr m)) 1 = Ret sz"
    using assms(1,2) by (simp_all add: Back_eq)
  then have "run_SHA3 L m = charge (30 + c + Sha3Words (Uint64 sz)) (\<lambda>m1.
      go_bind (Expand (Mem (fr m1)) (Uint64 off) (Uint64 sz) (Gas (fr m1))) (\<lambda>r. fall (opSha3 L)
        (case r of Inl e \<Rightarrow> m1 | Inr (x, g) \<Rightarrow> upd_fr (\<lambda>f. f\<lparr>Mem := x, Gas := g\<rparr>) m1))) m"
    by (simp only: run_SHA3_def peek_def go_bind.simps Let_def assms(3) sum.case)
  with assms(5) obtain r where ex: "Expand (Mem (fr m)) (Uint64 off) (Uint64 sz) (Gas (fr ?m1)) = Ret r"
    and f: "fall (opSha3 L) (case r of Inl e \<Rightarrow> ?m1
        | Inr (x, g) \<Rightarrow> upd_fr (\<lambda>f. f\<lparr>Mem := x, Gas := g\<rparr>) ?m1) = Ret (m', Next None)"
    by (auto simp: charge_def return_err_def go_bind_Ret_iff use_gas_def split: if_splits)
  from ex assms(3,4) obtain x where r: "r = Inr (x, Gas (fr ?m1) - c)"
    by (auto simp: Expand_def Let_def go_bind_Ret_iff not_less [symmetric] ExpansionCost_def split: if_splits)
  from fall_opSha3_gas [OF f] r show ?thesis
    by (simp add: use_gas_def algebra_simps)
qed

theorem sha3_pays_expansion_twice_witness:
  "\<exists>m m'. stack_abs (Stk (fr m)) = [0, 32] \<and> Gas (fr m) = 100 \<and> run_SHA3 std_lib m = Ret (m', Next None)
     \<and> ExpansionCost (Mem (fr m)) 0 32 = Inr 3 \<and> Gas (fr m') = 58"
proof -
  let ?s = "new_Stack\<lparr>stk_data := (\<lambda>i. if i = 0 then 32 else 0), stk_top := 2\<rparr>"
  let ?m = "\<lparr>evm = test_EVM new_StateDB, fr = new_Frame\<lparr>Stk := ?s, Gas := 100\<rparr>\<rparr>"
  have s: "stack_ok ?s" "stack_abs ?s = [0, 32]" by (simp_all add: stack_ok_def MaxDepth_def stack_abs_def upt_rec)
  have c: "ExpansionCost (Mem (fr ?m)) (Uint64 0) (Uint64 32) = Inr 3"
    by (simp add: ExpansionCost_def safeAdd_def memoryGas_def Let_def new_Frame_def new_Memory_def)
  have "\<exists>m'. run_SHA3 std_lib ?m = Ret (m', Next None)"
    by (simp add: run_SHA3_def peek_def Back_def data_at_def MaxDepth_def Let_def charge_def use_gas_def Sha3Words_def
        ExpansionCost_def safeAdd_def memoryGas_def Expand_def grow_def new_Frame_def new_Memory_def fall_def opSha3_def
        pop_def Pop_def with_mem_def Get_def slice_ok_def set_stack_def poke_def op_ok_def
        SetBack_def data_set_def)
  then obtain m' where m': "run_SHA3 std_lib ?m = Ret (m', Next None)" by blast
  from sha3_pays_expansion_twice [OF _ _ c _ m', of "[]"] s c m' show ?thesis
    by (intro exI [of _ ?m] exI [of _ m']) (simp add: Sha3Words_def)
qed

end
