(* ===== verification/Derive.thy ===== *)
theory Derive
  imports EVM
begin

text \<open>
  The addresses of new contracts and the intrinsic gas: the bytes hashed for CREATE decode to the creator
  and its nonce, those for CREATE2 are the concatenation of their parts, and the intrinsic gas is a sum.
\<close>

section \<open>The bytes of a nonce\<close>

lemma unat_ucast_byte: "unat (ucast (b :: byte) :: u64) = unat b"
proof -
  have "unat b < 2 ^ LENGTH(8)" by (rule unsigned_less)
  then show ?thesis by (simp add: unsigned_ucast_eq unsigned_take_bit_eq take_bit_nat_eq_self)
qed

lemma nonce_bytes_pos: "0 < n \<Longrightarrow> nonce_bytes n = nonce_bytes (drop_bit 8 n) @ [ucast n]"
  by (simp add: nonce_bytes.simps [of n])

lemma nonce_bytes_0 [simp]: "nonce_bytes 0 = []"
  by (simp add: nonce_bytes.simps)

lemma be_word_nonce_bytes: "be_word (nonce_bytes n) = n"
proof (induction n rule: nonce_bytes.induct)
  case (1 n)
  show ?case
  proof (cases "0 < n")
    case True
    have "push_bit 8 (drop_bit 8 n) OR ucast (ucast n :: byte) = n"
      by (rule bit_word_eqI) (auto simp: bit_or_iff bit_push_bit_iff bit_drop_bit_eq bit_ucast_iff
          dest: bit_imp_le_length)
    with 1 [OF True] show ?thesis by (simp add: nonce_bytes_pos [OF True] be_word_snoc)
  qed (simp add: word_gt_0)
qed

lemma length_nonce_bytes: "unat n < 2 ^ (8 * k) \<Longrightarrow> length (nonce_bytes n) \<le> k"
proof (induction n arbitrary: k rule: nonce_bytes.induct)
  case (1 n)
  show ?case
  proof (cases "0 < n")
    case True
    with 1 have "k \<noteq> 0" by (cases k) (auto simp: word_gt_0 unat_eq_zero)
    then obtain j where k: "k = Suc j" by (cases k) auto
    have "unat (drop_bit 8 n) < 2 ^ (8 * j)"
      using 1(2) less_mult_imp_div_less [of "unat n" "2 ^ (8 * j)" 256]
      by (simp add: k drop_bit_eq_div unat_div power_add mult.commute)
    from 1(1) [OF True this] show ?thesis by (simp add: nonce_bytes_pos [OF True] k)
  qed (simp add: word_gt_0)
qed

lemma length_nonce_bytes_8: "length (nonce_bytes n) \<le> 8"
  by (rule length_nonce_bytes) simp

lemma nonce_bytes_Nil: "nonce_bytes n = [] \<longleftrightarrow> n = 0"
  using be_word_nonce_bytes [of n] by (auto simp: word_gt_0)

section \<open>Reading the bytes hashed for CREATE\<close>

text \<open>
  A decoder of RLP for a list of a 20-byte string and a number.  It accepts a number only in its canonical
  form: 0 as the empty string, a number below \<open>0x80\<close> as the one byte itself, and any other as a string
  without leading zeros.
\<close>

definition rlp_read_nonce :: "bytes \<Rightarrow> u64 option" where
  "rlp_read_nonce bs =
     (case bs of
        [] \<Rightarrow> None
      | b # rest \<Rightarrow>
          if unat b < 128 then (if rest = [] \<and> b \<noteq> 0 then Some (ucast b) else None)
          else if b = 0x80 then (if rest = [] then Some 0 else None)
          else if length rest = unat b - 128 \<and> length rest \<le> 8 \<and> hd rest \<noteq> 0
            \<and> (length rest = 1 \<longrightarrow> 128 \<le> unat (hd rest))
          then Some (be_word rest) else None)"

definition rlp_read :: "bytes \<Rightarrow> (Address \<times> u64) option" where
  "rlp_read bs =
     (case bs of
        h # s # rest \<Rightarrow>
          if unat h = 0xc0 + length (s # rest) \<and> s = 0x94 \<and> 20 \<le> length rest
          then map_option (Pair (take 20 rest)) (rlp_read_nonce (drop 20 rest)) else None
      | _ \<Rightarrow> None)"

lemma hd_nonce_bytes: "n \<noteq> 0 \<Longrightarrow> hd (nonce_bytes n) \<noteq> 0"
proof (induction n rule: nonce_bytes.induct)
  case (1 n)
  then have n: "0 < n" by (simp add: word_gt_0)
  show ?case
  proof (cases "drop_bit 8 n = 0")
    case True
    have "(ucast n :: byte) \<noteq> 0"
    proof
      assume "(ucast n :: byte) = 0"
      then have "push_bit 8 (drop_bit 8 n) OR ucast (ucast n :: byte) = 0" using True by simp
      moreover have "push_bit 8 (drop_bit 8 n) OR ucast (ucast n :: byte) = n"
        by (rule bit_word_eqI) (auto simp: bit_or_iff bit_push_bit_iff bit_drop_bit_eq bit_ucast_iff
            dest: bit_imp_le_length)
      ultimately show False using n by (simp add: word_gt_0)
    qed
    with True show ?thesis by (simp add: nonce_bytes_pos [OF n])
  next
    case False
    then have "nonce_bytes (drop_bit 8 n) \<noteq> []" by (simp add: nonce_bytes_Nil)
    with 1(1) [OF n False] show ?thesis by (simp add: nonce_bytes_pos [OF n])
  qed
qed

lemma rlp_read_nonce_rlp_nonce: "rlp_read_nonce (rlp_nonce n) = Some n"
proof -
  consider "n = 0" | "n \<noteq> 0" "n < 0x80" | "\<not> n < 0x80" by blast
  then show ?thesis
  proof cases
    case 1
    then show ?thesis by (simp add: rlp_nonce_def rlp_read_nonce_def)
  next
    case 2
    then have "unat n < 128" by (simp add: word_less_nat_alt)
    then have u: "unat (ucast n :: byte) = unat n"
      by (simp add: unsigned_ucast_eq unsigned_take_bit_eq take_bit_nat_eq_self)
    then have "unat (ucast (ucast n :: byte) :: u64) = unat n"
      using unsigned_less [of "ucast n :: byte"] by (simp add: unsigned_ucast_eq unsigned_take_bit_eq take_bit_nat_eq_self)
    then have b: "(ucast (ucast n :: byte) :: u64) = n" by (rule unsigned_word_eqI)
    have "(ucast n :: byte) \<noteq> 0x80"
    proof
      assume "(ucast n :: byte) = 0x80"
      then have "unat (ucast n :: byte) = 128" by simp
      with u \<open>unat n < 128\<close> show False by simp
    qed
    moreover have "(ucast n :: byte) \<noteq> 0" using u 2(1) by (auto simp: word_unat_eq_iff)
    ultimately show ?thesis using 2 u b \<open>unat n < 128\<close> by (simp add: rlp_nonce_def rlp_read_nonce_def)
  next
    case 3
    let ?k = "length (nonce_bytes n)"
    have n: "n \<noteq> 0" using 3 by auto
    then have "0 < ?k" by (simp add: nonce_bytes_Nil)
    moreover have "?k \<le> 8" by (rule length_nonce_bytes_8)
    ultimately have b: "unat (0x80 + of_nat ?k :: byte) = 128 + ?k"
      by (simp add: unat_word_ariths unat_of_nat)
    have "128 \<le> unat (hd (nonce_bytes n))" if "?k = 1"
    proof -
      from that obtain b where b: "nonce_bytes n = [b]" by (auto simp: length_Suc_conv)
      then have "n = ucast b" using be_word_nonce_bytes [of n] by (simp add: be_word_def)
      with 3 b show ?thesis by (simp add: word_less_nat_alt unat_ucast_byte)
    qed
    moreover have "(0x80 + of_nat ?k :: byte) \<noteq> 0x80"
    proof
      assume "(0x80 + of_nat ?k :: byte) = 0x80"
      then show False using b \<open>0 < ?k\<close> by simp
    qed
    ultimately show ?thesis
      using 3 n b \<open>0 < ?k\<close> \<open>?k \<le> 8\<close> hd_nonce_bytes [OF n]
      by (simp add: rlp_nonce_def rlp_read_nonce_def be_word_nonce_bytes)
  qed
qed

text \<open>The canonical form is unique: what the decoder accepts is what the code writes.\<close>

lemma be_word_bound: "length bs \<le> 7 \<Longrightarrow> unat (be_word bs :: u64) < 2 ^ 56"
proof -
  assume "length bs \<le> 7"
  then have "take_bit 56 (be_word bs :: u64) = be_word bs"
    by (intro bit_word_eqI) (auto simp: bit_take_bit_iff bit_be_word)
  then have "unat (be_word bs :: u64) = take_bit 56 (unat (be_word bs :: u64))" by (metis unsigned_take_bit_eq)
  then show ?thesis by (metis take_bit_nat_less_exp)
qed

lemma be_word_snoc_split:
  assumes "length bs \<le> 7"
  shows "drop_bit 8 (be_word (bs @ [b]) :: u64) = be_word bs" "ucast (be_word (bs @ [b]) :: u64) = b"
proof -
  have w: "take_bit 56 (be_word bs :: u64) = be_word bs"
    using be_word_bound [OF assms] by (simp add: word_unat_eq_iff unsigned_take_bit_eq take_bit_nat_eq_self)
  have small: "bit (be_word bs :: u64) k \<Longrightarrow> k < 56" for k
    by (subst (asm) w [symmetric]) (simp add: bit_take_bit_iff)
  show "drop_bit 8 (be_word (bs @ [b]) :: u64) = be_word bs"
    by (rule bit_word_eqI) (auto simp: be_word_snoc bit_or_iff bit_push_bit_iff bit_drop_bit_eq bit_ucast_iff
        dest: small bit_imp_le_length)
  show "ucast (be_word (bs @ [b]) :: u64) = b"
    by (rule bit_word_eqI) (auto simp: be_word_snoc bit_or_iff bit_push_bit_iff bit_ucast_iff)
qed

lemma nonce_bytes_be_word:
  "length bs \<le> 8 \<Longrightarrow> bs = [] \<or> hd bs \<noteq> 0 \<Longrightarrow> nonce_bytes (be_word bs) = bs"
proof (induction bs rule: rev_induct)
  case (snoc b bs)
  let ?w = "be_word (bs @ [b]) :: u64"
  have len: "length bs \<le> 7" using snoc.prems by simp
  have bs: "nonce_bytes (be_word bs) = bs"
    using snoc by (cases bs) auto
  have "0 < ?w"
  proof (rule ccontr)
    assume "\<not> 0 < ?w"
    then have w: "?w = 0" by (simp add: word_gt_0)
    then have "b = 0" and "be_word bs = (0 :: u64)" using be_word_snoc_split [OF len, of b] by simp_all
    then have "bs = []" using bs by simp
    with \<open>b = 0\<close> snoc.prems show False by simp
  qed
  then show ?case using bs by (simp add: nonce_bytes_pos be_word_snoc_split [OF len])
qed simp

lemma rlp_nonce_canonical: "rlp_read_nonce bs = Some n \<Longrightarrow> bs = rlp_nonce n"
proof -
  assume read: "rlp_read_nonce bs = Some n"
  then obtain b rest where bs: "bs = b # rest" by (auto simp: rlp_read_nonce_def split: list.splits)
  consider "unat b < 128" | "b = 0x80" | "128 < unat b"
  proof -
    have "unat b = 128 \<Longrightarrow> b = 0x80" by (rule unsigned_word_eqI) simp
    then show thesis using that by linarith
  qed
  then show ?thesis
  proof cases
    case 1
    then have n: "rest = []" "b \<noteq> 0" "n = ucast b" using read bs by (auto simp: rlp_read_nonce_def split: if_splits)
    note u = unat_ucast_byte [of b]
    have "n \<noteq> 0" using n u by (auto simp: word_unat_eq_iff)
    moreover have "n < 0x80" using 1 n u by (simp add: word_less_nat_alt)
    moreover have "ucast n = b" unfolding n(3) by (rule bit_word_eqI) (auto simp: bit_ucast_iff)
    ultimately show ?thesis using n bs by (simp add: rlp_nonce_def)
  next
    case 2
    then show ?thesis using read bs by (auto simp: rlp_read_nonce_def rlp_nonce_def split: if_splits)
  next
    case 3
    then have "\<not> unat b < 128" "b \<noteq> 0x80" by auto
    then have rest: "length rest = unat b - 128" "length rest \<le> 8" "hd rest \<noteq> 0" "length rest = 1 \<longrightarrow> 128 \<le> unat (hd rest)"
      and n: "n = be_word rest"
      using read bs by (auto simp: rlp_read_nonce_def split: if_splits)
    have bytes: "nonce_bytes n = rest" using nonce_bytes_be_word rest n by blast
    have "rest \<noteq> []" using rest(1) 3 by auto
    have "\<not> n < 0x80"
    proof
      assume less: "n < 0x80"
      then have "unat n < 2 ^ (8 * 1)" by (simp add: word_less_nat_alt)
      then have "length rest = 1" using length_nonce_bytes [of n 1] bytes \<open>rest \<noteq> []\<close> by (cases rest) auto
      then obtain c where c: "rest = [c]" "128 \<le> unat c" using rest(4) by (auto simp: length_Suc_conv)
      then have "unat n = unat c"
        using n by (simp add: be_word_def unat_ucast_byte)
      with less c(2) show False by (simp add: word_less_nat_alt)
    qed
    moreover have "n \<noteq> 0" using bytes \<open>rest \<noteq> []\<close> by auto
    moreover have "0x80 + of_nat (length rest) = b"
      using rest(1) 3 by (simp add: of_nat_diff)
    ultimately show ?thesis using bs bytes by (simp add: rlp_nonce_def)
  qed
qed

lemma length_rlp_nonce: "length (rlp_nonce n) \<le> 9"
  using length_nonce_bytes_8 [of n] by (simp add: rlp_nonce_def)

section \<open>The bytes hashed for CREATE2\<close>

lemma create2_buf_parts:
  assumes "length d = 20" and "length s = 32" and "length (keccak L c) = 32"
  shows "create2_buf L d s c = 0xff # d @ s @ keccak L c"
proof -
  have "copy_at ((replicate 85 0)[0 := 0xff]) 1 d = 0xff # d @ replicate 64 0"
    using assms replicate_Suc [of 84 "0 :: byte"] by (simp add: copy_at_def take_Cons' drop_Cons')
  moreover have "copy_at (0xff # d @ replicate 64 0) 21 s = 0xff # d @ s @ replicate 32 0"
    using assms by (simp add: copy_at_def take_Cons' drop_Cons')
  moreover have "copy_at (0xff # d @ s @ replicate 32 0) 53 (keccak L c) = 0xff # d @ s @ keccak L c"
    using assms by (simp add: copy_at_def take_Cons' drop_Cons')
  ultimately show ?thesis using assms by (simp add: create2_buf_def Let_def keccak256Hash_def)
qed

section \<open>Intrinsic gas\<close>

lemma foldl_data_gas:
  "foldl (\<lambda>g b. if b = 0 then g + 4 else g + 16) (g :: u64) dat
     = g + of_nat (4 * length (filter (\<lambda>b. b = 0) dat) + 16 * length (filter (\<lambda>b. b \<noteq> 0) dat))"
  by (induction dat arbitrary: g) (simp_all add: algebra_simps)

lemma foldl_list_gas:
  "foldl (\<lambda>g entry. g + 2400 + of_nat (length (ale_Slots entry)) * 1900) (g :: u64) es
     = g + of_nat (2400 * length es + 1900 * sum_list (map (\<lambda>entry. length (ale_Slots entry)) es))"
  by (induction es arbitrary: g) (simp_all add: algebra_simps)

section \<open>Properties\<close>

text \<open>
  C29: the bytes hashed for a CREATE address are the canonical RLP encoding of the creator and its nonce, at
  most 31 bytes: they are the only bytes that a decoder of canonical RLP reads as this creator and this
  nonce.
\<close>

theorem create_preimage_reads_back:
  assumes "length d = 20"
  shows "(rlp_read bs = Some (d, n) \<longleftrightarrow> bs = rlp_create d n) \<and> length (rlp_create d n) \<le> 31"
proof -
  let ?m = "rlp_nonce n"
  have m: "length ?m \<le> 9" by (rule length_rlp_nonce)
  then have h: "unat (0xc0 + of_nat (21 + length ?m) :: byte) = 0xc0 + (21 + length ?m)"
    by (simp add: unat_word_ariths unat_of_nat)
  have "rlp_read (rlp_create d n) = Some (d, n)"
    using assms m h by (simp add: rlp_create_def rlp_read_def rlp_read_nonce_rlp_nonce Let_def)
  moreover have "bs = rlp_create d n" if read: "rlp_read bs = Some (d, n)"
  proof -
    from read obtain x rest where bs: "bs = x # 0x94 # rest" and x: "unat x = 0xc0 + length (0x94 # rest)"
      and rest: "20 \<le> length rest" "d = take 20 rest" "rlp_read_nonce (drop 20 rest) = Some n"
      by (auto simp: rlp_read_def split: list.splits if_splits)
    from rlp_nonce_canonical [OF rest(3)] rest(2) have r: "rest = d @ ?m" by (metis append_take_drop_id)
    with x h assms have "unat x = unat (0xc0 + of_nat (21 + length ?m) :: byte)" by simp
    then have "x = 0xc0 + of_nat (21 + length ?m)" by (rule unsigned_word_eqI)
    with bs r assms show ?thesis by (simp add: rlp_create_def Let_def)
  qed
  ultimately show ?thesis using assms m by (auto simp: rlp_create_def Let_def)
qed

theorem create_preimage_reads_back_witness:
  "rlp_read (rlp_create (replicate 20 5) 300) = Some (replicate 20 5, 300)"
  using create_preimage_reads_back [of "replicate 20 5" "rlp_create (replicate 20 5) 300" 300] by simp

text \<open>
  C30: the 85 bytes hashed for a CREATE2 address are the byte \<open>0xff\<close>, the creator, the salt and the hash of
  the init code.  So they determine these three, and are never the bytes hashed for a CREATE address.
\<close>

theorem create2_preimage_determines_its_parts:
  assumes "keccak_pkg L" and "length d = 20" and "length s = 32"
    and "length d' = 20" and "length s' = 32"
  shows "create2_buf L d s c = 0xff # d @ s @ keccak256Hash L c
    \<and> (create2_buf L d s c = create2_buf L d' s' c' \<longleftrightarrow>
         d = d' \<and> s = s' \<and> keccak256Hash L c = keccak256Hash L c')
    \<and> create2_buf L d s c \<noteq> rlp_create d' n"
proof -
  have parts: "create2_buf L a b e = 0xff # a @ b @ keccak L e" if "length a = 20" "length b = 32" for a b e
    using that by (rule create2_buf_parts) (rule keccak_pkg.length_keccak [OF assms(1)])
  have "length (create2_buf L d s c) = 85"
    using assms by (simp add: parts keccak_pkg.length_keccak)
  moreover have "length (rlp_create d' n) \<le> 31"
    using length_rlp_nonce [of n] assms by (simp add: rlp_create_def Let_def)
  ultimately have "create2_buf L d s c \<noteq> rlp_create d' n" by auto
  with assms show ?thesis by (auto simp: parts keccak256Hash_def)
qed

theorem create2_preimage_determines_its_parts_witness:
  "create2_buf std_lib (replicate 20 1) (replicate 32 2) [] \<noteq> create2_buf std_lib (replicate 20 1) (replicate 32 3) []"
proof -
  have "replicate 32 (2 :: byte) \<noteq> replicate 32 3" by simp
  with create2_preimage_determines_its_parts [OF std_keccak.keccak_pkg_axioms, of "replicate 20 1" "replicate 32 2"
      "replicate 20 1" "replicate 32 3" "[]" "[]" 0]
  show ?thesis by (metis length_replicate)
qed

text \<open>
  The intrinsic gas is the sum of 21000, 32000 for a create, 4 or 16 for each zero or non-zero byte of
  data, and 2400 and 1900 for each address and slot of the access list, modulo \<open>2 ^ 64\<close>.
\<close>

theorem intrinsicGas_sum:
  "unat (intrinsicGas dat isCreate al)
     = (21000 + (if isCreate then 32000 else 0)
        + 4 * length (filter (\<lambda>b. b = 0) dat) + 16 * length (filter (\<lambda>b. b \<noteq> 0) dat)
        + 2400 * length al + 1900 * sum_list (map (\<lambda>entry. length (ale_Slots entry)) al)) mod 2 ^ 64"
proof -
  let ?n = "21000 + (if isCreate then 32000 else 0)
        + 4 * length (filter (\<lambda>b. b = 0) dat) + 16 * length (filter (\<lambda>b. b \<noteq> 0) dat)
        + 2400 * length al + 1900 * sum_list (map (\<lambda>entry. length (ale_Slots entry)) al)"
  have "intrinsicGas dat isCreate al = of_nat ?n"
    unfolding intrinsicGas_def Let_def foldl_data_gas foldl_list_gas by simp
  moreover have "unat (of_nat ?n :: u64) = ?n mod 2 ^ 64" by (simp only: unat_of_nat) simp
  ultimately show ?thesis by (simp only:)
qed

end
