(* ===== verification/Trace.thy ===== *)
theory Trace
  imports Tracer
begin

text \<open>
  The call tracer against what it records: for any tree of nested calls, the calls of \<open>OnEnter\<close> and
  \<open>OnExit\<close> in the order of their execution build that tree in the node list, whose rendering ends.
\<close>

section \<open>Nested calls\<close>

text \<open>A call with what it was entered and left with, and the calls made inside it.\<close>

datatype call =
  Call (c_type: CallType) (c_from: Address) (c_to: Address) (c_input: bytes) (c_gas: u64)
    (c_value: "word256 option") (c_output: bytes) (c_used: u64) (c_err: "error option") (c_calls: "call list")

fun record_call :: "call \<Rightarrow> CallTracer \<Rightarrow> CallTracer" where
  "record_call (Call ct from to inp g v out used err subs) t =
     OnExit (fold record_call subs (OnEnter t ct from to inp g v)) out used err"

text \<open>The node \<open>i\<close> and what it points to is the call; its children come after it and point back to it.\<close>

fun represents :: "Node list \<Rightarrow> nat \<Rightarrow> call \<Rightarrow> bool" where
  "represents ns i (Call ct from to inp g v out used err subs) \<longleftrightarrow>
     i < length ns
     \<and> (\<exists>cs p. ns ! i = \<lparr>n_CallType = ct, n_From = from, n_To = to, n_Gas = g, n_GasUsed = used,
          n_Value = (case v of None \<Rightarrow> 0 | Some w \<Rightarrow> w), n_Input = inp, n_Output = out, n_Err = err,
          n_Children = cs, n_parent = p\<rparr>
        \<and> list_all2 (represents ns) cs subs \<and> (\<forall>j \<in> set cs. i < j \<and> n_parent (ns ! j) = Some i))"

lemma represents_less: "represents ns i c \<Longrightarrow> i < length ns"
  by (cases c) simp

lemma represents_stable:
  assumes "represents ns i c" and "\<And>k. i \<le> k \<Longrightarrow> k < length ns \<Longrightarrow> ns' ! k = ns ! k" and "length ns \<le> length ns'"
  shows "represents ns' i c"
  using assms
proof (induction c arbitrary: i)
  case (Call ct "from" to inp g v out used err subs)
  then obtain cs p where n: "ns ! i = \<lparr>n_CallType = ct, n_From = from, n_To = to, n_Gas = g, n_GasUsed = used,
          n_Value = (case v of None \<Rightarrow> 0 | Some w \<Rightarrow> w), n_Input = inp, n_Output = out, n_Err = err,
          n_Children = cs, n_parent = p\<rparr>"
    and cs: "list_all2 (represents ns) cs subs" "\<forall>j \<in> set cs. i < j \<and> n_parent (ns ! j) = Some i" and i: "i < length ns"
    by auto
  have "represents ns' j c" if "j \<in> set cs" "c \<in> set subs" "represents ns j c" for j c
    using Call.IH [OF that(2,3)] Call.prems(2,3) cs(2) that(1) by fastforce
  with cs(1) have "list_all2 (represents ns') cs subs" by (auto elim!: list.rel_mono_strong)
  moreover have "n_parent (ns' ! j) = Some i" if "j \<in> set cs" for j
  proof -
    from that cs(1) have "j < length ns" by (auto simp: list_all2_conv_all_nth in_set_conv_nth intro: represents_less)
    moreover have "i < j" "n_parent (ns ! j) = Some i" using cs(2) that by blast+
    ultimately show ?thesis using Call.prems(2) [of j] by simp
  qed
  ultimately show ?case using n cs(2) i Call.prems(2) [of i] Call.prems(3) by simp
qed

section \<open>Recording\<close>

text \<open>What recording calls under the node \<open>at\<close> (none at the root) does to the tracer.\<close>

definition add_children :: "nat list \<Rightarrow> Node \<Rightarrow> Node" where
  "add_children ps n = n\<lparr>n_Children := n_Children n @ ps\<rparr>"

definition ready :: "CallTracer \<Rightarrow> bool" where
  "ready t \<longleftrightarrow> enabled t \<and> (\<forall>c. cur_node t = Some c \<longrightarrow> c < length (nodes t))"

definition recorded :: "CallTracer \<Rightarrow> CallTracer \<Rightarrow> nat list \<Rightarrow> call list \<Rightarrow> bool" where
  "recorded t t' ps cs \<longleftrightarrow>
     enabled t' \<and> cur_node t' = cur_node t \<and> (cur_node t \<noteq> None \<longrightarrow> Root t' = Root t) \<and> length (nodes t) \<le> length (nodes t')
     \<and> (\<forall>i < length (nodes t). nodes t' ! i =
          (if cur_node t = Some i then add_children ps (nodes t ! i) else nodes t ! i))
     \<and> list_all2 (represents (nodes t')) ps cs
     \<and> (\<forall>p \<in> set ps. length (nodes t) \<le> p \<and> n_parent (nodes t' ! p) = cur_node t)"

lemma recorded_Nil: "ready t \<Longrightarrow> recorded t t [] []"
  by (simp add: recorded_def ready_def add_children_def)

lemma recorded_ready: "ready t \<Longrightarrow> recorded t t' ps cs \<Longrightarrow> ready t'"
  by (force simp: recorded_def ready_def)

lemma recorded_append:
  assumes "ready t" and "recorded t t1 ps cs" and "recorded t1 t2 qs ds"
  shows "recorded t t2 (ps @ qs) (cs @ ds)"
proof -
  let ?n = "length (nodes t)" and ?n1 = "length (nodes t1)"
  from assms have cur: "cur_node t1 = cur_node t" "?n \<le> ?n1" "?n1 \<le> length (nodes t2)"
    by (simp_all add: recorded_def)
  have keep: "nodes t2 ! k = nodes t1 ! k" if "?n \<le> k" "k < ?n1" for k
    using assms that by (auto simp: recorded_def ready_def)
  have ps: "?n \<le> p \<and> p < ?n1 \<and> n_parent (nodes t1 ! p) = cur_node t" if "p \<in> set ps" for p
    using assms(2) that
    by (auto simp: recorded_def list_all2_conv_all_nth in_set_conv_nth intro: represents_less)
  have "represents (nodes t2) p c" if "p \<in> set ps" "represents (nodes t1) p c" for p c
    using that(2) by (rule represents_stable) (use ps [OF that(1)] keep cur in auto)
  then have "list_all2 (represents (nodes t2)) ps cs"
    using assms(2) by (auto simp: recorded_def elim!: list.rel_mono_strong)
  moreover have "list_all2 (represents (nodes t2)) qs ds" using assms(3) by (simp add: recorded_def)
  ultimately have "list_all2 (represents (nodes t2)) (ps @ qs) (cs @ ds)" by (rule list_all2_appendI)
  moreover have "?n \<le> p \<and> n_parent (nodes t2 ! p) = cur_node t" if "p \<in> set (ps @ qs)" for p
  proof (cases "p \<in> set ps")
    case True
    with ps [OF this] keep [of p] show ?thesis by simp
  next
    case False
    with that assms(3) cur have "?n1 \<le> p \<and> n_parent (nodes t2 ! p) = cur_node t1" by (simp add: recorded_def)
    with cur show ?thesis by simp
  qed
  moreover have "nodes t2 ! i = (if cur_node t = Some i then add_children (ps @ qs) (nodes t ! i) else nodes t ! i)"
    if "i < ?n" for i
    using assms(2,3) that cur by (auto simp: recorded_def add_children_def)
  ultimately show ?thesis
    using assms(2,3) cur unfolding recorded_def by simp
qed

lemma recorded_fold:
  assumes "\<And>c t. c \<in> set cs \<Longrightarrow> ready t \<Longrightarrow> \<exists>p. recorded t (record_call c t) [p] [c]" and "ready t"
  shows "\<exists>ps. recorded t (fold record_call cs t) ps cs"
  using assms
proof (induction cs arbitrary: t)
  case Nil
  then show ?case by (auto intro: recorded_Nil)
next
  case (Cons c cs)
  obtain p where p: "recorded t (record_call c t) [p] [c]"
    using Cons.prems(1) [of c t] Cons.prems(2) by auto
  obtain ps where "recorded (record_call c t) (fold record_call cs (record_call c t)) ps cs"
    using Cons.IH [OF _ recorded_ready [OF Cons.prems(2) p]] Cons.prems(1) by auto
  from recorded_append [OF Cons.prems(2) p this] show ?case by auto
qed

lemma record_call_recorded: "ready t \<Longrightarrow> recorded t (record_call c t) [length (nodes t)] [c]"
proof (induction c arbitrary: t)
  case (Call ct "from" to inp g v out used err subs)
  let ?p = "length (nodes t)" and ?t1 = "OnEnter t ct from to inp g v"
  let ?n = "\<lparr>n_CallType = ct, n_From = from, n_To = to, n_Gas = g, n_GasUsed = 0,
       n_Value = (case v of None \<Rightarrow> 0 | Some w \<Rightarrow> w), n_Input = inp, n_Output = [], n_Err = None,
       n_Children = [], n_parent = cur_node t\<rparr>"
  have t1: "enabled ?t1" "cur_node ?t1 = Some ?p" "length (nodes ?t1) = Suc ?p" "nodes ?t1 ! ?p = ?n"
    "i < ?p \<Longrightarrow> nodes ?t1 ! i = (if cur_node t = Some i then add_children [?p] (nodes t ! i) else nodes t ! i)" for i
    using Call.prems by (auto simp: OnEnter_def Let_def ready_def add_children_def nth_append nth_list_update
        split: option.splits)
  then have "ready ?t1" by (simp add: ready_def)
  then obtain ps where r: "recorded ?t1 (fold record_call subs ?t1) ps subs"
    using recorded_fold [of subs ?t1] Call.IH by blast
  let ?t2 = "fold record_call subs ?t1"
  let ?node = "?n\<lparr>n_Children := ps, n_Output := out, n_GasUsed := used, n_Err := err\<rparr>"
  have t2: "enabled ?t2" "cur_node ?t2 = Some ?p" "Suc ?p \<le> length (nodes ?t2)"
    "nodes ?t2 ! ?p = ?n\<lparr>n_Children := ps\<rparr>" "i < ?p \<Longrightarrow> nodes ?t2 ! i = nodes ?t1 ! i" for i
    using r t1 by (simp_all add: recorded_def add_children_def)
  have root: "cur_node t \<noteq> None \<longrightarrow> Root ?t2 = Root t"
    using r t1(2) Call.prems by (auto simp: recorded_def OnEnter_def Let_def ready_def)
  from t2 have t3: "record_call (Call ct from to inp g v out used err subs) t
      = ?t2\<lparr>nodes := (nodes ?t2)[?p := ?node], cur_node := cur_node t\<rparr>"
    by (simp add: OnExit_def)
  have "represents ((nodes ?t2)[?p := ?node]) j c" if "j \<in> set ps" "represents (nodes ?t2) j c" for j c
    using that(2) by (rule represents_stable) (use r t1(3) that(1) in \<open>auto simp: recorded_def\<close>)
  then have "list_all2 (represents ((nodes ?t2)[?p := ?node])) ps subs"
    using r by (auto simp: recorded_def elim!: list.rel_mono_strong)
  moreover have "?p < j \<and> n_parent ((nodes ?t2)[?p := ?node] ! j) = Some ?p" if "j \<in> set ps" for j
    using r t1 that by (auto simp: recorded_def)
  ultimately have "represents ((nodes ?t2)[?p := ?node]) ?p (Call ct from to inp g v out used err subs)"
    using t2(3) by simp
  then show ?case
    unfolding t3 recorded_def using t1 t2 root by (simp add: recorded_def)
qed

lemma record_call_root:
  assumes "enabled t" and "cur_node t = None"
  shows "Root (record_call c t) = Some (length (nodes t))"
proof (cases c)
  case (Call ct "from" to inp g v out used err subs)
  let ?t1 = "OnEnter t ct from to inp g v"
  have t1: "ready ?t1" "cur_node ?t1 = Some (length (nodes t))" "Root ?t1 = Some (length (nodes t))"
    using assms by (simp_all add: ready_def OnEnter_def Let_def)
  from recorded_fold [OF _ t1(1)] record_call_recorded
  obtain ps where "recorded ?t1 (fold record_call subs ?t1) ps subs" by blast
  with t1 show ?thesis by (simp add: Call recorded_def OnExit_def)
qed

section \<open>Rendering\<close>

lemma render_children_ends:
  assumes "\<And>c pre isLast. c \<in> set cs \<Longrightarrow> renderNode f ns c pre isLast \<noteq> None"
  shows "render_children f ns cs pre \<noteq> None"
  using assms
proof (induction cs)
  case (Cons c cs)
  then have "renderNode f ns c pre (cs = []) \<noteq> None" "render_children f ns cs pre \<noteq> None" by simp_all
  then show ?case by auto
qed simp

lemma renderNode_ends:
  "represents ns i c \<Longrightarrow> length ns \<le> fuel + i \<Longrightarrow> renderNode fuel ns i pre isLast \<noteq> None"
proof (induction c arbitrary: fuel i pre isLast)
  case (Call ct "from" to inp g v out used err subs)
  from Call.prems(1) have kids: "list_all2 (represents ns) (n_Children (ns ! i)) subs"
    "\<forall>j \<in> set (n_Children (ns ! i)). i < j" and i: "i < length ns"
    by auto
  from i Call.prems(2) obtain f where f: "fuel = Suc f" by (cases fuel) auto
  have "renderNode f ns j pre isLast \<noteq> None" if j: "j \<in> set (n_Children (ns ! i))" for j pre isLast
  proof -
    from kids(1) j obtain c where "c \<in> set subs" "represents ns j c"
      by (metis list_all2_conv_all_nth in_set_conv_nth)
    moreover have "length ns \<le> f + j" using kids(2) j Call.prems(2) f by fastforce
    ultimately show ?thesis by (rule Call.IH)
  qed
  then have "render_children f ns (n_Children (ns ! i)) pre \<noteq> None" for pre
    by (rule render_children_ends)
  from this [of "pre @ ''    ''"] this [of "pre @ utf8_bar"] show ?case
    by (auto simp: f Let_def)
qed

section \<open>Properties\<close>

text \<open>
  C18: the tracer records the tree of calls.  For every tree of nested calls, entering and leaving them in
  the order of execution leaves the tracer with no running call and with a root whose nodes are exactly
  that tree, parent pointers included; so its rendering, which follows the pointers, ends.
\<close>

theorem tracer_records_the_call_tree:
  "Root (record_call c new_CallTracer) = Some 0 \<and> cur_node (record_call c new_CallTracer) = None
     \<and> represents (nodes (record_call c new_CallTracer)) 0 c \<and> String_of (record_call c new_CallTracer) \<noteq> None"
proof -
  let ?t = "record_call c new_CallTracer"
  have r: "recorded new_CallTracer ?t [length (nodes new_CallTracer)] [c]"
    by (rule record_call_recorded) (simp add: ready_def new_CallTracer_def)
  have root: "Root ?t = Some (length (nodes new_CallTracer))"
    by (rule record_call_root) (simp_all add: new_CallTracer_def)
  from r have rep: "represents (nodes ?t) 0 c" by (simp add: recorded_def new_CallTracer_def)
  from renderNode_ends [OF this] have "renderNode (length (nodes ?t)) (nodes ?t) 0 [] True \<noteq> None" by simp
  with r root rep show ?thesis by (simp add: recorded_def String_of_def new_CallTracer_def)
qed

end
