(* ===== verification/World.thy ===== *)
theory World
  imports Calls
begin

text \<open>
  What the state database promises: it is a map of accounts and a map of slots.  \<open>world_of\<close> abstracts from
  the journal, the deletion of zero slots and the difference between missing and empty entries.  The second
  part is the well-formedness of the database itself: no slot holds an explicit zero, and the journal
  lengths of the snapshots grow and lie within the journal.
\<close>

section \<open>The abstract world\<close>

record World =
  w_live :: "Address set"
  w_dead :: "Address set"
  w_balance :: "Address \<Rightarrow> word256"
  w_nonce :: "Address \<Rightarrow> u64"
  w_code :: "Address \<Rightarrow> bytes \<times> Hash"
  w_slot :: "Address \<Rightarrow> Hash \<Rightarrow> Hash"

definition world_of :: "StateDB \<Rightarrow> World" where
  "world_of s = \<lparr>w_live = {a. Exists s a}, w_dead = {a. HasSuicided s a}, w_balance = GetBalance s,
     w_nonce = GetNonce s, w_code = (\<lambda>a. (GetCode s a, GetCodeHash s a)), w_slot = GetStorage s\<rparr>"

text \<open>The operations of the specification: plain function updates.\<close>

definition w_touch :: "Address \<Rightarrow> World \<Rightarrow> World" where
  "w_touch a w = w\<lparr>w_live := insert a (w_live w)\<rparr>"

definition w_set_balance :: "Address \<Rightarrow> word256 \<Rightarrow> World \<Rightarrow> World" where
  "w_set_balance a v w = w_touch a (w\<lparr>w_balance := (w_balance w)(a := v)\<rparr>)"

definition w_set_nonce :: "Address \<Rightarrow> u64 \<Rightarrow> World \<Rightarrow> World" where
  "w_set_nonce a n w = w_touch a (w\<lparr>w_nonce := (w_nonce w)(a := n)\<rparr>)"

definition w_set_code :: "Address \<Rightarrow> bytes \<Rightarrow> Hash \<Rightarrow> World \<Rightarrow> World" where
  "w_set_code a c h w = w_touch a (w\<lparr>w_code := (w_code w)(a := (c, h))\<rparr>)"

text \<open>Writing a slot does not touch the account.\<close>

definition w_set_slot :: "Address \<Rightarrow> Hash \<Rightarrow> Hash \<Rightarrow> World \<Rightarrow> World" where
  "w_set_slot a k v w = w\<lparr>w_slot := (w_slot w)(a := (w_slot w a)(k := v))\<rparr>"

text \<open>A whole account put in place.\<close>

definition w_put :: "Address \<Rightarrow> Account \<Rightarrow> World \<Rightarrow> World" where
  "w_put a acc w = w_touch a (w\<lparr>w_dead := (if acc_Suicide acc then insert a (w_dead w) else w_dead w - {a}),
     w_balance := (w_balance w)(a := acc_Balance acc), w_nonce := (w_nonce w)(a := acc_Nonce acc),
     w_code := (w_code w)(a := (acc_Code acc, acc_CodeHash acc))\<rparr>)"

definition w_kill :: "Address \<Rightarrow> World \<Rightarrow> World" where
  "w_kill a w = w_touch a (w\<lparr>w_dead := insert a (w_dead w)\<rparr>)"

text \<open>A new contract keeps the balance of its address; its slots are left alone.\<close>

definition w_create :: "Address \<Rightarrow> World \<Rightarrow> World" where
  "w_create a w = w_touch a (w\<lparr>w_dead := w_dead w - {a}, w_nonce := (w_nonce w)(a := 0),
     w_code := (w_code w)(a := ([], ZeroHash))\<rparr>)"

text \<open>The end of a transaction removes the accounts that destructed themselves.\<close>

definition cleared :: "Address set \<Rightarrow> 'a \<Rightarrow> (Address \<Rightarrow> 'a) \<Rightarrow> Address \<Rightarrow> 'a" where
  "cleared A x f a = (if a \<in> A then x else f a)"

definition w_bury :: "World \<Rightarrow> World" where
  "w_bury w = w\<lparr>w_live := w_live w - w_dead w, w_dead := {}, w_balance := cleared (w_dead w) 0 (w_balance w),
     w_nonce := cleared (w_dead w) 0 (w_nonce w), w_code := cleared (w_dead w) ([], ZeroHash) (w_code w),
     w_slot := cleared (w_dead w) (\<lambda>_. ZeroHash) (w_slot w)\<rparr>"

lemmas world_defs = world_of_def w_touch_def w_set_balance_def w_set_nonce_def w_set_code_def
  w_set_slot_def w_put_def w_kill_def w_create_def w_bury_def cleared_def

lemmas getter_defs = Exists_def HasSuicided_def GetBalance_def GetNonce_def GetCode_def GetCodeHash_def

lemma world_of_mutators:
  "world_of (SetBalance s a v) = w_set_balance a v (world_of s)"
  "world_of (AddBalance L s a v) = w_set_balance a (u_add L (GetBalance s a) v) (world_of s)"
  "world_of (SubBalance L s a v) = w_set_balance a (u_sub L (GetBalance s a) v) (world_of s)"
  "world_of (SetNonce s a n) = w_set_nonce a n (world_of s)"
  "world_of (SetCode s a c h) = w_set_code a c h (world_of s)"
  "world_of (Suicide s a) = w_kill a (world_of s)"
  by (rule getOrCreate_cases [of s a];
      auto simp: world_defs getter_defs mutator_defs new_Account_def fun_eq_iff GetStorage_def)+

lemma world_of_CreateAccount: "world_of (CreateAccount s a) = w_create a (world_of s)"
  by (auto simp: world_defs getter_defs CreateAccount_def Let_def put_account_def add_journal_def new_Account_def
      GetStorage_def fun_eq_iff split: option.splits)

lemma getters_cong:
  assumes "accounts s = accounts t"
  shows "Exists s = Exists t" "HasSuicided s = HasSuicided t" "GetBalance s = GetBalance t" "GetNonce s = GetNonce t"
    "GetCode s = GetCode t" "GetCodeHash s = GetCodeHash t"
  using assms by (simp_all add: fun_eq_iff getter_defs)

lemma world_of_SetStorage: "world_of (SetStorage s a k v) = w_set_slot a k v (world_of s)"
proof -
  obtain st s1 where st: "storageOf s a = (st, s1)" by fastforce
  note s1 = storageOf_simps [OF st]
  let ?s3 = "add_journal (remember_orig s1 a k (slot_of st k)) (jStorage a k (slot_of st k))"
  have "SetStorage s a k v = write_slot ?s3 a k v" using st by (simp add: SetStorage_def Let_def)
  moreover have "GetStorage ?s3 = GetStorage s"
    using s1(4) by (subst s1(4) [symmetric], intro GetStorage_cong) (simp add: add_journal_def)
  moreover have "accounts (write_slot ?s3 a k v) = accounts s" using s1 by (simp add: add_journal_def)
  ultimately show ?thesis
    using getters_cong [of "write_slot ?s3 a k v" s] by (simp add: world_defs GetStorage_write_slot)
qed

lemma world_of_SetStorageDirect: "world_of (SetStorageDirect s a k v) = w_set_slot a k v (world_of s)"
proof -
  obtain st s1 where st: "storageOf s a = (st, s1)" by fastforce
  note s1 = storageOf_simps [OF st]
  let ?s' = "SetStorageDirect s a k v"
  have s': "?s' = (remember_orig s1 a k v)\<lparr>storage := (storage s1)(a \<mapsto> st(k \<mapsto> v))\<rparr>"
    using st by (simp add: SetStorageDirect_def Let_def)
  then have "GetStorage ?s' b j = ((GetStorage s)(a := (GetStorage s a)(k := v))) b j" for b j
    using s1(4,5) by (auto simp: GetStorage_def slot_of_def fun_eq_iff)
  moreover have "accounts ?s' = accounts s" using s' s1 by simp
  ultimately show ?thesis using getters_cong [of ?s' s] by (simp add: world_defs fun_eq_iff)
qed

lemma world_of_SetAccount: "world_of (SetAccount s a acc) = w_put a acc (world_of s)"
  by (rule getOrCreate_cases [of s a];
      auto simp: world_defs getter_defs SetAccount_def put_account_def fun_eq_iff GetStorage_def)

lemma world_of_Finalise: "world_of (Finalise s) = w_bury (world_of s)"
  by (auto simp: world_defs getter_defs Finalise_def GetStorage_def fun_eq_iff split: option.splits)

lemma world_of_logs_none: "logs_none s s' \<Longrightarrow> world_of s' = world_of s"
  using getters_cong [of s' s] GetStorage_cong [of s' s] by (simp add: logs_none_def world_of_def)

section \<open>Well-formed databases\<close>

definition no_zero_slots :: "StateDB \<Rightarrow> bool" where
  "no_zero_slots s \<longleftrightarrow> (\<forall>a st. storage s a = Some st \<longrightarrow> ZeroHash \<notin> ran st)"

definition snapshots_ok :: "StateDB \<Rightarrow> bool" where
  "snapshots_ok s \<longleftrightarrow> sorted (snapshots s) \<and> (\<forall>n \<in> set (snapshots s). n \<le> length (journal s))"

lemma no_zero_write_slot: "no_zero_slots s \<Longrightarrow> no_zero_slots (write_slot s a k v)"
  by (auto simp: no_zero_slots_def write_slot_def storageOf_def ran_def split: option.splits if_splits)

lemma no_zero_cong: "storage s' = storage s \<Longrightarrow> no_zero_slots s' = no_zero_slots s"
  by (simp add: no_zero_slots_def)

lemma storage_mutators:
  "storage (SetBalance s a v) = storage s" "storage (AddBalance L s a v) = storage s"
  "storage (SubBalance L s a v) = storage s" "storage (SetNonce s a n) = storage s"
  "storage (SetCode s a c h) = storage s" "storage (Suicide s a) = storage s"
  "storage (CreateAccount s a) = storage s"
  by (simp_all add: mutator_defs CreateAccount_def Let_def case_prod_beta getOrCreate_def split: option.splits)

lemma no_zero_SetStorage:
  assumes "no_zero_slots s"
  shows "no_zero_slots (SetStorage s a k v)"
proof -
  obtain st s1 where st: "storageOf s a = (st, s1)" by fastforce
  then have "no_zero_slots s1" using assms by (auto simp: storageOf_def no_zero_slots_def split: option.splits if_splits)
  then have "no_zero_slots (add_journal (remember_orig s1 a k (slot_of st k)) (jStorage a k (slot_of st k)))"
    by (simp add: add_journal_def no_zero_slots_def)
  from no_zero_write_slot [OF this] show ?thesis using st by (simp add: SetStorage_def Let_def)
qed

lemma no_zero_undo: "no_zero_slots s \<Longrightarrow> no_zero_slots (fold undo es s)"
proof (induction es arbitrary: s)
  case (Cons e es)
  then have "no_zero_slots (undo e s)" by (cases e) (auto simp: no_zero_write_slot cong: no_zero_cong)
  with Cons show ?case by simp
qed simp

lemma snapshots_ok_logs_one: "snapshots_ok s \<Longrightarrow> logs_one C s s' \<Longrightarrow> snapshots_ok s'"
  by (auto simp: snapshots_ok_def logs_one_def)

lemma snapshots_ok_logs_none: "snapshots_ok s \<Longrightarrow> logs_none s s' \<Longrightarrow> snapshots_ok s'"
  by (simp add: snapshots_ok_def logs_none_def)

lemma snapshots_ok_Snapshot: "snapshots_ok s \<Longrightarrow> snapshots_ok (snd (Snapshot s))"
  by (auto simp: snapshots_ok_def Snapshot_def sorted_append)

lemma snapshots_ok_Revert: "snapshots_ok s \<Longrightarrow> snapshots_ok (RevertToSnapshot s i)"
proof (cases "length (snapshots s) \<le> i")
  case False
  assume s: "snapshots_ok s"
  have "n \<le> snapshots s ! i" if "n \<in> set (take i (snapshots s))" for n
  proof -
    from that obtain j where "j < i" "n = snapshots s ! j" by (auto simp: in_set_conv_nth)
    with False s show ?thesis using sorted_nth_mono [of "snapshots s" j i] by (simp add: snapshots_ok_def)
  qed
  then show ?thesis
    using s False by (auto simp: snapshots_ok_def RevertToSnapshot_def Let_def sorted_wrt_take dest: in_set_takeD)
qed (simp add: RevertToSnapshot_def)

definition db_wf :: "StateDB \<Rightarrow> bool" where
  "db_wf s \<longleftrightarrow> no_zero_slots s \<and> snapshots_ok s"

lemma db_wf_step:
  assumes "db_step L C b s s'" and "db_wf s"
  shows "db_wf s'"
proof -
  have "no_zero_slots s'"
    using assms by (cases rule: db_step.cases)
      (auto simp: db_wf_def storage_mutators no_zero_SetStorage no_zero_undo RevertToSnapshot_def Let_def
        GetCommittedStorage_def origStorageOf_def WarmAddress_def WarmSlot_def AddLog_def AddRefund_def SubRefund_def
        Snapshot_def cong: no_zero_cong split: option.splits)
  moreover have "snapshots_ok s'"
  proof -
    have "snapshots_ok (CreateAccount s a)" for a
      by (rule snapshots_ok_logs_one [OF _ logs_one_CreateAccount [of s a "{a}"]]) (use assms in \<open>simp_all add: db_wf_def\<close>)
    note created = this
    have "snapshots_ok s" using assms(2) by (simp add: db_wf_def)
    with assms(1) show ?thesis
      by (cases rule: db_step.cases)
        (auto intro: created snapshots_ok_Snapshot snapshots_ok_Revert snapshots_ok_logs_none [OF _ logs_none_others(1)]
          snapshots_ok_logs_none [OF _ logs_none_others(2)] snapshots_ok_logs_none [OF _ logs_none_others(3)]
          snapshots_ok_logs_none [OF _ logs_none_others(4)] snapshots_ok_logs_none [OF _ logs_none_others(5)]
          snapshots_ok_logs_none [OF _ logs_none_others(6)] snapshots_ok_logs_one [OF _ logs_one_SetStorage]
          snapshots_ok_logs_one [OF _ logs_one_mutators(1)] snapshots_ok_logs_one [OF _ logs_one_mutators(2)]
          snapshots_ok_logs_one [OF _ logs_one_mutators(3)] snapshots_ok_logs_one [OF _ logs_one_mutators(4)]
          snapshots_ok_logs_one [OF _ logs_one_mutators(5)] snapshots_ok_logs_one [OF _ logs_one_mutators(6)])
  qed
  ultimately show ?thesis by (simp add: db_wf_def)
qed

lemma db_wf_reach: "db_reach L C b s s' \<Longrightarrow> db_wf s \<Longrightarrow> db_wf s'"
  by (induction rule: db_reach.induct) (auto intro: db_wf_step)

lemma db_reach_snapshots:
  assumes "db_reach L C b s s'" and "b < length (snapshots s)"
  shows "b < length (snapshots s') \<and> take (Suc b) (snapshots s') = take (Suc b) (snapshots s)"
  using assms
proof (induction rule: db_reach.induct)
  case (reach_step s t v)
  then have t: "b < length (snapshots t)" "take (Suc b) (snapshots t) = take (Suc b) (snapshots s)" by simp_all
  from reach_step(2) have "snapshots v = snapshots t \<or> snapshots v = snapshots t @ [length (journal t)]
      \<or> (\<exists>i > b. snapshots v = take i (snapshots t))"
    by cases (auto simp: Snapshot_def RevertToSnapshot_def SubRefund_def Let_def)
  then show ?case using t by (auto simp: min_def)
qed simp

section \<open>Properties\<close>

text \<open>
  C4: the state database implements a world of accounts and slots.  Each writing method is, through the
  getters, one update of that world.  The methods that set balance, nonce, code or the suicide flag and
  \<open>SetAccount\<close> change what they name and nothing else, and bring the account to life; \<open>SetStorage\<close> and
  \<open>SetStorageDirect\<close> change one slot and do not bring an account to life; creating an account keeps its
  balance and its slots; \<open>Finalise\<close> removes exactly the accounts that destructed themselves; a snapshot
  changes nothing.
\<close>

theorem StateDB_refines_world:
  assumes "uint256_pkg L"
  shows "world_of (SetBalance s a v) = w_set_balance a v (world_of s)
    \<and> world_of (AddBalance L s a v) = w_set_balance a (w_balance (world_of s) a + v) (world_of s)
    \<and> world_of (SubBalance L s a v) = w_set_balance a (w_balance (world_of s) a - v) (world_of s)
    \<and> world_of (SetNonce s a n) = w_set_nonce a n (world_of s)
    \<and> world_of (SetCode s a c h) = w_set_code a c h (world_of s)
    \<and> world_of (SetStorage s a k x) = w_set_slot a k x (world_of s)
    \<and> world_of (SetStorageDirect s a k x) = w_set_slot a k x (world_of s)
    \<and> world_of (SetAccount s a acc) = w_put a acc (world_of s)
    \<and> world_of (CreateAccount s a) = w_create a (world_of s)
    \<and> world_of (Suicide s a) = w_kill a (world_of s)
    \<and> world_of (Finalise s) = w_bury (world_of s)
    \<and> world_of (snd (Snapshot s)) = world_of s"
proof -
  have "w_balance (world_of s) a = GetBalance s a" by (simp add: world_of_def)
  moreover have "accounts (snd (Snapshot s)) = accounts s" "storage (snd (Snapshot s)) = storage s"
    by (simp_all add: Snapshot_def)
  then have "world_of (snd (Snapshot s)) = world_of s"
    using getters_cong [of "snd (Snapshot s)" s] GetStorage_cong [of "snd (Snapshot s)" s] by (simp add: world_of_def)
  ultimately show ?thesis
    by (simp add: world_of_mutators world_of_CreateAccount world_of_SetStorage world_of_SetStorageDirect
        world_of_SetAccount world_of_Finalise
        uint256_pkg.add [OF assms] uint256_pkg.sub [OF assms])
qed

theorem StateDB_refines_world_witness:
  "w_slot (world_of (SetStorage (SetBalance new_StateDB [1] 9) [1] ZeroHash (replicate 32 1))) [1] ZeroHash = replicate 32 1"
  using StateDB_refines_world [OF std.uint256_pkg_axioms, of "SetBalance new_StateDB [1] 9" "[1]" _ _ _ _ ZeroHash "replicate 32 1"]
  by (simp add: w_set_slot_def)

text \<open>
  C3: running code keeps the plain in-memory database well formed.  From such a database with a snapshot,
  in which no slot holds an explicit zero and the snapshots are increasing positions of the journal, every
  run, with all its nested calls, creates and reverts, ends in such a database, and the snapshots taken
  before it are still there: no revert slices the journal out of its bounds or undoes what its caller did.
  This is about the plain database only: the fork adapter stores the slots it fetches, zeros included.
\<close>

theorem run_keeps_database_well_formed:
  assumes "EVM_run L k d m = Ret (m', r)" and "e_db (evm m) = PlainDB s" and "db_wf s" and "snapshots s \<noteq> []"
  shows "\<exists>s'. e_db (evm m') = PlainDB s' \<and> db_wf s'
    \<and> take (length (snapshots s)) (snapshots s') = snapshots s"
proof -
  let ?i = "length (snapshots s) - 1"
  have i: "?i < length (snapshots s)" "Suc ?i = length (snapshots s)" using assms(4) by simp_all
  from run_law_EVM [of L k d, unfolded run_law_def, rule_format, OF assms(1), of ?i] assms(2)
  obtain s' where s': "e_db (evm m') = PlainDB s'" "db_rel L UNIV ?i s s'" by (auto simp: evm_rel_def)
  with i have reach: "db_reach L UNIV ?i s s'" by (simp add: db_rel_def)
  then have "db_wf s'" using assms(3) by (rule db_wf_reach)
  with s' db_reach_snapshots [OF reach i(1)] i(2) show ?thesis by auto
qed

theorem run_keeps_database_well_formed_witness:
  "\<exists>m' s'. EVM_run std_lib (Suc (Suc 0)) 0
       \<lparr>evm = test_EVM (snd (Snapshot new_StateDB)), fr = new_Frame\<lparr>Code := [op_JUMPDEST], Gas := 7\<rparr>\<rparr>
       = Ret (m', ok_result 6) \<and> e_db (evm m') = PlainDB s' \<and> db_wf s'"
proof -
  let ?s = "snd (Snapshot new_StateDB)"
  let ?m = "\<lparr>evm = test_EVM ?s, fr = new_Frame\<lparr>Code := [op_JUMPDEST], Gas := 7\<rparr>\<rparr>"
  obtain m' where m': "EVM_run std_lib (Suc (Suc 0)) 0 ?m = Ret (m', ok_result 6)"
    by (simp add: EVM_run_def Run_def step_def load_jumpdests_def Let_def new_Frame_def test_EVM_def EVM_New_def
        exec_op_JUMPDEST charge_def fall_def op_ok_def use_gas_def capture_def)
  have "db_wf ?s"
    by (simp add: db_wf_def no_zero_slots_def snapshots_ok_def Snapshot_def new_StateDB_def)
  with run_keeps_database_well_formed [OF m', of ?s] m' show ?thesis
    by (auto simp: Snapshot_def)
qed

end
