(* ===== verification/Forked.thy ===== *)
theory Forked
  imports World
begin

text \<open>
  The database of a fork through its adapter: an account is fetched before its first use and never again,
  so what is written to it stays; unless the first fetch failed.
\<close>

section \<open>Fetched accounts\<close>

lemma EnsureAccount_cases:
  assumes "EnsureAccount L f a = (err, f')"
  obtains (had) "a \<in> fetchedAccounts f" "err = None" "f' = f"
    | (failed) e where "a \<notin> fetchedAccounts f" "err = Some e" "f' = f\<lparr>fk_calls := Suc (fk_calls f)\<rparr>"
    | (fetched) results where "a \<notin> fetchedAccounts f" "err = None"
        "f' = f\<lparr>fk_calls := Suc (fk_calls f), inner := SetAccount (inner f) a (fetched_account L results),
                fetchedAccounts := insert a (fetchedAccounts f)\<rparr>"
proof (cases "a \<in> fetchedAccounts f")
  case True
  show ?thesis by (rule had) (use True assms in \<open>simp_all add: EnsureAccount_def\<close>)
next
  case False
  let ?r = "batchCall L f (account_requests f a)"
  have f1: "snd ?r = f\<lparr>fk_calls := Suc (fk_calls f)\<rparr>" by (simp add: batchCall_def)
  have ens: "EnsureAccount L f a = (case ?r of (Inl err, f1) \<Rightarrow> (Some err, f1)
      | (Inr results, f1) \<Rightarrow> (None, f1\<lparr>inner := SetAccount (inner f1) a (fetched_account L results),
                   fetchedAccounts := insert a (fetchedAccounts f1)\<rparr>))"
    using False by (simp add: EnsureAccount_def fetchAccount_def)
  show ?thesis
  proof (cases "fst ?r")
    case (Inl e)
    with f1 have "?r = (Inl e, f\<lparr>fk_calls := Suc (fk_calls f)\<rparr>)" by (simp add: prod_eq_iff)
    with assms ens show ?thesis by (intro failed [of e] False) simp_all
  next
    case (Inr results)
    with f1 have "?r = (Inr results, f\<lparr>fk_calls := Suc (fk_calls f)\<rparr>)" by (simp add: prod_eq_iff)
    with assms ens show ?thesis by (intro fetched [of results] False) auto
  qed
qed

lemma EnsureAccount_done: "fst (EnsureAccount L f a) = None \<Longrightarrow> a \<in> fetchedAccounts (snd (EnsureAccount L f a))"
  by (cases "EnsureAccount L f a") (auto elim!: EnsureAccount_cases)

lemma EnsureAccount_again: "a \<in> fetchedAccounts f \<Longrightarrow> EnsureAccount L f a = (None, f)"
  by (simp add: EnsureAccount_def)

section \<open>Properties\<close>

text \<open>
  C25: a fetched account keeps what is written to it.  When the fetch of an account succeeds, a balance, a
  nonce or a code written through the adapter is what the adapter reads back, the reading changes nothing,
  and it sends no request.
\<close>

theorem fork_keeps_what_is_written:
  assumes "fst (EnsureAccount L f a) = None"
  shows "db_GetBalance L (db_SetBalance L (ForkedDB f) a v) a = (v, db_SetBalance L (ForkedDB f) a v)
    \<and> db_GetNonce L (db_SetNonce L (ForkedDB f) a n) a = (n, db_SetNonce L (ForkedDB f) a n)
    \<and> db_GetCode L (db_SetCode L (ForkedDB f) a c h) a = (c, db_SetCode L (ForkedDB f) a c h)"
proof -
  let ?f = "snd (EnsureAccount L f a)"
  have "a \<in> fetchedAccounts ?f" using assms by (rule EnsureAccount_done)
  then have again: "EnsureAccount L (?f\<lparr>inner := s\<rparr>) a = (None, ?f\<lparr>inner := s\<rparr>)" for s
    by (simp add: EnsureAccount_again)
  have "w_balance (world_of (SetBalance s a v)) a = v" "w_nonce (world_of (SetNonce s a n)) a = n"
    "w_code (world_of (SetCode s a c h)) a = (c, h)" for s
    by (simp_all add: world_of_mutators w_set_balance_def w_set_nonce_def w_set_code_def w_touch_def)
  then have "GetBalance (SetBalance s a v) a = v" "GetNonce (SetNonce s a n) a = n" "GetCode (SetCode s a c h) a = c" for s
    by (simp_all add: world_of_def)
  then show ?thesis
    by (simp add: db_GetBalance_def db_SetBalance_def db_GetNonce_def db_SetNonce_def db_GetCode_def db_SetCode_def
        again)
qed

definition online :: lib where
  "online = std_lib\<lparr>rpc_batch := (\<lambda>n reqs. Some [\<lparr>resp_ID = 1, resp_Result = Some (JString ''0x2a''), resp_Error = None\<rparr>])\<rparr>"

theorem fork_keeps_what_is_written_witness:
  "fst (db_GetBalance online (ForkedDB (new_ForkDB 0)) [1]) = 42
     \<and> fst (db_GetBalance online (db_SetBalance online (ForkedDB (new_ForkDB 0)) [1] 7) [1]) = 7"
proof -
  have "EnsureAccount online (new_ForkDB 0) [1]
      = (None, (new_ForkDB 0)\<lparr>inner := SetAccount new_StateDB [1] (new_Account\<lparr>acc_Balance := 42\<rparr>),
           fetchedAccounts := {[1]}, fk_calls := 1\<rparr>)"
    by (simp add: EnsureAccount_def fetchAccount_def batchCall_def online_def new_ForkDB_def fetched_account_def Let_def
        hex_number_def padEven_def nibble_def be_word_def)
  moreover from this have "fst (EnsureAccount online (new_ForkDB 0) [1]) = None" by simp
  from fork_keeps_what_is_written [OF this, of 7] have
    "fst (db_GetBalance online (db_SetBalance online (ForkedDB (new_ForkDB 0)) [1] 7) [1]) = 7" by simp
  ultimately show ?thesis
    by (simp add: db_GetBalance_def GetBalance_def SetAccount_def getOrCreate_def put_account_def new_StateDB_def)
qed

text \<open>
  C26: a write is lost when the node fails once.  The adapter ignores the error of a fetch; a balance written
  while the node does not answer goes to an empty account, and the next access, when the node answers,
  replaces the account by the fetched one.
\<close>

theorem failed_fetch_loses_a_write:
  assumes "a \<notin> fetchedAccounts f" and "rpc_batch L (fk_calls f) (account_requests f a) = None"
    and "rpc_batch L (Suc (fk_calls f)) (account_requests f a) = Some rs"
    and "collect_results rs Map.empty = Inr results"
  shows "fst (db_GetBalance L (db_SetBalance L (ForkedDB f) a v) a) = acc_Balance (fetched_account L results)"
proof -
  have "db_SetBalance L (ForkedDB f) a v = ForkedDB (f\<lparr>inner := SetBalance (inner f) a v, fk_calls := Suc (fk_calls f)\<rparr>)"
    using assms(1,2) by (simp add: db_SetBalance_def EnsureAccount_def fetchAccount_def batchCall_def)
  moreover have "account_requests (f\<lparr>inner := s, fk_calls := n\<rparr>) a = account_requests f a" for s n
    by (simp add: account_requests_def)
  ultimately show ?thesis
    using assms(1,3,4)
    by (simp add: db_GetBalance_def EnsureAccount_def fetchAccount_def batchCall_def GetBalance_def SetAccount_def
        getOrCreate_def put_account_def split: option.split)
qed

definition flaky :: lib where
  "flaky = std_lib\<lparr>rpc_batch := (\<lambda>n reqs. if n = 0 then None else Some [])\<rparr>"

theorem failed_fetch_loses_a_write_witness:
  "fst (db_GetBalance flaky (db_SetBalance flaky (ForkedDB (new_ForkDB 0)) [1] 7) [1]) = 0"
proof -
  have "rpc_batch flaky n rs = (if n = 0 then None else Some [])" for n rs by (simp add: flaky_def)
  then have "fst (db_GetBalance flaky (db_SetBalance flaky (ForkedDB (new_ForkDB 0)) [1] 7) [1])
      = acc_Balance (fetched_account flaky Map.empty)"
    by (intro failed_fetch_loses_a_write [where rs = "[]"]) (simp_all add: new_ForkDB_def)
  then show ?thesis by (simp add: fetched_account_def Let_def new_Account_def)
qed

end
