(* ===== verification/Runner.thy ===== *)
theory Runner
  imports Forked
begin

text \<open>
  The runner of Ethereum state tests (\<open>ethtest/runner.go\<close>): from the decoded JSON of a test it builds a
  database, a configuration and a message, executes the message and compares the accounts.  Reading files,
  listing directories, joining paths and decoding JSON are the fields of \<open>files\<close>.  A JSON object decoded into a Go map is
  a list of its entries in the order the iteration over the map happens to take.  \<open>t.Errorf\<close> adds a
  difference to the result of a test, \<open>t.Fatalf\<close> ends it.
\<close>

section \<open>Decoded JSON\<close>

record envJSON =
  env_Coinbase :: string
  env_Difficulty :: string
  env_GasLimit :: string
  env_Number :: string
  env_Timestamp :: string
  env_BaseFee :: string

record accJSON =
  aj_Balance :: string
  aj_Code :: string
  aj_Nonce :: string
  aj_Storage :: "(string \<times> string) list"

record accessListEntry =
  alj_Address :: string
  alj_StorageKeys :: "string list"

record txJSON =
  tx_Data :: "string list"
  tx_GasLimit :: "string list"
  txj_GasPrice :: string
  tx_Nonce :: string
  tx_To :: string
  tx_Value :: "string list"
  tx_From :: string
  tx_AccessList :: "accessListEntry list"

record postEntry =
  idx_Data :: int
  idx_Gas :: int
  idx_Value :: int
  post_State :: "(string \<times> accJSON) list"

record testCase =
  tc_Env :: envJSON
  tc_Pre :: "(string \<times> accJSON) list"
  tc_Tx :: txJSON
  tc_Post :: "string \<rightharpoonup> postEntry list"

section \<open>Reading numbers and bytes\<close>

text \<open>\<open>fmt.Sprintf("%0ns", s)\<close> pads with zeros on the left.\<close>

definition pad_zeros :: "nat \<Rightarrow> string \<Rightarrow> string" where
  "pad_zeros n s = replicate (n - length s) CHR ''0'' @ s"

text \<open>\<open>b[len(b)-n:]\<close>, copied into an array of \<open>n\<close> bytes.\<close>

definition last_bytes :: "nat \<Rightarrow> bytes \<Rightarrow> bytes go" where
  "last_bytes n b = (if length b < n then Panic else Ret (drop (length b - n) b))"

definition mustAddr :: "string \<Rightarrow> Address go" where
  "mustAddr s = last_bytes 20 (fst (DecodeString (pad_zeros 40 (TrimPrefix0x s))))"

definition mustHash :: "string \<Rightarrow> Hash go" where
  "mustHash s = last_bytes 32 (fst (DecodeString (pad_zeros 64 (TrimPrefix0x s))))"

definition mustBytes :: "string \<Rightarrow> bytes" where
  "mustBytes s = (let h = TrimPrefix0x s in if h = [] then [] else fst (DecodeString h))"

text \<open>
  \<open>n.SetString(s, 16)\<close>: an optional sign and the digits up to the first other character; the code ignores
  whether there was one.
\<close>

fun digits16 :: "nat \<Rightarrow> string \<Rightarrow> nat" where
  "digits16 n [] = n"
| "digits16 n (c # cs) = (case nibble c of Some d \<Rightarrow> digits16 (16 * n + d) cs | None \<Rightarrow> n)"

definition SetString16 :: "string \<Rightarrow> int" where
  "SetString16 s =
     (case s of
        [] \<Rightarrow> 0
      | c # cs \<Rightarrow>
          if c = CHR ''-'' then - int (digits16 0 cs)
          else if c = CHR ''+'' then int (digits16 0 cs)
          else int (digits16 0 (c # cs)))"

definition mustBig :: "string \<Rightarrow> int" where
  "mustBig s = (let h = TrimPrefix0x s in if h = [] then 0 else SetString16 h)"

text \<open>\<open>Uint64\<close> of a big number is the low 64 bits of its magnitude, \<open>SetFromBig\<close> its residue.\<close>

definition mustUint64 :: "string \<Rightarrow> u64" where
  "mustUint64 s = of_nat (nat \<bar>mustBig s\<bar>)"

definition mustU256 :: "string \<Rightarrow> word256" where
  "mustU256 s = word_of_int (mustBig s)"

definition runner_keccak256Hash :: "lib \<Rightarrow> bytes \<Rightarrow> Hash" where
  "runner_keccak256Hash L dat = keccak L dat"

section \<open>One test case\<close>

text \<open>A loop over a list whose body may panic.\<close>

fun go_fold :: "('a \<Rightarrow> 's \<Rightarrow> 's go) \<Rightarrow> 'a list \<Rightarrow> 's \<Rightarrow> 's go" where
  "go_fold f [] s = Ret s"
| "go_fold f (x # xs) s = go_bind (f x s) (go_fold f xs)"

definition load_slot :: "Address \<Rightarrow> string \<times> string \<Rightarrow> StateDB \<Rightarrow> StateDB go" where
  "load_slot addr sv db =
     go_bind (mustHash (fst sv)) (\<lambda>slot. go_bind (mustHash (snd sv)) (\<lambda>v.
       Ret (SetStorageDirect db addr slot v)))"

definition load_account :: "lib \<Rightarrow> string \<times> accJSON \<Rightarrow> StateDB \<Rightarrow> StateDB go" where
  "load_account L entry db =
     go_bind (mustAddr (fst entry)) (\<lambda>addr.
       let acc = snd entry;
           code = mustBytes (aj_Code acc);
           a = \<lparr>acc_Balance = mustU256 (aj_Balance acc), acc_Nonce = mustUint64 (aj_Nonce acc),
                acc_CodeHash = (if length code > 0 then runner_keccak256Hash L code else ZeroHash),
                acc_Code = code, acc_Suicide = False\<rparr>
       in go_fold (load_slot addr) (aj_Storage acc) (SetAccount db addr a))"

definition case_config :: "envJSON \<Rightarrow> Config go" where
  "case_config env =
     go_bind (mustAddr (env_Coinbase env)) (\<lambda>coinbase.
       Ret \<lparr>cfg_ChainID = 1, cfg_BlockNumber = mustUint64 (env_Number env), cfg_Time = mustUint64 (env_Timestamp env),
         cfg_GasLimit = mustUint64 (env_GasLimit env), cfg_BaseFee = mustUint64 (env_BaseFee env),
         cfg_Coinbase = coinbase, cfg_Difficulty = mustUint64 (env_Difficulty env), cfg_Trace = False\<rparr>)"

text \<open>\<open>xs[i]\<close> with a signed index.\<close>

definition at_index :: "'a list \<Rightarrow> int \<Rightarrow> 'a go" where
  "at_index xs i = (if 0 \<le> i \<and> i < int (length xs) then Ret (xs ! nat i) else Panic)"

definition load_entry :: "accessListEntry \<Rightarrow> AccessListEntry list \<Rightarrow> AccessListEntry list go" where
  "load_entry e acc =
     go_bind (mustAddr (alj_Address e)) (\<lambda>a.
       go_bind (go_fold (\<lambda>s ks. go_bind (mustHash s) (\<lambda>k. Ret (ks @ [k]))) (alj_StorageKeys e) []) (\<lambda>ks.
         Ret (acc @ [\<lparr>ale_Address = a, ale_Slots = ks\<rparr>])))"

definition case_message :: "txJSON \<Rightarrow> postEntry \<Rightarrow> Message go" where
  "case_message tx post =
     go_bind (at_index (tx_Data tx) (idx_Data post)) (\<lambda>dat.
     go_bind (at_index (tx_GasLimit tx) (idx_Gas post)) (\<lambda>gas.
     go_bind (at_index (tx_Value tx) (idx_Value post)) (\<lambda>val.
     go_bind (mustAddr (tx_From tx)) (\<lambda>sender.
     go_bind (if tx_To tx = [] then Ret None else go_bind (mustAddr (tx_To tx)) (\<lambda>a. Ret (Some a))) (\<lambda>to.
     go_bind (go_fold load_entry (tx_AccessList tx) []) (\<lambda>al.
       Ret \<lparr>msg_From = sender, msg_To = to, msg_Gas = mustUint64 gas, msg_Value = Some (mustU256 val),
         msg_Data = mustBytes dat, msg_GasPrice = mustUint64 (txj_GasPrice tx), msg_ApplyIntrinsicGas = True,
         msg_AccessList = al\<rparr>))))))"

text \<open>A reported difference: what was found and what was expected.\<close>

datatype difference =
    BalanceDiffers string word256 word256
  | NonceDiffers string u64 u64
  | SlotDiffers string string Hash Hash

definition check_slot :: "StateDB \<Rightarrow> string \<Rightarrow> Address \<Rightarrow> string \<times> string \<Rightarrow> difference list \<Rightarrow> difference list go" where
  "check_slot db addrHex addr sv ds =
     go_bind (mustHash (fst sv)) (\<lambda>slot. go_bind (mustHash (snd sv)) (\<lambda>want.
       let got = GetStorage db addr slot
       in Ret (if got \<noteq> want then ds @ [SlotDiffers addrHex (fst sv) got want] else ds)))"

definition check_account :: "StateDB \<Rightarrow> string \<times> accJSON \<Rightarrow> difference list \<Rightarrow> difference list go" where
  "check_account db entry ds =
     go_bind (mustAddr (fst entry)) (\<lambda>addr.
       let expected = snd entry;
           wantBal = mustU256 (aj_Balance expected); gotBal = GetBalance db addr;
           ds1 = (if gotBal \<noteq> wantBal then ds @ [BalanceDiffers (fst entry) gotBal wantBal] else ds);
           wantNonce = mustUint64 (aj_Nonce expected); gotNonce = GetNonce db addr;
           ds2 = (if gotNonce \<noteq> wantNonce then ds1 @ [NonceDiffers (fst entry) gotNonce wantNonce] else ds1)
       in go_fold (check_slot db (fst entry) addr) (aj_Storage expected) ds2)"

definition runCase :: "lib \<Rightarrow> runner \<Rightarrow> testCase \<Rightarrow> postEntry \<Rightarrow> difference list go" where
  "runCase L run tc post =
     go_bind (go_fold (load_account L) (tc_Pre tc) new_StateDB) (\<lambda>db.
     go_bind (case_config (tc_Env tc)) (\<lambda>cfg.
     go_bind (case_message (tc_Tx tc) post) (\<lambda>msg.
     go_bind (Execute L run (EVM_New (PlainDB db) cfg) msg) (\<lambda>(e, res).
       go_fold (check_account (db_state (e_db e))) (post_State post) []))))"

section \<open>Files and directories\<close>

record files =
  ReadFile :: "string \<Rightarrow> bytes option"
  Unmarshal :: "bytes \<Rightarrow> (string \<times> testCase) list option"
  ReadDir :: "string \<Rightarrow> string list option"
  path_Join :: "string \<Rightarrow> string \<Rightarrow> string"

datatype report = CannotRead string | CannotParse string | Skipped string
  | Ran "(string \<times> nat \<times> difference list) list"

definition run_posts ::
  "lib \<Rightarrow> runner \<Rightarrow> string \<Rightarrow> string \<times> testCase \<Rightarrow> (string \<times> nat \<times> difference list) list \<Rightarrow>
    (string \<times> nat \<times> difference list) list go" where
  "run_posts L run fork nt acc =
     (case tc_Post (snd nt) fork of
        None \<Rightarrow> Ret acc
      | Some posts \<Rightarrow> go_fold (\<lambda>(i, post) acc. go_bind (runCase L run (snd nt) post) (\<lambda>ds. Ret (acc @ [(fst nt, i, ds)])))
          (enumerate 0 posts) acc)"

definition RunFile :: "files \<Rightarrow> lib \<Rightarrow> runner \<Rightarrow> string \<Rightarrow> string \<Rightarrow> report go" where
  "RunFile F L run path fork =
     (case ReadFile F path of
        None \<Rightarrow> Ret (CannotRead path)
      | Some dat \<Rightarrow>
          (case Unmarshal F dat of
             None \<Rightarrow> Ret (CannotParse path)
           | Some tests \<Rightarrow> go_bind (go_fold (run_posts L run fork) tests []) (\<lambda>rs. Ret (Ran rs))))"

definition HasSuffix :: "string \<Rightarrow> string \<Rightarrow> bool" where
  "HasSuffix s suf \<longleftrightarrow> length suf \<le> length s \<and> drop (length s - length suf) s = suf"

definition RunDir :: "files \<Rightarrow> lib \<Rightarrow> runner \<Rightarrow> string \<Rightarrow> string \<Rightarrow> report list go" where
  "RunDir F L run dir fork =
     (case ReadDir F dir of
        None \<Rightarrow> Ret [Skipped dir]
      | Some names \<Rightarrow> go_fold (\<lambda>name acc.
          if HasSuffix name ''.json''
          then go_bind (RunFile F L run (path_Join F dir name) fork) (\<lambda>r. Ret (acc @ [r])) else Ret acc) names [])"

section \<open>Hexadecimal text\<close>

lemma nibble_hexDigit: "nibble (hexDigit n) = Some (n mod 16)"
proof -
  have "n mod 16 \<in> {0, 1, 2, 3, 4, 5, 6, 7, 8, 9, 10, 11, 12, 13, 14, 15}"
    by (simp only: insert_iff empty_iff) presburger
  then show ?thesis unfolding hexDigit_def
    by (elim insertE emptyE) (simp_all add: nibble_def)
qed

lemma DecodeString_EncodeToString: "DecodeString (EncodeToString bs) = (bs, True)"
proof (induction bs)
  case (Cons b bs)
  have "unat b div 16 mod 16 = unat b div 16" using unsigned_less [of b, where 'a = nat] by (simp add: less_mult_imp_div_less)
  then have "of_nat (16 * (unat b div 16 mod 16) + unat b mod 16) = b"
    by simp
  with Cons show ?case
    by (simp add: EncodeToString_def nibble_hexDigit)
qed (simp add: EncodeToString_def)

lemma length_EncodeToString: "length (EncodeToString bs) = 2 * length bs"
  by (induction bs) (simp_all add: EncodeToString_def)

lemma TrimPrefix0x_0x [simp]: "TrimPrefix0x (CHR ''0'' # CHR ''x'' # s) = s"
  by simp

lemma must_bytes_read:
  "length a = 20 \<Longrightarrow> mustAddr (''0x'' @ EncodeToString a) = Ret a"
  "length h = 32 \<Longrightarrow> mustHash (''0x'' @ EncodeToString h) = Ret h"
  "mustBytes (''0x'' @ EncodeToString c) = c"
  by (auto simp: mustAddr_def mustHash_def mustBytes_def pad_zeros_def last_bytes_def length_EncodeToString
      DecodeString_EncodeToString Let_def) (use length_EncodeToString [of c] in simp)

lemma digits16_append:
  "(\<And>c. c \<in> set xs \<Longrightarrow> nibble c \<noteq> None) \<Longrightarrow> digits16 n (xs @ ys) = digits16 (digits16 n xs) ys"
proof (induction xs arbitrary: n)
  case (Cons x xs)
  from Cons.prems [of x] obtain d where "nibble x = Some d" by auto
  with Cons show ?case by simp
qed simp

lemma hex_of_nat_digits: "c \<in> set (hex_of_nat n) \<Longrightarrow> nibble c \<noteq> None"
proof (induction n rule: hex_of_nat.induct)
  case (1 n)
  then show ?case by (auto simp: hex_of_nat.simps [of n] nibble_hexDigit split: if_splits)
qed

lemma digits16_hex_of_nat: "digits16 0 (hex_of_nat n) = n"
proof (induction n rule: hex_of_nat.induct)
  case (1 n)
  show ?case
  proof (cases "n < 16")
    case True
    then show ?thesis by (simp add: hex_of_nat.simps [of n] nibble_hexDigit)
  next
    case False
    with 1 show ?thesis
      by (simp add: hex_of_nat.simps [of n] digits16_append hex_of_nat_digits nibble_hexDigit)
  qed
qed

lemma mustBig_hex: "mustBig (''0x'' @ hex_of_nat n) = int n"
proof -
  have "hex_of_nat n \<noteq> []" by (simp add: hex_of_nat.simps [of n])
  then obtain c cs where h: "hex_of_nat n = c # cs" by (cases "hex_of_nat n") auto
  then have "nibble c \<noteq> None" using hex_of_nat_digits [of c n] by simp
  then have "c \<noteq> CHR ''-''" "c \<noteq> CHR ''+''" by (auto simp: nibble_def)
  then show ?thesis
    using digits16_hex_of_nat [of n] by (simp add: mustBig_def SetString16_def h del: digits16.simps)
qed

section \<open>The comparison\<close>

text \<open>A loop that only adds to its state, and adds nothing exactly where a condition holds.\<close>

lemma go_fold_clean:
  assumes "go_fold f xs s = Ret s'"
    and "\<And>x s s'. f x s = Ret s' \<Longrightarrow> \<exists>t. s' = s @ t \<and> (t = [] \<longleftrightarrow> P x)"
  shows "\<exists>t. s' = s @ t \<and> (t = [] \<longleftrightarrow> (\<forall>x \<in> set xs. P x))"
  using assms
proof (induction xs arbitrary: s)
  case (Cons x xs)
  then obtain s1 where s1: "f x s = Ret s1" "go_fold f xs s1 = Ret s'" by (auto simp: go_bind_Ret_iff)
  obtain t1 where t1: "s1 = s @ t1" "t1 = [] \<longleftrightarrow> P x" using Cons.prems(2) [OF s1(1)] by auto
  obtain t2 where "s' = s1 @ t2" "t2 = [] \<longleftrightarrow> (\<forall>x \<in> set xs. P x)" using Cons.IH [OF s1(2) Cons.prems(2)] by auto
  with t1 show ?case by auto
qed simp

definition slot_matches :: "StateDB \<Rightarrow> Address \<Rightarrow> string \<times> string \<Rightarrow> bool" where
  "slot_matches db a sv \<longleftrightarrow> (\<exists>k v. mustHash (fst sv) = Ret k \<and> mustHash (snd sv) = Ret v \<and> GetStorage db a k = v)"

definition account_matches :: "StateDB \<Rightarrow> string \<times> accJSON \<Rightarrow> bool" where
  "account_matches db entry \<longleftrightarrow> (\<exists>a. mustAddr (fst entry) = Ret a
     \<and> GetBalance db a = mustU256 (aj_Balance (snd entry)) \<and> GetNonce db a = mustUint64 (aj_Nonce (snd entry))
     \<and> (\<forall>sv \<in> set (aj_Storage (snd entry)). slot_matches db a sv))"

lemma check_slot_clean:
  "check_slot db h a sv ds = Ret ds' \<Longrightarrow> \<exists>t. ds' = ds @ t \<and> (t = [] \<longleftrightarrow> slot_matches db a sv)"
  by (auto simp: check_slot_def slot_matches_def go_bind_Ret_iff Let_def split: if_splits)

lemma check_account_clean:
  assumes "check_account db entry ds = Ret ds'"
  shows "\<exists>t. ds' = ds @ t \<and> (t = [] \<longleftrightarrow> account_matches db entry)"
proof -
  from assms obtain a where a: "mustAddr (fst entry) = Ret a" by (auto simp: check_account_def go_bind_Ret_iff)
  let ?b = "GetBalance db a \<noteq> mustU256 (aj_Balance (snd entry))" and ?n = "GetNonce db a \<noteq> mustUint64 (aj_Nonce (snd entry))"
  obtain b n where "go_fold (check_slot db (fst entry) a) (aj_Storage (snd entry))
      (ds @ (if ?b then [b] else []) @ (if ?n then [n] else [])) = Ret ds'"
    using assms a by (auto simp: check_account_def Let_def split: if_splits)
  then have "\<exists>t. ds' = (ds @ (if ?b then [b] else []) @ (if ?n then [n] else [])) @ t
      \<and> (t = [] \<longleftrightarrow> (\<forall>sv \<in> set (aj_Storage (snd entry)). slot_matches db a sv))"
    by (rule go_fold_clean) (rule check_slot_clean)
  then show ?thesis using a by (auto simp: account_matches_def)
qed

section \<open>Properties\<close>

text \<open>
  C39: the runner reads back what a test states.  Addresses, hashes and byte strings written as \<open>0x\<close> and
  their hexadecimal digits, and 64-bit and 256-bit numbers written without leading zeros, are read as
  themselves.
\<close>

theorem state_test_values_read_back:
  assumes "length a = 20" and "length h = 32"
  shows "mustAddr (''0x'' @ EncodeToString a) = Ret a \<and> mustHash (''0x'' @ EncodeToString h) = Ret h
    \<and> mustBytes (''0x'' @ EncodeToString c) = c
    \<and> mustUint64 (''0x'' @ hex_of_nat (unat n)) = n \<and> mustU256 (''0x'' @ hex_of_nat (unat w)) = w"
  using assms must_bytes_read by (simp only: mustUint64_def mustU256_def mustBig_hex) simp

theorem state_test_values_read_back_witness:
  "mustAddr (''0x'' @ EncodeToString (replicate 20 200)) = Ret (replicate 20 200)"
  using state_test_values_read_back [of "replicate 20 200" "replicate 32 0"] by simp

text \<open>
  C40: a state test passes exactly when the states agree.  A test case that comes to its end has executed its
  message on the database its pre-state describes, and it reports no difference if and only if every account
  of the expected state has the expected balance, nonce and slots.
\<close>

theorem runCase_passes_iff_states_agree:
  assumes "runCase L run tc post = Ret ds"
  shows "\<exists>db cfg msg e res. go_fold (load_account L) (tc_Pre tc) new_StateDB = Ret db
    \<and> case_config (tc_Env tc) = Ret cfg \<and> case_message (tc_Tx tc) post = Ret msg
    \<and> Execute L run (EVM_New (PlainDB db) cfg) msg = Ret (e, res)
    \<and> (ds = [] \<longleftrightarrow> (\<forall>entry \<in> set (post_State post). account_matches (db_state (e_db e)) entry))"
proof -
  from assms obtain db cfg msg e res where "go_fold (load_account L) (tc_Pre tc) new_StateDB = Ret db"
    "case_config (tc_Env tc) = Ret cfg" "case_message (tc_Tx tc) post = Ret msg"
    "Execute L run (EVM_New (PlainDB db) cfg) msg = Ret (e, res)"
    and check: "go_fold (check_account (db_state (e_db e))) (post_State post) [] = Ret ds"
    by (auto simp: runCase_def go_bind_Ret_iff)
  moreover from go_fold_clean [OF check check_account_clean]
  have "ds = [] \<longleftrightarrow> (\<forall>entry \<in> set (post_State post). account_matches (db_state (e_db e)) entry)" by simp
  ultimately show ?thesis by blast
qed

definition sample_case :: testCase where
  "sample_case = \<lparr>
     tc_Env = \<lparr>env_Coinbase = [], env_Difficulty = [], env_GasLimit = [], env_Number = [], env_Timestamp = [],
       env_BaseFee = []\<rparr>,
     tc_Pre = [(''0x05'', \<lparr>aj_Balance = ''0x10'', aj_Code = [], aj_Nonce = [], aj_Storage = []\<rparr>)],
     tc_Tx = \<lparr>tx_Data = [[]], tx_GasLimit = [''0x2''], txj_GasPrice = ''0x3'', tx_Nonce = [], tx_To = [], tx_Value = [[]],
       tx_From = ''0x05'', tx_AccessList = []\<rparr>,
     tc_Post = Map.empty\<rparr>"

definition sample_post :: postEntry where
  "sample_post = \<lparr>idx_Data = 0, idx_Gas = 0, idx_Value = 0,
     post_State = [(''0x05'', \<lparr>aj_Balance = ''0x10'', aj_Code = [], aj_Nonce = ''0x1'', aj_Storage = []\<rparr>)]\<rparr>"

lemma sample_address: "mustAddr (CHR ''0'' # CHR ''x'' # ''05'') = Ret (replicate 19 0 @ [5])" "mustAddr [] = Ret (replicate 20 0)"
  by (simp_all add: mustAddr_def pad_zeros_def last_bytes_def numeral_eq_Suc nibble_def)

lemma sample_numbers:
  "mustBig [] = 0" "mustBig (CHR ''0'' # CHR ''x'' # ''10'') = 16" "mustBig (CHR ''0'' # CHR ''x'' # ''2'') = 2"
  "mustBig (CHR ''0'' # CHR ''x'' # ''3'') = 3" "mustBig (CHR ''0'' # CHR ''x'' # ''1'') = 1"
  by (simp_all add: mustBig_def SetString16_def nibble_def)

lemma foldl_WarmAddress:
  "foldl db_WarmAddress (PlainDB s) as = PlainDB (foldl WarmAddress s as)"
  "world_of (foldl WarmAddress s as) = world_of s"
  by (induction as arbitrary: s) (simp_all add: db_WarmAddress_def world_of_logs_none [OF logs_none_others(2)])

lemma sample_Execute:
  assumes "w_balance (world_of db) a = 16" and "w_nonce (world_of db) a = 0"
  shows "\<exists>e res s. Execute std_lib run (EVM_New (PlainDB db) cfg)
       \<lparr>msg_From = a, msg_To = None, msg_Gas = 2, msg_Value = Some 0, msg_Data = [], msg_GasPrice = 3,
        msg_ApplyIntrinsicGas = True, msg_AccessList = []\<rparr> = Ret (e, res)
     \<and> e_db e = PlainDB s \<and> GetBalance s a = 16 \<and> GetNonce s a = 1"
proof -
  let ?msg = "\<lparr>msg_From = a, msg_To = None, msg_Gas = 2, msg_Value = Some 0, msg_Data = [], msg_GasPrice = 3,
        msg_ApplyIntrinsicGas = True, msg_AccessList = []\<rparr>"
  let ?s1 = "foldl WarmAddress (SetNonce (SubBalance std_lib db a 6) a 1) precompile_addresses"
  let ?s = "AddBalance std_lib ?s1 a 6" and ?e = "EVM_New (PlainDB db) cfg"
  have g: "GetBalance s = w_balance (world_of s)" "GetNonce s = w_nonce (world_of s)" for s
    by (simp_all add: world_of_def)
  have n: "GetNonce (SubBalance std_lib db a 6) a = 0"
    using assms by (simp add: g world_of_mutators w_set_balance_def w_touch_def)
  have "e_db (begin_tx std_lib ?msg 6 ?e) = PlainDB ?s1"
    using n by (simp add: begin_tx_def ask_def upd_db_def db_SubBalance_def db_GetNonce_def db_SetNonce_def warm_all_def
        foldl_WarmAddress EVM_New_def)
  moreover have "Execute std_lib run ?e ?msg = Ret (upd_db (\<lambda>d. db_AddBalance std_lib d a 6) (begin_tx std_lib ?msg 6 ?e),
      zero_Result\<lparr>res_Err := Some ErrIntrinsicGas, res_GasUsed := 2\<rparr>)"
  proof -
    have "\<not> u_lt std_lib (GetBalance db a) 6" "u_mul std_lib 2 3 = 6" using assms by (simp_all add: g std.lt std.mul)
    then show ?thesis
      by (simp add: Execute_def ask_def db_GetBalance_def intrinsicGas_def Let_def EVM_New_def)
  qed
  moreover have "GetBalance ?s a = 16" "GetNonce ?s a = 1"
    using assms by (simp_all add: g world_of_mutators foldl_WarmAddress w_set_balance_def w_set_nonce_def w_touch_def
        std.add std.sub)
  ultimately show ?thesis by (auto simp: upd_db_def db_AddBalance_def)
qed

theorem runCase_passes_iff_states_agree_witness:
  "runCase std_lib (EVM_run std_lib 0 0) sample_case sample_post = Ret []"
proof -
  let ?a = "replicate 19 0 @ [5] :: Address"
  let ?db = "SetAccount new_StateDB ?a \<lparr>acc_Balance = 16, acc_Nonce = 0, acc_CodeHash = ZeroHash, acc_Code = [],
       acc_Suicide = False\<rparr>"
  obtain cfg where cfg: "case_config (tc_Env sample_case) = Ret cfg"
    by (simp add: case_config_def sample_case_def sample_address)
  have msg: "case_message (tc_Tx sample_case) sample_post = Ret \<lparr>msg_From = ?a, msg_To = None, msg_Gas = 2,
      msg_Value = Some 0, msg_Data = [], msg_GasPrice = 3, msg_ApplyIntrinsicGas = True, msg_AccessList = []\<rparr>"
    by (simp add: case_message_def sample_case_def sample_post_def at_index_def sample_address mustUint64_def mustU256_def
        sample_numbers mustBytes_def)
  have db: "go_fold (load_account std_lib) (tc_Pre sample_case) new_StateDB = Ret ?db"
    by (simp add: sample_case_def load_account_def sample_address mustUint64_def mustU256_def sample_numbers mustBytes_def)
  have "w_balance (world_of ?db) ?a = 16" "w_nonce (world_of ?db) ?a = 0"
    by (simp_all add: world_of_def SetAccount_def getOrCreate_def put_account_def new_StateDB_def GetBalance_def GetNonce_def)
  then obtain e res s where ex: "Execute std_lib (EVM_run std_lib 0 0) (EVM_New (PlainDB ?db) cfg)
       \<lparr>msg_From = ?a, msg_To = None, msg_Gas = 2, msg_Value = Some 0, msg_Data = [], msg_GasPrice = 3,
        msg_ApplyIntrinsicGas = True, msg_AccessList = []\<rparr> = Ret (e, res)"
    and s: "e_db e = PlainDB s" "GetBalance s ?a = 16" "GetNonce s ?a = 1"
    using sample_Execute [of ?db ?a "EVM_run std_lib 0 0" cfg] by blast
  obtain ds where run: "runCase std_lib (EVM_run std_lib 0 0) sample_case sample_post = Ret ds"
    using s by (simp add: runCase_def db cfg msg ex)
      (simp add: sample_post_def check_account_def sample_address Let_def)
  have "account_matches s entry" if "entry \<in> set (post_State sample_post)" for entry
    using that s by (simp add: sample_post_def account_matches_def sample_address mustUint64_def mustU256_def sample_numbers)
  with runCase_passes_iff_states_agree [OF run] run show ?thesis
    using s(1) by (auto simp: db cfg msg ex)
qed

end
