(* ===== verification/Modexp.thy ===== *)
theory Modexp
  imports Precompile
begin

text \<open>
  The precompiled contract 5: the big-endian reading and writing of numbers, the parts of its input, its
  price, and its result as a power modulo the modulus.
\<close>

section \<open>Numbers as bytes\<close>

lemma big_of_Nil [simp]: "big_of [] = 0"
  by (simp add: big_of_def)

lemma big_of_snoc [simp]: "big_of (bs @ [b]) = 256 * big_of bs + unat b"
  by (simp add: big_of_def)

lemma big_bytes_0 [simp]: "big_bytes 0 = []"
  by (simp add: big_bytes.simps)

lemma big_bytes_pos: "0 < n \<Longrightarrow> big_bytes n = big_bytes (n div 256) @ [of_nat (n mod 256)]"
  by (simp add: big_bytes.simps [of n])

lemma big_of_big_bytes: "big_of (big_bytes n) = n"
proof (induction n rule: big_bytes.induct)
  case (1 n)
  then show ?case by (cases "n = 0") (simp_all add: big_bytes_pos unat_of_nat)
qed

lemma length_big_bytes: "n < 256 ^ k \<Longrightarrow> length (big_bytes n) \<le> k"
proof (induction n arbitrary: k rule: big_bytes.induct)
  case (1 n)
  show ?case
  proof (cases "n = 0")
    case False
    with 1(2) obtain j where k: "k = Suc j" by (cases k) auto
    have "n div 256 < 256 ^ j"
      using 1(2) less_mult_imp_div_less [of n "256 ^ j" 256] by (simp add: k mult.commute)
    from 1(1) [OF False this] show ?thesis using False by (simp add: big_bytes_pos k)
  qed simp
qed

lemma big_of_bound: "big_of bs < 256 ^ length bs"
proof (induction bs rule: rev_induct)
  case (snoc b bs)
  have "unat b < 256" using unsigned_less [of b] by simp
  then have "256 * big_of bs + unat b < 256 * Suc (big_of bs)" by simp
  also have "\<dots> \<le> 256 * 256 ^ length bs" using snoc by (intro mult_le_mono) auto
  finally show ?case by simp
qed simp

lemma big_of_zeros [simp]: "big_of (replicate k 0 @ bs) = big_of bs"
proof -
  have "foldl (\<lambda>n b. 256 * n + unat b) 0 (replicate k (0 :: byte)) = 0" by (induction k) simp_all
  then show ?thesis by (simp add: big_of_def)
qed

lemma big_of_only_zeros [simp]: "big_of (replicate k 0) = 0"
  using big_of_zeros [of k "[]"] by simp

lemma big_of_trailing: "big_of (bs @ replicate k 0) = 256 ^ k * big_of bs"
proof (induction k)
  case (Suc k)
  have "bs @ replicate (Suc k) 0 = (bs @ replicate k 0) @ [0]" by (simp add: replicate_append_same)
  then show ?case by (simp only: big_of_snoc Suc) simp
qed simp

section \<open>The parts of the input\<close>

text \<open>
  A well-formed input: the three lengths in 32 bytes each, then the base, the exponent and the modulus.
\<close>

definition len32 :: "bytes \<Rightarrow> bytes" where
  "len32 xs = replicate (32 - length (big_bytes (length xs))) 0 @ big_bytes (length xs)"

definition modexp_input :: "bytes \<Rightarrow> bytes \<Rightarrow> bytes \<Rightarrow> bytes" where
  "modexp_input bs es ms = len32 bs @ len32 es @ len32 ms @ bs @ es @ ms"

definition short :: "bytes \<Rightarrow> bool" where
  "short xs \<longleftrightarrow> length xs < 2 ^ 40"

lemma length_len32: "short xs \<Longrightarrow> length (len32 xs) = 32"
  using length_big_bytes [of "length xs" 5] by (simp add: len32_def short_def)

lemma big_of_len32: "big_of (len32 xs) = length xs"
  by (simp add: len32_def big_of_big_bytes)

lemma readLen_part:
  assumes "input = pre @ len32 xs @ post" and "length pre = off" and "short xs"
  shows "readLen input off = of_nat (length xs)"
  using assms by (simp add: readLen_def length_len32 big_of_len32)

lemma go_slice_part:
  assumes "input = pre @ xs @ post" and "unat lo = length pre" and "unat hi = length pre + length xs"
  shows "go_slice input lo hi = Ret xs"
  using assms by (simp add: go_slice_def word_le_nat_alt)

lemma unat_of_nat_small: "n < 2 ^ 64 \<Longrightarrow> unat (of_nat n :: u64) = n"
  by (simp add: unat_of_nat)

lemma unat_end:
  assumes "unat lo + n < 2 ^ 64"
  shows "unat (lo + of_nat n :: u64) = unat lo + n"
  using assms by (simp add: unat_word_ariths unat_of_nat)

lemma getData_part:
  assumes "input = pre @ xs @ post" and "length pre = 96 + unat off" and "length input < 2 ^ 63"
  shows "getData input off (of_nat (length xs)) = Ret xs"
proof (cases "xs = []")
  case False
  have sm: "length pre + length xs < 2 ^ 63" using assms by simp
  have start: "unat (96 + off) = length pre"
    using unat_end [of off 96] assms(2) sm by (simp add: add.commute)
  have fin: "unat (96 + off + of_nat (length xs)) = length pre + length xs"
    using unat_end [of "96 + off" "length xs"] sm by (simp add: start)
  have "(of_nat (length xs) :: u64) \<noteq> 0"
    using False unat_of_nat_small [of "length xs"] sm by auto
  with False assms(1) go_slice_part [OF assms(1) start fin] show ?thesis
    by (simp add: getData_def Let_def start fin)
qed (simp add: getData_def)

lemma iter_head_part:
  assumes "input = pre @ xs @ post" and "length pre = 96 + unat off" and "length input < 2 ^ 63" and "xs \<noteq> []"
  shows "iter_head input off (of_nat (length xs)) = Ret (big_of xs)"
proof -
  have sm: "length pre + length xs < 2 ^ 63" using assms by simp
  have start: "unat (96 + off) = length pre"
    using unat_end [of off 96] assms(2) sm by (simp add: add.commute)
  have fin: "unat (96 + off + of_nat (length xs)) = length pre + length xs"
    using unat_end [of "96 + off" "length xs"] sm by (simp add: start)
  have "sint (96 + off) = int (length pre)" "sint (96 + off + of_nat (length xs)) = int (length pre + length xs)"
    using sint_u64_small [of "96 + off"] sint_u64_small [of "96 + off + of_nat (length xs)"] sm start fin by simp_all
  moreover have "0 < int (length xs) + int (length post)" using assms(4) by (cases xs) simp_all
  ultimately show ?thesis
    using assms(1,4) go_slice_part [OF assms(1) start fin] unat_of_nat_small [of "length xs"] sm
    by (simp add: iter_head_def Let_def copy_at_full)
qed

section \<open>The price\<close>

text \<open>The price of EIP-2565 in natural numbers, \<open>head\<close> being the first 32 bytes of the exponent.\<close>

definition eip2565_iterations :: "bytes \<Rightarrow> nat" where
  "eip2565_iterations es = (big_bitlen (big_of (take 32 es)) - 1) + 8 * (length es - 32)"

definition eip2565_product :: "bytes \<Rightarrow> bytes \<Rightarrow> bytes \<Rightarrow> nat" where
  "eip2565_product bs es ms =
     (let words = (max (length bs) (length ms) + 7) div 8 in words * words * max 1 (eip2565_iterations es))"

definition eip2565_price :: "bytes \<Rightarrow> bytes \<Rightarrow> bytes \<Rightarrow> nat" where
  "eip2565_price bs es ms = max 200 (eip2565_product bs es ms div 3)"

lemma big_bitlen_le: "n < 2 ^ k \<Longrightarrow> big_bitlen n \<le> k"
proof (induction n arbitrary: k rule: big_bitlen.induct)
  case (1 n)
  show ?case
  proof (cases "n = 0")
    case False
    with 1(2) obtain j where k: "k = Suc j" by (cases k) auto
    have "n div 2 < 2 ^ j" using 1(2) less_mult_imp_div_less [of n "2 ^ j" 2] by (simp add: k mult.commute)
    from 1(1) [OF False this] show ?thesis using False by (simp add: big_bitlen.simps [of n] k)
  qed (simp add: big_bitlen.simps)
qed

lemma eip2565_iterations_bound: "short es \<Longrightarrow> eip2565_iterations es < 2 ^ 45"
proof -
  assume "short es"
  have "big_of (take 32 es) < 256 ^ 32"
    using big_of_bound [of "take 32 es"] power_increasing [of "length (take 32 es)" 32 "256 :: nat"] by simp
  then have "big_of (take 32 es) < 2 ^ 256" by simp
  then have "big_bitlen (big_of (take 32 es)) \<le> 256" by (rule big_bitlen_le)
  then show ?thesis using \<open>short es\<close> by (simp add: eip2565_iterations_def short_def)
qed

lemma length_modexp_input:
  assumes "short bs" and "short es" and "short ms"
  shows "length (modexp_input bs es ms) = 96 + length bs + length es + length ms"
  using assms by (simp add: modexp_input_def length_len32)

lemma iter_head_modexp:
  assumes "short bs" and "short es" and "short ms" and "es \<noteq> []" and "n = min 32 (length es)"
  shows "iter_head (modexp_input bs es ms) (of_nat (length bs)) (of_nat n) = Ret (big_of (take 32 es))"
proof -
  have "length (take 32 es) = n" using assms(5) by simp
  moreover have "iter_head (modexp_input bs es ms) (of_nat (length bs)) (of_nat (length (take 32 es)))
      = Ret (big_of (take 32 es))"
  proof (rule iter_head_part)
    have "take 32 es @ drop 32 es @ ms = es @ ms" by simp
    then show "modexp_input bs es ms = (len32 bs @ len32 es @ len32 ms @ bs) @ take 32 es @ (drop 32 es @ ms)"
      by (simp only: modexp_input_def append_assoc)
    show "length (len32 bs @ len32 es @ len32 ms @ bs) = 96 + unat (of_nat (length bs) :: u64)"
      using assms by (simp add: length_len32 unat_of_nat_small short_def)
    show "length (modexp_input bs es ms) < 2 ^ 63"
      using assms by (simp add: length_modexp_input) (simp add: short_def)
    show "take 32 es \<noteq> []" using assms by simp
  qed
  ultimately show ?thesis by simp
qed

lemma unat_length: "short xs \<Longrightarrow> unat (of_nat (length xs) :: u64) = length xs"
  by (simp add: short_def unat_of_nat_small)

lemma of_nat_le_iff_small:
  "a < 2 ^ 64 \<Longrightarrow> b < 2 ^ 64 \<Longrightarrow> (of_nat a :: u64) \<le> of_nat b \<longleftrightarrow> a \<le> b"
  by (simp add: word_le_nat_alt unat_of_nat_small)

lemma of_nat_less_iff_small:
  "a < 2 ^ 64 \<Longrightarrow> b < 2 ^ 64 \<Longrightarrow> (of_nat a :: u64) < of_nat b \<longleftrightarrow> a < b"
  by (simp add: word_less_nat_alt unat_of_nat_small)

lemma of_nat_div_small:
  assumes "a < 2 ^ 64" and "b < 2 ^ 64"
  shows "(of_nat a :: u64) div of_nat b = of_nat (a div b)"
proof (rule unsigned_word_eqI)
  have "a div b < 2 ^ 64" using div_le_dividend [of a b] assms(1) by (rule le_less_trans)
  with assms show "unat ((of_nat a :: u64) div of_nat b) = unat (of_nat (a div b) :: u64)"
    by (simp add: unat_div unat_of_nat_small)
qed

lemma iterations_eq:
  assumes "short bs" and "short es" and "short ms"
  shows "(if (of_nat (length es) :: u64) \<le> 32 then
           if (of_nat (length es) :: u64) = 0 then Ret 0
           else go_bind (iter_head (modexp_input bs es ms) (of_nat (length bs)) (of_nat (length es))) (\<lambda>e.
             Ret (if e = 0 then 0 else of_nat (big_bitlen e - 1)))
         else go_bind (iter_head (modexp_input bs es ms) (of_nat (length bs)) 32) (\<lambda>e.
             Ret (if e = 0 then 8 * (of_nat (length es) - 32)
                  else of_nat (big_bitlen e - 1) + 8 * (of_nat (length es) - 32))))
      = Ret (of_nat (eip2565_iterations es) :: u64)"
proof -
  have le: "(of_nat (length es) :: u64) \<le> 32 \<longleftrightarrow> length es \<le> 32"
    using of_nat_le_iff_small [of "length es" 32] assms(2) by (simp add: short_def)
  have z: "(of_nat (length es) :: u64) = 0 \<longleftrightarrow> es = []"
    using unat_length [OF assms(2)] by auto
  have b0: "big_bitlen 0 = 0" by (simp add: big_bitlen.simps)
  note head = iter_head_modexp [OF assms]
  consider "es = []" | "es \<noteq> []" "length es \<le> 32" | "32 < length es" by linarith
  then show ?thesis
  proof cases
    case 1
    then show ?thesis by (simp add: eip2565_iterations_def b0)
  next
    case 2
    with head [OF _ refl] show ?thesis by (simp add: le z eip2565_iterations_def b0 min_absorb2)
  next
    case 3
    then have "es \<noteq> []" by auto
    with head [OF _ refl] 3 show ?thesis
      by (simp add: le z eip2565_iterations_def b0 min_absorb1 of_nat_diff algebra_simps)
  qed
qed

text \<open>
  The code multiplies in 64 bits: its price is that of EIP-2565 for the product modulo \<open>2 ^ 64\<close>.
\<close>

definition wrapped_price :: "bytes \<Rightarrow> bytes \<Rightarrow> bytes \<Rightarrow> nat" where
  "wrapped_price bs es ms = max 200 (eip2565_product bs es ms mod 2 ^ 64 div 3)"

lemma wrapped_price_exact: "eip2565_product bs es ms < 2 ^ 64 \<Longrightarrow> wrapped_price bs es ms = eip2565_price bs es ms"
  by (simp add: wrapped_price_def eip2565_price_def)

lemma wrapped_price_too_low:
  assumes "2 ^ 64 \<le> eip2565_product bs es ms"
  shows "wrapped_price bs es ms < eip2565_price bs es ms"
proof -
  let ?p = "eip2565_product bs es ms"
  have "?p mod 2 ^ 64 + 2 ^ 64 \<le> ?p"
    using assms le_mod_geq [of "2 ^ 64" ?p] mod_less_eq_dividend [of "?p - 2 ^ 64" "2 ^ 64"] by simp
  moreover have "200 < q div 3 \<and> x div 3 < q div 3" if "x + 18446744073709551616 \<le> q" for x q :: nat
    using that by presburger
  ultimately have "max 200 (?p mod 2 ^ 64 div 3) < ?p div 3" by simp
  then show ?thesis unfolding wrapped_price_def eip2565_price_def by linarith
qed

lemma modexpGas_eq:
  assumes "short bs" and "short es" and "short ms"
  shows "modexpGasEIP2565 (of_nat (length bs)) (of_nat (length es)) (of_nat (length ms)) (modexp_input bs es ms)
      = Ret (of_nat (wrapped_price bs es ms))"
proof -
  let ?max = "max (length bs) (length ms)"
  let ?words = "(?max + 7) div 8" and ?prod = "eip2565_product bs es ms mod 2 ^ 64"
  have sb: "length bs < 2 ^ 40" "length ms < 2 ^ 40" using assms by (simp_all add: short_def)
  then have m: "?max < 2 ^ 40" by simp
  have max: "(if (of_nat (length ms) :: u64) > of_nat (length bs) then of_nat (length ms) else of_nat (length bs))
      = (of_nat ?max :: u64)"
    using of_nat_less_iff_small [of "length bs" "length ms"] sb by (auto simp: max_def)
  have words: "((of_nat ?max + 7) div 8 :: u64) = of_nat ?words"
    using of_nat_div_small [of "?max + 7" 8] m by (simp add: add.commute)
  have count: "(if (of_nat (eip2565_iterations es) :: u64) < 1 then 1 else of_nat (eip2565_iterations es))
      = (of_nat (max 1 (eip2565_iterations es)) :: u64)"
    using of_nat_less_iff_small [of "eip2565_iterations es" 1] eip2565_iterations_bound [OF assms(2)]
    by (auto simp: max_def)
  have "(of_nat ?words * of_nat ?words * of_nat (max 1 (eip2565_iterations es)) :: u64)
      = of_nat (eip2565_product bs es ms)"
    by (simp add: eip2565_product_def Let_def)
  also have "\<dots> = of_nat ?prod" by (simp only: word_of_nat_eq_iff) (simp add: take_bit_eq_mod)
  finally have prod: "(of_nat ?words * of_nat ?words * of_nat (max 1 (eip2565_iterations es)) :: u64) = of_nat ?prod" .
  have small: "?prod < 2 ^ 64" by simp
  have price: "(of_nat ?prod div 3 :: u64) = of_nat (?prod div 3)"
    using of_nat_div_small [OF small, of 3] by simp
  have "?prod div 3 < 2 ^ 64" using div_le_dividend small by (rule le_less_trans)
  then have "((of_nat (?prod div 3) :: u64) < 200) = (?prod div 3 < 200)"
    using of_nat_less_iff_small [of "?prod div 3" 200] by simp
  then have atleast: "(if (of_nat (?prod div 3) :: u64) < 200 then 200 else of_nat (?prod div 3))
      = (of_nat (wrapped_price bs es ms) :: u64)"
    by (auto simp: wrapped_price_def max_def)
  show ?thesis
    unfolding modexpGasEIP2565_def iterations_eq [OF assms] Let_def max words go_bind.simps count prod price atleast
    by (rule refl)
qed

section \<open>The result\<close>

lemma big_exp_mod: "1 < n \<Longrightarrow> big_exp b e n = b ^ e mod n"
  by (simp add: big_exp_def)

lemma big_exp_eq: "big_exp b e n = (if n = 0 then 0 else b ^ e mod n)"
  by (simp add: big_exp_def)

lemma modexp_lengths:
  assumes "short bs" and "short es" and "short ms"
  shows "readLen (modexp_input bs es ms) 0 = of_nat (length bs)"
    and "readLen (modexp_input bs es ms) 32 = of_nat (length es)"
    and "readLen (modexp_input bs es ms) 64 = of_nat (length ms)"
proof -
  note len = length_len32 [OF assms(1)] length_len32 [OF assms(2)]
  show "readLen (modexp_input bs es ms) 0 = of_nat (length bs)"
    by (rule readLen_part [of _ "[]" _ "len32 es @ len32 ms @ bs @ es @ ms"]) (use assms in \<open>simp_all add: modexp_input_def\<close>)
  show "readLen (modexp_input bs es ms) 32 = of_nat (length es)"
    by (rule readLen_part [of _ "len32 bs" _ "len32 ms @ bs @ es @ ms"]) (use assms len in \<open>simp_all add: modexp_input_def\<close>)
  show "readLen (modexp_input bs es ms) 64 = of_nat (length ms)"
    by (rule readLen_part [of _ "len32 bs @ len32 es" _ "bs @ es @ ms"]) (use assms len in \<open>simp_all add: modexp_input_def\<close>)
qed

lemma modexp_parts:
  assumes "short bs" and "short es" and "short ms"
  shows "getData (modexp_input bs es ms) 0 (of_nat (length bs)) = Ret bs"
    and "getData (modexp_input bs es ms) (of_nat (length bs)) (of_nat (length es)) = Ret es"
    and "getData (modexp_input bs es ms) (of_nat (length bs) + of_nat (length es)) (of_nat (length ms)) = Ret ms"
proof -
  let ?h = "len32 bs @ len32 es @ len32 ms" and ?u = "\<lambda>xs. of_nat (length xs) :: u64"
  have small: "length (modexp_input bs es ms) < 2 ^ 63"
    using assms by (simp add: length_modexp_input) (simp add: short_def)
  have h: "length ?h = 96" using assms by (simp add: length_len32)
  then have h1: "length (?h @ bs) = 96 + unat (?u bs)"
    by (simp only: length_append unat_length [OF assms(1)])
  have "unat (?u bs + ?u es) = length bs + length es"
    using unat_of_nat_small [of "length bs + length es"] assms(1,2) by (simp only: short_def of_nat_add) simp
  with h have h2: "length (?h @ bs @ es) = 96 + unat (?u bs + ?u es)" by (simp only: length_append)
  show "getData (modexp_input bs es ms) 0 (?u bs) = Ret bs"
    by (rule getData_part [OF _ _ small, of ?h _ "es @ ms"]) (simp_all only: modexp_input_def append_assoc h, simp)
  show "getData (modexp_input bs es ms) (?u bs) (?u es) = Ret es"
    by (rule getData_part [OF _ h1 small, of _ ms]) (simp only: modexp_input_def append_assoc)
  show "getData (modexp_input bs es ms) (?u bs + ?u es) (?u ms) = Ret ms"
    by (rule getData_part [OF _ h2 small, of _ "[]"]) (simp only: modexp_input_def append_assoc append_Nil2)
qed

section \<open>Lengths that read as negative\<close>

lemma sint_u64_large:
  assumes "2 ^ 63 \<le> unat (w :: u64)"
  shows "sint w < 0"
proof -
  have "int (2 ^ 63) \<le> int (unat w)" using assms by (simp only: of_nat_le_iff)
  then have lo: "2 ^ 63 \<le> uint w" by simp
  have hi: "uint w < 2 ^ 64" using uint_lt2p [of w] by simp
  have "uint w div 2 ^ 63 = 1" by (rule int_div_pos_eq [of _ _ _ "uint w - 2 ^ 63"]) (use lo hi in auto)
  then have "bit (uint w) 63" by (simp add: bit_iff_odd)
  moreover have "take_bit 64 (uint w) = uint w" using hi by (simp add: take_bit_int_eq_self)
  ultimately have "sint w = uint w - 2 ^ 64"
    by (simp add: sint_uint signed_take_bit_eq_take_bit_minus)
  with hi show ?thesis by simp
qed

lemma iter_head_panics:
  assumes "2 ^ 63 \<le> unat (96 + off)" and "length input < 2 ^ 63"
  shows "iter_head input off n = Panic"
proof -
  have "go_slice input (96 + off) hi = Panic" for hi
    using assms by (auto simp: go_slice_def word_le_nat_alt)
  then show ?thesis
    using sint_u64_large [OF assms(1)] by (auto simp: iter_head_def Let_def)
qed

section \<open>Properties\<close>

text \<open>
  C13: the precompiled contract 5 computes powers.  On an input whose header holds the lengths of its parts,
  each below \<open>2 ^ 40\<close>, and with gas for its price, it takes exactly that price and returns, in as many bytes
  as the modulus has, the base to the exponent modulo the modulus, or 0 for the modulus 0.  The price is
  that of EIP-2565 when the product in its formula is below \<open>2 ^ 64\<close>; a larger product is taken modulo
  \<open>2 ^ 64\<close>, and the price is below that of EIP-2565.
\<close>

theorem modexp_correct:
  assumes "short bs" and "short es" and "short ms"
    and "wrapped_price bs es ms \<le> unat gas"
  shows "\<exists>out gl. modexp (modexp_input bs es ms) gas = Ret (out, gl, None)
    \<and> unat gl = unat gas - wrapped_price bs es ms \<and> length out = length ms
    \<and> big_of out = (if big_of ms = 0 then 0 else big_of bs ^ big_of es mod big_of ms)
    \<and> (eip2565_product bs es ms < 2 ^ 64 \<longrightarrow> wrapped_price bs es ms = eip2565_price bs es ms)
    \<and> (2 ^ 64 \<le> eip2565_product bs es ms \<longrightarrow> wrapped_price bs es ms < eip2565_price bs es ms)"
proof -
  let ?r = "big_exp (big_of bs) (big_of es) (big_of ms)"
  let ?cost = "of_nat (wrapped_price bs es ms) :: u64"
  have "wrapped_price bs es ms < 2 ^ 64" using le_less_trans [OF assms(4) unat_u64_bound] by simp
  then have cost: "unat ?cost = wrapped_price bs es ms" by (rule unat_of_nat_small)
  then have pays: "\<not> gas < ?cost" using assms(4) by (simp add: word_less_nat_alt)
  then have gl: "unat (gas - ?cost) = unat gas - wrapped_price bs es ms" by (simp add: unat_diff cost)
  have "?r < 256 ^ length ms"
    using big_of_bound [of ms] by (cases "big_of ms = 0") (auto simp: big_exp_eq intro: less_trans [OF mod_less_divisor])
  then have r: "length (big_bytes ?r) \<le> length ms" by (rule length_big_bytes)
  have m: "(of_nat (length ms) :: u64) = 0 \<longleftrightarrow> ms = []" using unat_length [OF assms(3)] by auto
  have make: "go_make (length ms) = Ret (replicate (length ms) 0)"
    using assms(3) by (simp add: go_make_def short_def maxAlloc_def)
  let ?out = "if ms = [] then [] else replicate (length ms - length (big_bytes ?r)) 0 @ big_bytes ?r"
  have "modexp (modexp_input bs es ms) gas = Ret (?out, gas - ?cost, None)"
    using r by (simp add: modexp_def modexp_lengths [OF assms(1,2,3)] modexpGas_eq [OF assms(1,2,3)] pay_def pays m
        modexp_parts [OF assms(1,2,3)] unat_length [OF assms(3)] make copy_at_end Let_def)
  moreover have "length ?out = length ms" using r by simp
  moreover have "big_of ?out = ?r" by (auto simp: big_of_big_bytes big_exp_eq)
  ultimately show ?thesis using gl wrapped_price_exact wrapped_price_too_low by (auto simp: big_exp_eq)
qed

theorem modexp_correct_witness:
  "\<exists>out gl. modexp (modexp_input [3] [5] [7]) 1000 = Ret (out, gl, None) \<and> unat gl = 800 \<and> length out = 1 \<and> big_of out = 5"
proof -
  have b: "big_bitlen 5 = 3" "big_of [5] = 5" "big_of [3] = 3" "big_of [7] = 7"
    by (simp_all add: big_bitlen.simps big_of_def)
  then have p: "eip2565_product [3] [5] [7] = 2" "eip2565_price [3] [5] [7] = 200"
    by (simp_all add: eip2565_product_def eip2565_price_def eip2565_iterations_def Let_def)
  then have "wrapped_price [3] [5] [7] = 200" using wrapped_price_exact [of "[3]" "[5]" "[7]"] by simp
  then show ?thesis
    using modexp_correct [of "[3]" "[5]" "[7]" 1000] b by (auto simp: short_def)
qed

text \<open>
  C14: an input can crash the machine.  When the length of the base reads as a number from \<open>2 ^ 63 - 96\<close> up
  to \<open>2 ^ 64 - 97\<close> and the exponent is not empty, the price of contract 5 slices the input out of its
  bounds: whatever the gas, the call of the precompiled contract panics instead of failing.  The input is
  shorter than \<open>2 ^ 63\<close> bytes, as every slice is; lengths above this range are not covered.
\<close>

theorem modexp_panics_on_a_huge_base:
  assumes "2 ^ 63 - 96 \<le> unat (readLen input 0)" and "unat (readLen input 0) < 2 ^ 64 - 96"
    and "readLen input 32 \<noteq> 0" and "length input < 2 ^ 63"
  shows "Precompile_Run L (replicate 19 0 @ [5]) input gas = Panic"
proof -
  have "unat (96 + readLen input 0) = unat (readLen input 0) + 96"
    using unat_end [of "readLen input 0" 96] assms(2) by (simp add: add.commute)
  then have "2 ^ 63 \<le> unat (96 + readLen input 0)" using assms(1) by simp
  note p = iter_head_panics [OF this assms(4)]
  have "modexp input gas = Panic"
    using assms(3) by (simp add: modexp_def modexpGasEIP2565_def Let_def p)
  then show ?thesis by (simp add: Precompile_Run_def dispatch_def nth_append list_ex_iff)
qed

theorem modexp_panics_on_a_huge_base_witness:
  "Precompile_Run std_lib (replicate 19 0 @ [5]) (replicate 24 0 @ [128] @ replicate 38 0 @ [1]) 0 = Panic"
proof -
  let ?in = "replicate 24 0 @ [128] @ replicate 38 0 @ [1] :: bytes"
  have r: "replicate 38 (0 :: byte) = replicate 7 0 @ replicate 31 0" by (simp flip: replicate_add)
  have "take 32 ?in = replicate 24 0 @ [128] @ replicate 7 0" "take 32 (drop 32 ?in) = replicate 31 0 @ [1]"
    by (simp_all add: r)
  moreover have "big_of ([128] @ replicate 7 0) = 256 ^ 7 * big_of [128]" by (rule big_of_trailing)
  ultimately have "big_of (take 32 ?in) = 2 ^ 63" "big_of (take 32 (drop 32 ?in)) = 1"
    by (simp_all add: big_of_def [of "[b]" for b])
  then have "readLen ?in 0 = 2 ^ 63" "readLen ?in 32 = 1"
    by (simp_all add: readLen_def)
  then show ?thesis
    by (intro modexp_panics_on_a_huge_base) simp_all
qed

end
