(* ===== verification/Curves.thy ===== *)
theory Curves
  imports Modexp
begin

text \<open>
  The BLAKE2b compression against its specification in RFC 7693, and what the pairing check looks at.
\<close>

section \<open>The compression function of RFC 7693\<close>

text \<open>The mixing function on four entries of the work vector, a function from indices to words.\<close>

type_synonym lane = "nat \<times> nat \<times> nat \<times> nat"

definition rfc_half :: "lane \<Rightarrow> u64 \<Rightarrow> nat \<Rightarrow> nat \<Rightarrow> (nat \<Rightarrow> u64) \<Rightarrow> nat \<Rightarrow> u64" where
  "rfc_half q z r s v =
     (case q of (a, b, c, d) \<Rightarrow>
        let v = v(a := v a + v b + z);
            v = v(d := word_rotr r (v d XOR v a));
            v = v(c := v c + v d)
        in v(b := word_rotr s (v b XOR v c)))"

definition rfc_mix :: "lane \<Rightarrow> u64 \<Rightarrow> u64 \<Rightarrow> (nat \<Rightarrow> u64) \<Rightarrow> nat \<Rightarrow> u64" where
  "rfc_mix q x y v = rfc_half q y 16 63 (rfc_half q x 32 24 v)"

text \<open>The columns and then the diagonals.\<close>

definition rfc_lanes :: "lane list" where
  "rfc_lanes =
     map (\<lambda>i. (i, 4 + i, 8 + i, 12 + i)) [0..<4] @
     map (\<lambda>i. (i, 4 + (i + 1) mod 4, 8 + (i + 2) mod 4, 12 + (i + 3) mod 4)) [0..<4]"

definition rfc_round :: "u64 list \<Rightarrow> nat list \<Rightarrow> (nat \<Rightarrow> u64) \<Rightarrow> nat \<Rightarrow> u64" where
  "rfc_round m s v =
     fold (\<lambda>(i, q). rfc_mix q (m ! (s ! (2 * i))) (m ! (s ! (2 * i + 1)))) (enumerate 0 rfc_lanes) v"

text \<open>The message schedule of section 2.7: ten rows, used in turn.\<close>

definition rfc_sigma :: "nat list list" where
  "rfc_sigma =
     [[ 0,  1,  2,  3,  4,  5,  6,  7,  8,  9, 10, 11, 12, 13, 14, 15],
      [14, 10,  4,  8,  9, 15, 13,  6,  1, 12,  0,  2, 11,  7,  5,  3],
      [11,  8, 12,  0,  5,  2, 15, 13, 10, 14,  3,  6,  7,  1,  9,  4],
      [ 7,  9,  3,  1, 13, 12, 11, 14,  2,  6,  5, 10,  4,  0, 15,  8],
      [ 9,  0,  5,  7,  2,  4, 10, 15, 14,  1, 11, 12,  6,  8,  3, 13],
      [ 2, 12,  6, 10,  0, 11,  8,  3,  4, 13,  7,  5, 15, 14,  1,  9],
      [12,  5,  1, 15, 14, 13,  4, 10,  0,  7,  6,  3,  9,  2,  8, 11],
      [13, 11,  7, 14, 12,  1,  3,  9,  5,  0, 15,  4,  8,  6,  2, 10],
      [ 6, 15, 14,  9, 11,  3,  0,  8, 12,  2, 13,  7,  1,  4, 10,  5],
      [10,  2,  8,  4,  7,  6,  1,  5, 15, 11,  9, 14,  3, 12, 13,  0]]"

definition rfc_schedule :: "nat \<Rightarrow> nat list" where
  "rfc_schedule i = rfc_sigma ! (i mod 10)"

text \<open>
  The initialization vector of section 2.6: the first 64 bits of the fractional parts of the square roots of
  the first eight primes, so each word with the root's integer part in front is the root of the prime
  scaled by \<open>2 ^ 128\<close>, rounded down.
\<close>

definition rfc_iv :: "nat \<Rightarrow> u64" where
  "rfc_iv i =
     [0x6A09E667F3BCC908, 0xBB67AE8584CAA73B, 0x3C6EF372FE94F82B, 0xA54FF53A5F1D36F1,
      0x510E527FADE682D1, 0x9B05688C2B3E6C1F, 0x1F83D9ABFB41BD6B, 0x5BE0CD19137E2179] ! i"

lemma rfc_iv_roots:
  "list_all (\<lambda>(i, p, r). let x = r * 2 ^ 64 + unat (rfc_iv i) in x\<^sup>2 \<le> p * 2 ^ 128 \<and> p * 2 ^ 128 < (x + 1)\<^sup>2)
     [(0, 2, 1), (1, 3, 1), (2, 5, 2), (3, 7, 2), (4, 11, 3), (5, 13, 3), (6, 17, 4), (7, 19, 4)]"
  by (simp add: rfc_iv_def power2_eq_square)

definition rfc_start :: "u64 list \<Rightarrow> u64 \<Rightarrow> u64 \<Rightarrow> bool \<Rightarrow> nat \<Rightarrow> u64" where
  "rfc_start h t0 t1 final i =
     (if i < 8 then h ! i
      else if i = 12 then rfc_iv 4 XOR t0
      else if i = 13 then rfc_iv 5 XOR t1
      else if i = 14 \<and> final then NOT (rfc_iv 6)
      else rfc_iv (i - 8))"

definition rfc_compress :: "u64 list \<Rightarrow> u64 list \<Rightarrow> u64 \<Rightarrow> u64 \<Rightarrow> bool \<Rightarrow> nat \<Rightarrow> u64 list" where
  "rfc_compress h m t0 t1 final rounds =
     (let v = fold (\<lambda>i. rfc_round m (rfc_schedule i)) [0..<rounds] (rfc_start h t0 t1 final)
      in map (\<lambda>i. h ! i XOR v i XOR v (i + 8)) [0..<8])"

section \<open>The code's vector\<close>

lemma bits64RotR_rotr:
  assumes "0 < n" and "n < 64"
  shows "bits64RotR x n = word_rotr n x"
proof (rule bit_word_eqI)
  fix k assume "k < LENGTH(64)"
  then have k: "k < 64" by simp
  show "bit (bits64RotR x n) k = bit (word_rotr n x) k"
  proof (cases "k + n < 64")
    case True
    with k assms show ?thesis
      by (auto simp: bits64RotR_def bit_or_iff bit_drop_bit_eq bit_push_bit_iff bit_word_rotr_iff add.commute)
  next
    case False
    then have "(k + n) mod 64 = k - (64 - n)" using k assms by (simp add: mod_if)
    with False k assms show ?thesis
      by (auto simp: bits64RotR_def bit_or_iff bit_drop_bit_eq bit_push_bit_iff bit_word_rotr_iff add.commute
          dest: bit_imp_le_length)
  qed
qed

definition vec :: "u64 list \<Rightarrow> (nat \<Rightarrow> u64) \<Rightarrow> bool" where
  "vec v f \<longleftrightarrow> length v = 16 \<and> (\<forall>i<16. f i = v ! i)"

lemma vec_upd: "vec v f \<Longrightarrow> i < 16 \<Longrightarrow> x = y \<Longrightarrow> vec (v[i := x]) (f(i := y))"
  by (auto simp: vec_def nth_list_update)

lemma vec_nth: "vec v f \<Longrightarrow> i < 16 \<Longrightarrow> v ! i = f i"
  by (simp add: vec_def)

lemma vec_half:
  assumes v: "vec v f" and i: "a < 16" "b < 16" "c < 16" "d < 16" and n: "0 < r" "r < 64" "0 < s" "s < 64"
  shows "vec (let v1 = v[a := v ! a + v ! b + z];
                  v2 = v1[d := bits64RotR (v1 ! d XOR v1 ! a) r];
                  v3 = v2[c := v2 ! c + v2 ! d]
              in v3[b := bits64RotR (v3 ! b XOR v3 ! c) s]) (rfc_half (a, b, c, d) z r s f)"
proof -
  let ?v1 = "v[a := v ! a + v ! b + z]" and ?f1 = "f(a := f a + f b + z)"
  have 1: "vec ?v1 ?f1" using v i by (intro vec_upd) (simp_all add: vec_nth)
  let ?v2 = "?v1[d := bits64RotR (?v1 ! d XOR ?v1 ! a) r]" and ?f2 = "?f1(d := word_rotr r (?f1 d XOR ?f1 a))"
  have 2: "vec ?v2 ?f2"
    using 1 i(4) by (rule vec_upd) (simp only: vec_nth [OF 1 i(4)] vec_nth [OF 1 i(1)] bits64RotR_rotr [OF n(1,2)])
  let ?v3 = "?v2[c := ?v2 ! c + ?v2 ! d]" and ?f3 = "?f2(c := ?f2 c + ?f2 d)"
  have 3: "vec ?v3 ?f3"
    using 2 i(3) by (rule vec_upd) (simp only: vec_nth [OF 2 i(3)] vec_nth [OF 2 i(4)])
  have "vec (?v3[b := bits64RotR (?v3 ! b XOR ?v3 ! c) s]) (?f3(b := word_rotr s (?f3 b XOR ?f3 c)))"
    using 3 i(2) by (rule vec_upd) (simp only: vec_nth [OF 3 i(2)] vec_nth [OF 3 i(3)] bits64RotR_rotr [OF n(3,4)])
  then show ?thesis by (simp only: rfc_half_def Let_def prod.case)
qed

lemma vec_mix:
  assumes "vec v f" and "a < 16" and "b < 16" and "c < 16" and "d < 16"
  shows "vec (blake_g a b c d x y v) (rfc_mix (a, b, c, d) x y f)"
proof -
  note half = vec_half [where a = a and b = b and c = c and d = d, OF _ assms(2-5), unfolded Let_def]
  show ?thesis
    unfolding blake_g_def rfc_mix_def Let_def
    by (rule half [OF half [OF assms(1)]]) simp_all
qed

lemma rfc_lanes_eq:
  "rfc_lanes = [(0, 4, 8, 12), (1, 5, 9, 13), (2, 6, 10, 14), (3, 7, 11, 15),
     (0, 5, 10, 15), (1, 6, 11, 12), (2, 7, 8, 13), (3, 4, 9, 14)]"
  by (simp add: rfc_lanes_def upt_rec)

lemma rfc_round_eq:
  "rfc_round m s v =
     rfc_mix (3, 4, 9, 14) (m ! (s ! 14)) (m ! (s ! 15)) (
     rfc_mix (2, 7, 8, 13) (m ! (s ! 12)) (m ! (s ! 13)) (
     rfc_mix (1, 6, 11, 12) (m ! (s ! 10)) (m ! (s ! 11)) (
     rfc_mix (0, 5, 10, 15) (m ! (s ! 8)) (m ! (s ! 9)) (
     rfc_mix (3, 7, 11, 15) (m ! (s ! 6)) (m ! (s ! 7)) (
     rfc_mix (2, 6, 10, 14) (m ! (s ! 4)) (m ! (s ! 5)) (
     rfc_mix (1, 5, 9, 13) (m ! (s ! 2)) (m ! (s ! 3)) (
     rfc_mix (0, 4, 8, 12) (m ! (s ! 0)) (m ! (s ! 1)) v)))))))"
proof -
  have i: "2 * Suc 0 = 2" "2 * Suc (Suc 0) = 4" "2 * Suc (Suc (Suc 0)) = 6" "2 * Suc (Suc (Suc (Suc 0))) = 8"
    "2 * Suc (Suc (Suc (Suc (Suc 0)))) = 10" "2 * Suc (Suc (Suc (Suc (Suc (Suc 0))))) = 12"
    "2 * Suc (Suc (Suc (Suc (Suc (Suc (Suc 0)))))) = 14"
    by simp_all
  have j: "(2 :: nat) * 0 = 0" "(0 :: nat) + 1 = 1" "(2 :: nat) + 1 = 3" "(4 :: nat) + 1 = 5" "(6 :: nat) + 1 = 7"
    "(8 :: nat) + 1 = 9" "(10 :: nat) + 1 = 11" "(12 :: nat) + 1 = 13" "(14 :: nat) + 1 = 15"
    by simp_all
  show ?thesis
    by (simp only: rfc_round_def rfc_lanes_eq enumerate_simps fold_simps prod.case i j)
qed

lemma vec_round: "vec v f \<Longrightarrow> vec (blake_round m s v) (rfc_round m s f)"
  unfolding blake_round_def rfc_round_eq comp_apply by (intro vec_mix) simp_all

lemma schedule_eq: "i < 12 \<Longrightarrow> blake_sigma ! (i mod 12) = rfc_schedule i"
proof -
  assume "i < 12"
  then have "i \<in> {0, 1, 2, 3, 4, 5, 6, 7, 8, 9, 10, 11}" by (simp only: insert_iff empty_iff) presburger
  then show ?thesis by (elim insertE emptyE) (simp_all add: blake_sigma_def rfc_schedule_def rfc_sigma_def)
qed

lemma vec_rounds:
  assumes "vec v f" and "r \<le> 12"
  shows "vec (blake_rounds r m v) (fold (\<lambda>i. rfc_round m (rfc_schedule i)) [0..<r] f)"
  using assms(2)
proof (induction r)
  case 0
  with assms(1) show ?case by (simp add: blake_rounds_def)
next
  case (Suc r)
  then have "vec (blake_round m (blake_sigma ! (r mod 12)) (blake_rounds r m v))
      (rfc_round m (rfc_schedule r) (fold (\<lambda>i. rfc_round m (rfc_schedule i)) [0..<r] f))"
    by (simp only: schedule_eq [of r] Suc_le_eq less_imp_le vec_round)
  then show ?case by (simp add: blake_rounds_def)
qed

lemma vec_start:
  assumes "length h = 8"
  shows "vec (blake_init h t0 t1 final) (rfc_start h t0 t1 final)"
proof -
  from assms obtain h0 h1 h2 h3 h4 h5 h6 h7 where h: "h = [h0, h1, h2, h3, h4, h5, h6, h7]"
    by (auto simp: numeral_eq_Suc length_Suc_conv)
  have not: "x XOR 0xffffffffffffffff = NOT x" for x :: u64
  proof -
    have "(0xffffffffffffffff :: u64) = - 1" by simp
    moreover have "x XOR - 1 = NOT x" by (rule bit_word_eqI) (simp add: bit_xor_iff bit_not_iff)
    ultimately show ?thesis by (simp only:)
  qed
  have "rfc_start h t0 t1 final i = blake_init h t0 t1 final ! i" if "i < 16" for i
  proof -
    from that have "i \<in> {0, 1, 2, 3, 4, 5, 6, 7, 8, 9, 10, 11, 12, 13, 14, 15}"
      by (simp only: insert_iff empty_iff) presburger
    then show ?thesis
      by (cases final; elim insertE emptyE)
        (simp_all add: h rfc_start_def blake_init_def rfc_iv_def blake_iv_def not Let_def)
  qed
  then show ?thesis using assms by (simp add: vec_def blake_init_def blake_iv_def Let_def)
qed

section \<open>The pairing check\<close>

definition pair_decodes :: "lib \<Rightarrow> bytes \<Rightarrow> bool" where
  "pair_decodes L bs \<longleftrightarrow> bn_g1_unmarshal L (take 64 bs) \<noteq> None \<and> bn_g2_unmarshal L (take 128 (drop 64 bs)) \<noteq> None"

lemma pairing_loop_keeps_the_first:
  "(\<And>i. i < k \<Longrightarrow> pair_decodes L (drop (192 * i) input)) \<Longrightarrow> pairing_loop L k input (Some a) = Inr (Some a)"
proof (induction k arbitrary: input)
  case (Suc k)
  have "pair_decodes L input" using Suc(2) [of 0] by simp
  moreover have "pair_decodes L (drop (192 * i) (drop 192 input))" if "i < k" for i
    using Suc(2) [of "Suc i"] that by (simp add: add.commute)
  ultimately show ?case using Suc(1) by (auto simp: pair_decodes_def)
qed simp

definition verdict :: "bytes \<Rightarrow> bytes" where
  "verdict m = (if list_all (\<lambda>b. b = 0) (drop 1 m) \<and> m ! 0 = 1 then replicate 31 0 @ [1] else replicate 32 0)"

lemma pairing_loop_first:
  assumes "\<And>i. i < Suc k \<Longrightarrow> pair_decodes L (drop (192 * i) input)"
    and "bn_g1_unmarshal L (take 64 input) = Some p" and "bn_g2_unmarshal L (take 128 (drop 64 input)) = Some q"
  shows "pairing_loop L (Suc k) input None = Inr (Some (bn_pair_marshal L p q))"
proof -
  have "pair_decodes L (drop (192 * i) (drop 192 input))" if "i < k" for i
    using assms(1) [of "Suc i"] that by (simp add: add.commute)
  then show ?thesis using assms(2,3) by (simp add: pairing_loop_keeps_the_first)
qed

lemma bn256Pairing_eq:
  assumes "length input = 192 * Suc k" and "\<And>i. i < Suc k \<Longrightarrow> pair_decodes L (drop (192 * i) input)"
    and "bn_g1_unmarshal L (take 64 input) = Some p" and "bn_g2_unmarshal L (take 128 (drop 64 input)) = Some q"
    and "bn_pair_marshal L p q \<noteq> []" and "45000 + 34000 * Suc k \<le> unat gas"
  shows "\<exists>gl. bn256Pairing L input gas = Ret (verdict (bn_pair_marshal L p q), gl, None)
    \<and> unat gl = unat gas - (45000 + 34000 * Suc k)"
proof -
  let ?cost = "of_nat (45000 + 34000 * Suc k) :: u64"
  have "45000 + 34000 * Suc k < 2 ^ 64" using le_less_trans [OF assms(6) unat_u64_bound] by simp
  then have c: "unat ?cost = 45000 + 34000 * Suc k" by (rule unat_of_nat_small)
  then have "\<not> gas < ?cost" "unat (gas - ?cost) = unat gas - (45000 + 34000 * Suc k)"
    using assms(6) by (simp_all only: word_less_nat_alt not_less word_le_nat_alt unat_diff)
  moreover have "?cost = 45000 + 34000 * of_nat (Suc k)" by simp
  moreover have "length input mod 192 = 0" "length input div 192 = Suc k" "length input \<noteq> 0"
    using assms(1) by simp_all
  ultimately show ?thesis
    using pairing_loop_first [OF assms(2,3,4)] assms(5)
    by (simp only: bn256Pairing_def pay_def Let_def if_False if_True simp_thms sum.case option.case verdict_def)
      (auto simp del: of_nat_Suc)
qed

section \<open>Properties\<close>

text \<open>
  C19: up to 12 rounds the compression of contract 9 is that of RFC 7693, whose message schedule, constants,
  mixing function and rounds are written down here from the RFC.  The code takes the rows of its message
  schedule modulo 12 where the RFC has ten rows, which is the same for these rounds.
\<close>

theorem blake2b_follows_the_rfc:
  assumes "length h = 8" and "unat rounds \<le> 12"
  shows "blake2bF h m t0 t1 final rounds = rfc_compress h m t0 t1 final (unat rounds)"
  using vec_rounds [OF vec_start [OF assms(1)] assms(2)]
  by (simp add: blake2bF_def rfc_compress_def Let_def vec_def)

theorem blake2b_follows_the_rfc_witness:
  "blake2bF (replicate 8 1) (replicate 16 2) 3 0 True 12 = rfc_compress (replicate 8 1) (replicate 16 2) 3 0 True 12"
  using blake2b_follows_the_rfc [of "replicate 8 1" 12 "replicate 16 2" 3 0 True] by simp

text \<open>
  C31: the pairing check of contract 8 looks at the first pair only.  When every pair decodes, its answer is
  its answer for the first 192 bytes alone: the code keeps the first pairing and drops the others, where
  the contract is to multiply them.
\<close>

theorem pairing_ignores_later_pairs:
  assumes "length input = 192 * Suc k" and "\<And>i. i < Suc k \<Longrightarrow> pair_decodes L (drop (192 * i) input)"
    and "\<And>p q. bn_pair_marshal L p q \<noteq> []" and "45000 + 34000 * Suc k \<le> unat gas"
  shows "\<exists>out gl gl'. bn256Pairing L input gas = Ret (out, gl, None)
    \<and> bn256Pairing L (take 192 input) gas = Ret (out, gl', None)"
proof -
  from assms(2) [of 0] obtain p q where pq: "bn_g1_unmarshal L (take 64 input) = Some p"
    "bn_g2_unmarshal L (take 128 (drop 64 input)) = Some q"
    by (auto simp: pair_decodes_def)
  have all: "\<exists>gl. bn256Pairing L input gas = Ret (verdict (bn_pair_marshal L p q), gl, None)"
    using bn256Pairing_eq [OF assms(1,2) pq assms(3,4)] by blast
  have one: "length (take 192 input) = 192 * Suc 0" "45000 + 34000 * Suc 0 \<le> unat gas"
    "bn_g1_unmarshal L (take 64 (take 192 input)) = Some p"
    "bn_g2_unmarshal L (take 128 (drop 64 (take 192 input))) = Some q"
    using assms(1,4) pq by (simp_all add: drop_take)
  then have "\<And>i. i < Suc 0 \<Longrightarrow> pair_decodes L (drop (192 * i) (take 192 input))"
    by (simp add: pair_decodes_def)
  from bn256Pairing_eq [OF one(1) this one(3,4) assms(3) one(2)] all show ?thesis by blast
qed

theorem pairing_ignores_later_pairs_witness:
  "\<exists>out gl gl'. bn256Pairing std_lib (replicate 384 7) 200000 = Ret (out, gl, None)
     \<and> bn256Pairing std_lib (take 192 (replicate 384 7)) 200000 = Ret (out, gl', None)"
  by (rule pairing_ignores_later_pairs [of _ 1]) (simp_all add: pair_decodes_def std_lib_def)

end
