(* ===== verification/Rollback.thy ===== *)
theory Rollback
  imports Fuel
begin

text \<open>
  A failed call and a failed create leave no trace in accounts and storage.  The one thing a revert does
  not restore is an account that a create replaced, so the statements are about runs in which no create
  meets an existing account: those that the careful machine of \<open>Effects\<close>, which gives up on such a
  create, carries through.  It does what the EVM does until then, by the order of \<open>Fuel\<close>.
\<close>

section \<open>The careful machine\<close>

lemma EVM_Call_le: "le_fun run run' \<Longrightarrow> le_go (EVM_Call L run e pf ct a v g inp) (EVM_Call L run' e pf ct a v g inp)"
  using vm_handler_le [of run run' L] by (simp add: handler_le_def)

lemma EVM_Create_le: "le_fun run run' \<Longrightarrow> le_go (EVM_Create L run e pf v c s) (EVM_Create L run' e pf v c s)"
  using vm_handler_le [of run run' L] by (simp add: handler_le_def)

lemma careful_Create_le:
  "le_fun run run' \<Longrightarrow> le_go (careful_Create L run e pf v c s) (EVM_Create L run' e pf v c s)"
  by (simp add: careful_Create_def EVM_Create_le)

lemma careful_at_le: "handler_le (careful_at L k d) (handler_at L k d)"
proof (induction d)
  case 0
  show ?case by (simp add: handler_le_def)
next
  case (Suc d)
  have "le_fun (Run L (careful_at L k d) k) (Run L (handler_at L k d) k)" by (rule Run_le [OF Suc order_refl])
  then show ?case by (simp add: handler_le_def EVM_Call_le careful_Create_le)
qed

lemma careful_run_le: "le_fun (careful_run L k d) (EVM_run L k d)"
  unfolding careful_run_def EVM_run_def by (rule Run_le [OF careful_at_le order_refl])

section \<open>Reverting to a snapshot\<close>

text \<open>The state of a database after a failure: the view of \<open>Journal\<close> is as before.\<close>

definition undone :: "Address set \<Rightarrow> StateDB \<Rightarrow> EVM \<Rightarrow> bool" where
  "undone C s e' \<longleftrightarrow> (\<exists>s'. e_db e' = PlainDB s' \<and> same_view C s s')"

lemma same_view_refl [simp]: "same_view C s s"
  by (simp add: same_view_def)

lemma reverted_effects:
  assumes "e_db e = PlainDB s" and "db_Snapshot (e_db e) = (snap, d0)"
    and "\<And>i. evm_rel L C i False (e\<lparr>e_db := d0\<rparr>) e2"
  shows "undone C s (upd_db (\<lambda>d. db_RevertToSnapshot d snap) e2)"
proof -
  let ?s1 = "snd (Snapshot s)"
  have snap: "Snapshot s = (snap, ?s1)" and d0: "d0 = PlainDB ?s1" and i: "snap < length (snapshots ?s1)"
    using assms(1,2) by (auto simp: db_Snapshot_def Snapshot_def)
  from assms(3) [of snap] d0 obtain s2 where s2: "e_db e2 = PlainDB s2" "db_rel L C snap ?s1 s2"
    by (auto simp: evm_rel_def)
  then have "db_reach L C snap ?s1 s2" using i by (simp add: db_rel_def)
  from revert_same_view [OF snap this] s2(1) show ?thesis
    by (simp add: undone_def upd_db_def db_RevertToSnapshot_def)
qed

lemma EVM_execCall_fails:
  assumes "run_law L C run" and "EVM_execCall L run e msg ct contract caller = Ret (e', res)"
    and "e_db e = PlainDB s" and "res_Err res \<noteq> None"
  shows "undone C s e'"
proof -
  have "call_contract L run e msg ct contract caller = Ret (e', res)"
    using assms(2,4) by (auto simp: EVM_execCall_def go_bind_Ret_iff zero_Result_def split: if_splits)
  then show ?thesis
  proof (rule call_contract_rel [OF assms(1)])
    fix snap d0 e2
    assume snap: "db_Snapshot (e_db e) = (snap, d0)" "\<And>i. evm_rel L C i False (e\<lparr>e_db := d0\<rparr>) e2"
      and e': "e' = (if res_Err res \<noteq> None then upd_db (\<lambda>d. db_RevertToSnapshot d snap) e2 else e2)"
    from reverted_effects [OF assms(3) snap] e' assms(4) show ?thesis by auto
  qed
qed

lemma EVM_create_fails:
  assumes "run_law L C run" and "C = UNIV \<or> \<not> collides L e msg salt" and "EVM_create L run e msg salt = Ret (e', res)"
    and "e_db e = PlainDB s" and "res_Err res \<noteq> None"
  shows "undone C s e'"
proof (rule EVM_create_rel [OF assms(1,2,3)])
  fix snap d0 e2
  assume snap: "db_Snapshot (e_db e) = (snap, d0)" "\<And>i. evm_rel L C i False (e\<lparr>e_db := d0\<rparr>) e2"
    and e': "e' = (if res_Err res \<noteq> None then upd_db (\<lambda>d. db_RevertToSnapshot d snap) e2 else e2)"
  from reverted_effects [OF assms(4) snap] e' assms(5) show ?thesis by auto
qed

lemma foreign_code_call_fails:
  assumes "run_law L C run" and "foreign_code_call L run e pf ct msg val codeAddr contract caller = Ret (e', res)"
    and "e_db e = PlainDB s" and "res_Err res \<noteq> None"
  shows "undone C s e'"
proof -
  obtain snap d0 where snap: "db_Snapshot (e_db e) = (snap, d0)" by force
  then have d0: "d0 = PlainDB (snd (Snapshot s))" using assms(3) by (auto simp: db_Snapshot_def Snapshot_def)
  let ?e0 = "e\<lparr>e_db := d0\<rparr>" and ?code = "fst (db_GetCode L d0 codeAddr)"
  have code: "snd (db_GetCode L d0 codeAddr) = d0" by (simp add: d0 plain_reads)
  obtain poor e2 where poor: "lacks_funds L ?e0 ct caller val = (poor, e2)" by force
  have e2: "e2 = ?e0"
    using poor by (auto simp: lacks_funds_def ask_def case_prod_beta plain_reads d0 split: if_splits)
  let ?e3 = "trace_enter ct caller contract (msg_Data msg) (msg_Gas msg) (Some (SetUint64 val)) ?e0"
  note unf = assms(2) [unfolded foreign_code_call_def snap prod.case ask_def, simplified case_prod_beta,
      simplified code poor e2, simplified]
  show ?thesis
  proof (cases "poor \<or> ?code = []")
    case True
    then have "e' = ?e0" using unf poor e2 by (auto simp: code split: if_splits)
    moreover have "same_view C s (snd (Snapshot s))"
      by (simp add: same_view_def Snapshot_def GetStorage_def fun_eq_iff)
    ultimately show ?thesis using d0 by (simp add: undone_def)
  next
    case False
    then obtain e4 x where
      run: "run_frame run (\<lambda>f. f\<lparr>Depth := Depth pf + 1\<rparr>) ?e3 ?code contract caller msg = Ret (e4, x)"
      and e': "e' = (if r_Err x \<noteq> None
        then upd_db (\<lambda>d. db_RevertToSnapshot d snap) (trace_exit (r_ReturnData x) (msg_Gas msg - r_GasLeft x) (r_Err x) e4)
        else trace_exit (r_ReturnData x) (msg_Gas msg - r_GasLeft x) (r_Err x) e4)"
      and err: "res_Err res = r_Err x"
      using unf poor e2 by (auto simp: code go_bind_Ret_iff Let_def split: if_splits)
    have "evm_rel L C i False ?e3 e4" for i
      using run_frame_law [OF assms(1) run] by (simp add: frame_ok_def)
    then have "evm_rel L C i False ?e0 (trace_exit (r_ReturnData x) (msg_Gas msg - r_GasLeft x) (r_Err x) e4)" for i
      by (intro evm_rel_trans [OF trace_rel(1) evm_rel_trans [OF _ trace_rel(2)]])
    from reverted_effects [OF assms(3) snap this] e' err assms(4) show ?thesis by auto
  qed
qed

lemma EVM_Call_fails:
  assumes "run_law L C run" and "EVM_Call L run e pf ct addr val g input = Ret (e', ret, gl, Some err)"
    and "ct \<noteq> CallTypeStaticCall" and "e_db e = PlainDB s"
  shows "undone C s e'"
proof -
  have "undone C s e" using assms(4) by (simp add: undone_def)
  then show ?thesis
    using assms(2,3) foreign_code_call_fails [OF assms(1) _ assms(4)] EVM_execCall_fails [OF assms(1) _ assms(4)]
    by (auto simp: EVM_Call_def Let_def go_bind_Ret_iff split: if_splits)
qed

lemma EVM_Create_fails:
  assumes "run_law L C run" and "C = UNIV \<or> Depth pf + 1 \<ge> MaxCallDepth \<or> \<not> collides L e (create_message pf val code) salt"
    and "EVM_Create L run e pf val code salt = Ret (e', addr, gl, Some err)" and "e_db e = PlainDB s"
  shows "undone C s e' \<and> addr = ZeroAddress \<and> gl = 0"
proof (cases "Depth pf + 1 \<ge> MaxCallDepth")
  case True
  then show ?thesis using assms(3,4) by (auto simp: EVM_Create_eq undone_def)
next
  case False
  with assms(3) obtain res where c: "EVM_create L run e (create_message pf val code) salt = Ret (e', res)"
    and res: "addr = (case res_ContractAddress res of Some a \<Rightarrow> a | None \<Rightarrow> ZeroAddress)"
      "gl = res_GasLeft res" "res_Err res = Some err"
    by (auto simp: EVM_Create_eq go_bind_Ret_iff)
  have "res_ContractAddress res = None \<and> res_GasLeft res = 0"
    using c res(3) by (auto simp: EVM_create_def finish_create_def zero_Result_def go_bind_Ret_iff
        split: prod.splits option.splits if_splits)
  moreover have "undone C s e'" using EVM_create_fails [OF assms(1) _ c assms(4)] assms(2) False res(3) by auto
  ultimately show ?thesis using res by simp
qed

text \<open>What the getters of accounts show, everywhere.\<close>

definition accounts_read_same :: "StateDB \<Rightarrow> StateDB \<Rightarrow> bool" where
  "accounts_read_same s s' \<longleftrightarrow> GetBalance s' = GetBalance s \<and> GetNonce s' = GetNonce s
     \<and> GetCode s' = GetCode s \<and> GetCodeHash s' = GetCodeHash s \<and> HasSuicided s' = HasSuicided s"

lemma undone_everywhere:
  "undone {} s e' \<Longrightarrow> e_db e' = PlainDB s' \<Longrightarrow> accounts_read_same s s'"
  using same_view_getters [of "{}" s s'] by (auto simp: undone_def accounts_read_same_def fun_eq_iff)

lemma undone_storage: "undone C s e' \<Longrightarrow> \<exists>s'. e_db e' = PlainDB s' \<and> GetStorage s' = GetStorage s"
  using same_view_storage by (auto simp: undone_def)

section \<open>Code that fails at once\<close>

lemma run_INVALID:
  assumes "Code (fr m) = [op_INVALID]" and "PC (fr m) = 0"
  shows "\<exists>m'. Run L H (Suc n) m = Ret (m', fail_result ErrInvalidOpcode)"
proof -
  have "exec_op L H op_INVALID = return_err ErrInvalidOpcode"
  proof -
    have "map_of (arith_ops L @ env_ops L @ mem_ops) op_INVALID = None"
      by (simp add: arith_ops_def env_ops_def mem_ops_def)
    then show ?thesis by (simp only: exec_op_def option.case) (simp add: exec_control_def)
  qed
  moreover have "Code (fr (load_jumpdests L m)) = [op_INVALID]" "PC (fr (load_jumpdests L m)) = 0"
    using assms by (simp_all add: load_jumpdests_def Let_def split: option.split)
  ultimately show ?thesis by (simp add: Run_def step_def return_err_def Let_def)
qed

lemma run_frame_INVALID:
  assumes "pool_ok e"
  shows "\<exists>e'. run_frame (Run L H (Suc n)) (\<lambda>f. f) e [op_INVALID] contract caller msg = Ret (e', fail_result ErrInvalidOpcode)"
proof -
  let ?m = "newFrame e [op_INVALID] contract caller msg"
  have "Code (fr ?m) = [op_INVALID]" "PC (fr ?m) = 0"
    using newFrame_props(4,6) [OF HOL.refl, of e "[op_INVALID]" contract caller msg] assms by auto
  from run_INVALID [OF this] obtain m' where "Run L H (Suc n) ?m = Ret (m', fail_result ErrInvalidOpcode)" by blast
  then show ?thesis by (simp add: run_frame_def upd_fr_def)
qed

lemma run_code_INVALID:
  assumes "pool_ok e" and "e_db e = PlainDB s" and "GetCode s contract = [op_INVALID]"
  shows "\<exists>e' res. run_code L (Run L H (Suc n)) e snap msg ct contract caller = Ret (e', res) \<and> res_Err res = Some ErrInvalidOpcode"
proof -
  have e: "e\<lparr>e_db := PlainDB s\<rparr> = e" using assms(2) by simp
  have "pool_ok (trace_enter ct caller contract (msg_Data msg) (msg_Gas msg) (msg_Value msg) e)"
    using trace_rel(1) assms(1) by (auto simp: evm_rel_def)
  from run_frame_INVALID [OF this, of L H n contract caller msg] obtain e1 where
    "run_frame (Run L H (Suc n)) (\<lambda>f. f) (trace_enter ct caller contract (msg_Data msg) (msg_Gas msg) (msg_Value msg) e)
      [op_INVALID] contract caller msg = Ret (e1, fail_result ErrInvalidOpcode)" by blast
  with assms(2,3) show ?thesis
    by (simp add: run_code_def ask_def db_GetCode_def Let_def fail_result_def e)
qed

lemma GetCode_balances:
  "GetCode (AddBalance L s b v) a = GetCode s a" "GetCode (SubBalance L s b v) a = GetCode s a"
  by (rule getOrCreate_cases [of s b]; simp add: GetCode_def mutator_defs new_Account_def)+

lemma snapshot_view:
  "GetCode (snd (Snapshot s)) = GetCode s" "GetBalance (snd (Snapshot s)) = GetBalance s"
  "GetCode (WarmAddress s b) = GetCode s" "GetBalance (WarmAddress s b) = GetBalance s"
  by (simp_all add: fun_eq_iff Snapshot_def WarmAddress_def GetCode_def GetBalance_def)

lemma transfer_succeeds:
  assumes "e_db e = PlainDB s" and "v \<le> GetBalance s payer" and "uint256_pkg L"
  shows "\<exists>s2. transfer L e payer payee (Some v) = (Some (e\<lparr>e_db := PlainDB s2\<rparr>), e) \<and> GetCode s2 = GetCode s"
proof (cases "v = 0")
  case True
  with assms(1) show ?thesis by (intro exI [of _ s]) (simp add: transfer_def)
next
  case False
  have "e\<lparr>e_db := PlainDB s\<rparr> = e" using assms(1) by simp
  with assms False show ?thesis
    by (intro exI [of _ "AddBalance L (SubBalance L s payer v) payee v"])
      (simp add: transfer_def ask_def db_method_defs upd_db_def uint256_pkg.lt [OF assms(3)] not_less GetCode_balances fun_eq_iff)
qed

lemma EVM_Call_INVALID:
  assumes "e_db e = PlainDB s" and "pool_ok e" and "GetCode s a = [op_INVALID]" and "a ! 0 \<noteq> 0"
    and "SetUint64 v \<le> GetBalance s (Contract pf)" and "uint256_pkg L" and "Depth pf + 1 < MaxCallDepth"
  shows "\<exists>e' ret gl. EVM_Call L (Run L H (Suc n)) e pf CallTypeCall a v g inp = Ret (e', ret, gl, Some ErrInvalidOpcode)"
proof -
  let ?s1 = "WarmAddress (WarmAddress (snd (Snapshot s)) (Contract pf)) a"
  let ?msg = "zero_Message\<lparr>msg_From := Contract pf, msg_To := Some a, msg_Gas := g, msg_Value := Some (SetUint64 v), msg_Data := inp\<rparr>"
  let ?e1 = "e\<lparr>e_db := PlainDB ?s1\<rparr>"
  have "SetUint64 v \<le> GetBalance ?s1 (Contract pf)" using assms(5) by (simp add: snapshot_view)
  then obtain e2 s2 where tr: "transfer L ?e1 (Contract pf) a (Some (SetUint64 v)) = (Some e2, ?e1)"
    and e2: "pool_ok e2" "e_db e2 = PlainDB s2" "GetCode s2 a = [op_INVALID]"
    using transfer_succeeds [of ?e1 ?s1 "SetUint64 v" "Contract pf" L a] assms(2,3,6)
    by (auto simp: snapshot_view pool_ok_def)
  obtain e' res where "run_code L (Run L H (Suc n)) e2 (length (snapshots s)) ?msg CallTypeCall a (Contract pf) = Ret (e', res)"
    and res: "res_Err res = Some ErrInvalidOpcode"
    using run_code_INVALID [OF e2] by blast
  with tr assms(1) have "call_contract L (Run L H (Suc n)) e ?msg CallTypeCall a (Contract pf) = Ret (e', res)"
    by (simp add: call_contract_def db_Snapshot_def db_WarmAddress_def upd_db_def Let_def Snapshot_def)
  then show ?thesis
    using assms(7) res by (simp add: EVM_Call_def EVM_execCall_def not_a_precompile [OF assms(4)] Let_def)
qed

lemma GetBalance_new_account:
  "GetBalance (SetNonce s b n) a = GetBalance s a" "GetBalance (CreateAccount s b) a = GetBalance s a"
proof -
  show "GetBalance (SetNonce s b n) a = GetBalance s a"
    by (rule getOrCreate_cases [of s b]; simp add: GetBalance_def mutator_defs new_Account_def)
  show "GetBalance (CreateAccount s b) a = GetBalance s a"
    by (simp add: GetBalance_def CreateAccount_def put_account_def add_journal_def new_Account_def split: option.split)
qed

lemma EVM_Create_INVALID:
  assumes "e_db e = PlainDB s" and "pool_ok e" and "SetUint64 v \<le> GetBalance s (Contract pf)" and "uint256_pkg L"
    and "Depth pf + 1 < MaxCallDepth"
  shows "\<exists>e' addr gl. EVM_Create L (Run L H (Suc n)) e pf v [op_INVALID] None = Ret (e', addr, gl, Some ErrInvalidOpcode)"
proof -
  let ?from = "Contract pf" and ?s1 = "snd (Snapshot s)" and ?msg = "create_message pf v [op_INVALID]"
  let ?n = "GetNonce ?s1 ?from" and ?e1 = "e\<lparr>e_db := PlainDB (snd (Snapshot s))\<rparr>"
  let ?a = "createAddress L ?from ?n"
  let ?s2 = "WarmAddress (SetNonce (CreateAccount (SetNonce ?s1 ?from (?n + 1)) ?a) ?a 1) ?a"
  have addr: "contract_address L ?e1 ?msg None = (?a, ?e1)" and init: "init_account L ?e1 ?msg ?a = e\<lparr>e_db := PlainDB ?s2\<rparr>"
    by (simp_all add: contract_address_def init_account_def ask_def db_method_defs create_message_def zero_Message_def upd_db_def)
  have "SetUint64 v \<le> GetBalance ?s2 ?from" using assms(3) by (simp add: snapshot_view GetBalance_new_account)
  then obtain s3 where tr: "transfer L (e\<lparr>e_db := PlainDB ?s2\<rparr>) ?from ?a (Some (SetUint64 v))
      = (Some (e\<lparr>e_db := PlainDB s3\<rparr>), e\<lparr>e_db := PlainDB ?s2\<rparr>)"
    using transfer_succeeds [of "e\<lparr>e_db := PlainDB ?s2\<rparr>" ?s2 "SetUint64 v" ?from L ?a] assms(4) by auto
  have "pool_ok (e\<lparr>e_db := PlainDB s3\<rparr>)" using assms(2) by (simp add: pool_ok_def)
  from run_frame_INVALID [OF this] obtain e4 where
    "run_frame (Run L H (Suc n)) (\<lambda>f. f) (e\<lparr>e_db := PlainDB s3\<rparr>) [op_INVALID] ?a ?from ?msg
      = Ret (e4, fail_result ErrInvalidOpcode)" by blast
  moreover have "db_Snapshot (e_db e) = (length (snapshots s), PlainDB ?s1)"
    using assms(1) by (simp add: db_Snapshot_def Snapshot_def)
  moreover have "msg_From ?msg = ?from" "msg_Value ?msg = Some (SetUint64 v)" "msg_Data ?msg = [op_INVALID]"
    by (simp_all add: create_message_def)
  ultimately obtain e' res where "EVM_create L (Run L H (Suc n)) e ?msg None = Ret (e', res)"
    and "res_Err res = Some ErrInvalidOpcode"
    by (simp add: EVM_create_def addr init tr finish_create_def fail_result_def zero_Result_def)
  then show ?thesis using assms(5) by (simp add: EVM_Create_eq)
qed

section \<open>Properties\<close>

text \<open>
  C2: a call that fails leaves no trace, on the plain database.  When a CALL, CALLCODE or DELEGATECALL
  handled by the EVM reports an error (out of gas, a revert, missing funds, the depth limit, a failure of
  nested code), every storage slot has the value it had before the call.  So has every balance, nonce,
  code, code hash and suicide flag, those of the caller and the callee included, unless inside the call
  a CREATE was about to put a contract on an existing account: the careful machine, which gives up
  (\<open>NoFuel\<close>) on such a create and otherwise does the same, carries the call through.
\<close>

theorem failed_call_restores_state:
  assumes "EVM_Call L (EVM_run L k d) e pf ct addr val g input = Ret (e', ret, gl, Some err)"
    and "ct \<noteq> CallTypeStaticCall" and "e_db e = PlainDB s"
  shows "\<exists>s'. e_db e' = PlainDB s' \<and> GetStorage s' = GetStorage s
    \<and> (EVM_Call L (careful_run L k d) e pf ct addr val g input \<noteq> NoFuel \<longrightarrow>
        GetBalance s' = GetBalance s \<and> GetNonce s' = GetNonce s \<and> GetCode s' = GetCode s
        \<and> GetCodeHash s' = GetCodeHash s \<and> HasSuicided s' = HasSuicided s)"
proof -
  from undone_storage [OF EVM_Call_fails [OF run_law_EVM assms]]
  obtain s' where s': "e_db e' = PlainDB s'" "GetStorage s' = GetStorage s" by blast
  have "accounts_read_same s s'" if "EVM_Call L (careful_run L k d) e pf ct addr val g input \<noteq> NoFuel"
  proof -
    from le_goD [OF EVM_Call_le [OF careful_run_le] that] assms(1)
    have "EVM_Call L (careful_run L k d) e pf ct addr val g input = Ret (e', ret, gl, Some err)" by simp
    from undone_everywhere [OF EVM_Call_fails [OF run_law_careful this assms(2,3)] s'(1)] show ?thesis .
  qed
  with s' show ?thesis by (auto simp: accounts_read_same_def)
qed

text \<open>A contract with the code INVALID is called with 5 of the caller's 9: the money is back on both sides.\<close>

theorem failed_call_restores_state_witness:
  "\<exists>s e' s' ret gl. GetBalance s ZeroAddress = 9 \<and> GetCode s (replicate 20 7) = [op_INVALID]
     \<and> EVM_Call std_lib (EVM_run std_lib 1 0) (test_EVM s) new_Frame CallTypeCall (replicate 20 7) 5 100 []
       = Ret (e', ret, gl, Some ErrInvalidOpcode)
     \<and> e_db e' = PlainDB s' \<and> GetBalance s' ZeroAddress = 9 \<and> GetBalance s' (replicate 20 7) = 0"
proof -
  let ?a = "replicate 20 7 :: Address"
  let ?s = "SetCode (SetBalance new_StateDB ZeroAddress 9) ?a [op_INVALID] ZeroHash"
  have ne: "?a \<noteq> ZeroAddress" by (simp add: ZeroAddress_def)
  have s: "GetBalance ?s ZeroAddress = 9" "GetBalance ?s ?a = 0" "GetCode ?s ?a = [op_INVALID]"
    using ne by (simp_all add: GetBalance_def GetCode_def mutator_defs getOrCreate_def new_StateDB_def new_Account_def)
  have fails: "\<exists>e' ret gl. EVM_Call std_lib (Run std_lib H 1) (test_EVM ?s) new_Frame CallTypeCall ?a 5 100 []
      = Ret (e', ret, gl, Some ErrInvalidOpcode)" for H
    unfolding One_nat_def using s
    by (intro EVM_Call_INVALID [OF test_EVM_simps(2,1)] std.uint256_pkg_axioms) (simp_all add: new_Frame_def ZeroAddress_def)
  from fails [of "handler_at std_lib 1 0"] obtain e' ret gl where
    call: "EVM_Call std_lib (EVM_run std_lib 1 0) (test_EVM ?s) new_Frame CallTypeCall ?a 5 100 []
      = Ret (e', ret, gl, Some ErrInvalidOpcode)"
    by (auto simp: EVM_run_def)
  have "EVM_Call std_lib (careful_run std_lib 1 0) (test_EVM ?s) new_Frame CallTypeCall ?a 5 100 [] \<noteq> NoFuel"
    using fails [of "careful_at std_lib 1 0"] by (auto simp: careful_run_def)
  with failed_call_restores_state [OF call _ test_EVM_simps(2)] s
  obtain s' where "e_db e' = PlainDB s'" "GetBalance s' ZeroAddress = 9" "GetBalance s' ?a = 0" by auto
  with call s show ?thesis by blast
qed

text \<open>
  C9: a create that fails leaves no trace either, on the plain database: it reports no address and no gas
  left, and every storage slot is as before.  Unless it or a create inside it was about to put a contract
  on an existing account, so is every balance, nonce, code, code hash and suicide flag: the creator's
  nonce, the new account, the value moved to it and everything its init code did are undone.
\<close>

theorem failed_create_restores_state:
  assumes "EVM_Create L (EVM_run L k d) e pf val code salt = Ret (e', addr, gl, Some err)"
    and "e_db e = PlainDB s"
  shows "addr = ZeroAddress \<and> gl = 0 \<and> (\<exists>s'. e_db e' = PlainDB s' \<and> GetStorage s' = GetStorage s
    \<and> (careful_Create L (careful_run L k d) e pf val code salt \<noteq> NoFuel \<longrightarrow>
        GetBalance s' = GetBalance s \<and> GetNonce s' = GetNonce s \<and> GetCode s' = GetCode s
        \<and> GetCodeHash s' = GetCodeHash s \<and> HasSuicided s' = HasSuicided s))"
proof -
  note fails = EVM_Create_fails [OF run_law_EVM disjI1 [OF HOL.refl] assms]
  from undone_storage [OF fails [THEN conjunct1]]
  obtain s' where s': "e_db e' = PlainDB s'" "GetStorage s' = GetStorage s" by blast
  have "accounts_read_same s s'" if c: "careful_Create L (careful_run L k d) e pf val code salt \<noteq> NoFuel"
  proof -
    from le_goD [OF careful_Create_le [OF careful_run_le] that] assms(1)
    have "EVM_Create L (careful_run L k d) e pf val code salt = Ret (e', addr, gl, Some err)"
      and free: "{} = UNIV \<or> Depth pf + 1 \<ge> MaxCallDepth \<or> \<not> collides L e (create_message pf val code) salt"
      using c by (auto simp: careful_Create_def not_less split: if_splits)
    from undone_everywhere [OF EVM_Create_fails [OF run_law_careful free this(1) assms(2), THEN conjunct1] s'(1)]
    show ?thesis .
  qed
  with s' fails show ?thesis by (auto simp: accounts_read_same_def)
qed

text \<open>
  The zero address creates a contract with 5 of its 9 and the init code INVALID: its balance and its nonce are
  as before, and the address derived for the contract has no money and no nonce.
\<close>

theorem failed_create_restores_state_witness:
  "\<exists>s e' s'. GetBalance s ZeroAddress = 9
     \<and> EVM_Create std_lib (EVM_run std_lib 1 0) (test_EVM s) (new_Frame\<lparr>Gas := 9\<rparr>) 5 [op_INVALID] None
       = Ret (e', ZeroAddress, 0, Some ErrInvalidOpcode)
     \<and> e_db e' = PlainDB s' \<and> GetBalance s' ZeroAddress = 9 \<and> GetNonce s' ZeroAddress = 0
     \<and> GetBalance s' (createAddress std_lib ZeroAddress 0) = 0 \<and> GetNonce s' (createAddress std_lib ZeroAddress 0) = 0"
proof -
  let ?s = "SetBalance new_StateDB ZeroAddress 9" and ?pf = "new_Frame\<lparr>Gas := 9\<rparr>"
  let ?a = "createAddress std_lib ZeroAddress 0"
  have "?a = replicate 10 0 @ 128 # replicate 9 0"
    by (simp add: createAddress_def keccak256Hash_def rlp_create_def rlp_nonce_def std_lib_def ZeroAddress_def copy_at_def Let_def)
  then have "?a ! 10 \<noteq> ZeroAddress ! 10" by (simp add: ZeroAddress_def nth_append)
  then have ne: "?a \<noteq> ZeroAddress" by metis
  have s: "GetBalance ?s ZeroAddress = 9" "GetNonce ?s ZeroAddress = 0" "GetBalance ?s ?a = 0" "GetNonce ?s ?a = 0"
    "\<not> Exists ?s ?a"
    using ne by (simp_all add: GetBalance_def GetNonce_def Exists_def mutator_defs getOrCreate_def new_StateDB_def new_Account_def)
  have fails: "\<exists>e' addr gl. EVM_Create std_lib (Run std_lib H 1) (test_EVM ?s) ?pf 5 [op_INVALID] None
      = Ret (e', addr, gl, Some ErrInvalidOpcode)" for H
    unfolding One_nat_def using s
    by (intro EVM_Create_INVALID [OF test_EVM_simps(2,1)] std.uint256_pkg_axioms) (simp_all add: new_Frame_def)
  have "GetNonce (?s\<lparr>snapshots := l\<rparr>) ZeroAddress = 0" for l using s(2) by (simp add: GetNonce_def)
  then have "\<not> collides std_lib (test_EVM ?s) (create_message ?pf 5 [op_INVALID]) None"
    using ne s(5) by (simp add: collides_def contract_address_def ask_def db_method_defs create_message_def zero_Message_def
        new_Frame_def Snapshot_def Exists_def)
  with fails [of "careful_at std_lib 1 0"]
  have careful: "careful_Create std_lib (careful_run std_lib 1 0) (test_EVM ?s) ?pf 5 [op_INVALID] None \<noteq> NoFuel"
    by (auto simp: careful_Create_def careful_run_def)
  from fails [of "handler_at std_lib 1 0"] obtain e' addr gl where
    create: "EVM_Create std_lib (EVM_run std_lib 1 0) (test_EVM ?s) ?pf 5 [op_INVALID] None
      = Ret (e', addr, gl, Some ErrInvalidOpcode)"
    by (auto simp: EVM_run_def)
  from failed_create_restores_state [OF create test_EVM_simps(2)] careful s
  obtain s' where "addr = ZeroAddress" "gl = 0" "e_db e' = PlainDB s'" "GetBalance s' ZeroAddress = 9"
    "GetNonce s' ZeroAddress = 0" "GetBalance s' ?a = 0" "GetNonce s' ?a = 0"
    by auto
  with create s(1) show ?thesis by blast
qed

end
