(* ===== verification/Spec2Isabelle.thy ===== *)
theory Spec2Isabelle
  imports Charges Derive Trace Runner Curves Rollback
begin

text \<open>
  fastvm: an Ethereum virtual machine in Go, as a shallow embedding with its correctness theorems.

  \<^bold>\<open>The program.\<close>  \<open>evm.EVM\<close> executes messages: it charges the sender, warms the access lists, performs a call
  or a create, and settles refunds and fees.  Code runs in the interpreter (\<open>interpreter.Interpreter.Run\<close>):
  a loop over a frame with a stack (\<open>stack\<close>), a memory (\<open>memory\<close>) and a gas counter (\<open>gas\<close>).  CALL and CREATE
  instructions go back to the EVM through the interface \<open>CallHandler\<close>.  Accounts and storage are behind the
  interface \<open>DB\<close>: either the journalled \<open>state.StateDB\<close> or, through an adapter, \<open>forkdb.ForkDB\<close>, which loads
  them from a remote node.  \<open>precompile\<close> holds the built-in contracts, \<open>tracer\<close> records the tree of calls,
  \<open>ethtest\<close> runs the Ethereum state tests.

  \<^bold>\<open>Theories, in the order of the code's layers.\<close>
  \<^item> \<open>Prelude\<close>: Go's integers, byte slices, \<open>make\<close> and \<open>copy\<close>, and the outcomes \<open>Ret\<close>, \<open>Panic\<close>, \<open>NoFuel\<close>.
  \<^item> \<open>Types\<close>: \<open>types/types.go\<close>, the error values of all packages, and the record \<open>lib\<close> of the third-party
    packages, with their documented behaviour in the locales \<open>uint256_pkg\<close> and \<open>keccak_pkg\<close>.
  \<^item> \<open>Stack\<close>, \<open>Memory\<close>, \<open>Gas\<close>, \<open>StateDB\<close>, \<open>ForkDB\<close>, \<open>DB\<close>, \<open>Tracer\<close>: one package each.  A Go struct is a
    record with a field per field, a method is a function from the state to the result and the new state.
  \<^item> \<open>Machine\<close>: frame, contexts, jump table, frame pool, and the EVM struct.  A \<open>machine\<close> is the EVM with the
    running frame.
  \<^item> \<open>Ops\<close> (\<open>op_arithmetic.go\<close>, \<open>op_env.go\<close>, \<open>op_memory.go\<close>, \<open>op_log.go\<close>) and \<open>Interp\<close> (\<open>interpreter.go\<close>,
    \<open>op_call.go\<close>): the opcode functions, the switch of \<open>Run\<close> (\<open>exec_op\<close>), one pass of its loop (\<open>step\<close>) and the
    loop (\<open>run_loop\<close>, \<open>Run\<close>).  An opcode function is written in the order of its statements, each statement
    a function that takes what follows it.
  \<^item> \<open>Sha256\<close>, \<open>Precompile\<close>: the built-in contracts with the standard library's hash.
  \<^item> \<open>EVM\<close>: \<open>Execute\<close>, \<open>execCall\<close>, \<open>create\<close>, \<open>Call\<close>, \<open>Create\<close>, the derivation of addresses and the intrinsic gas.
    \<open>handler_at\<close> makes the EVM the call handler of its own interpreter.
  \<^item> \<open>Runner\<close>: \<open>ethtest/runner.go\<close>.

  \<^bold>\<open>Interfaces.\<close>  \<open>bounded_stack\<close> (in \<open>Stack\<close>) is the contract of a stack as a refinement of operations on
  lists; \<open>undo_log\<close> (in \<open>Journal\<close>) is what a journal needs for its undoing to be correct; \<open>evm_effects\<close> (in
  \<open>Steps\<close>) lists the database effects of instructions, and \<open>call_handler\<close> (in \<open>Switch\<close>) extends it by the laws
  of a handler.  Each is interpreted on the model's own operations, the last one by induction on the
  nesting of calls (in \<open>Effects\<close>).

  \<^bold>\<open>What the lemmas show.\<close>
  \<^item> \<open>Steps\<close>, \<open>Switch\<close>, \<open>Effects\<close>: every instruction, every run and every call or create keeps the frame and the
    pool well formed, makes no gas, and changes the database only by journalled steps above the caller's
    snapshot.
  \<^item> \<open>Journal\<close>: undoing these steps restores slots, and what the getters of accounts show where no account was
    replaced by a creation; what a revert does not restore.  \<open>World\<close>: the database refines plain maps of
    accounts and slots, and the plain database stays well formed.
  \<^item> \<open>Calls\<close>: static frames write nothing; transfers move value; gas is never made.  \<open>Rollback\<close>: failed calls and
    creates restore the state, in runs in which no create meets an existing account.  These runs are those
    of \<open>careful_run\<close> (in \<open>Effects\<close>), the same machine that gives up on such a create.
  \<^item> \<open>Termination\<close>: every frame and every message comes to an end.  \<open>Fuel\<close>: the bounds of the model do not
    show in outcomes, and the loop is the closure of its passes.
  \<^item> \<open>OpSpecs\<close>, \<open>Charges\<close>: what the arithmetic instructions, jumps, copies, SHA3 and creates compute and charge.
  \<^item> \<open>Derive\<close>: the bytes hashed for contract addresses.  \<open>Modexp\<close>, \<open>Curves\<close>: the contracts 5, 8 and 9 against
    their specifications.  \<open>Trace\<close>: the tracer builds the tree of calls.  \<open>Forked\<close>: when writes to a forked
    account stay.

  \<^bold>\<open>Bounds.\<close>  The loop of \<open>Run\<close> and the nesting of calls are unrolled with fuel.  Every pass takes gas or moves
  the program counter on, so \<open>2 ^ 128\<close> passes are enough for any gas and any code length below \<open>2 ^ 64\<close>; every
  nested call has less gas than its caller, so the gas of the message bounds the nesting
  (\<open>Termination.Execute_returns\<close>).  By \<open>Fuel.outcome_independent_of_bounds\<close> larger bounds change nothing.
  The renderer of the tracer is bounded by the number of nodes, which is enough for what the tracer records.

  \<^bold>\<open>Conventions.\<close>  A run-time panic of Go is the outcome \<open>Panic\<close>, which ends everything.  Machine integers are
  words; lengths of slices are naturals and are compared with words as the code does.  A Go map is a partial
  function, or a list of entries where its iteration order matters.  \<open>sync.Pool\<close> may hand out any pooled
  frame: its choices are a list in the EVM, and theorems hold for all of them.  The address of a code's bytes
  in memory is a function of the code, not injective; memory that is collected and reused is not modelled
  otherwise.  The mutexes of \<open>ForkDB\<close> and
  \<open>CallTracer\<close> serialise methods, so each method is one step.

  \<^bold>\<open>Which database.\<close>  Theorems about runs that speak of accounts and slots are about an EVM on the plain
  \<open>StateDB\<close> (\<open>PlainDB\<close>): on the fork adapter reads may fetch, and writes after a failed fetch are lost
  (\<open>Forked\<close>).  Gas, frames and the contexts are treated for both.

  \<^bold>\<open>Not modelled.\<close>  The third-party packages behind \<open>lib\<close> (256-bit arithmetic, Keccak-256, RIPEMD-160, secp256k1,
  bn256) and the constructors of hashers in \<open>interpreter/hash.go\<close> and \<open>forkdb/keccak.go\<close>; the HTTP client, the
  JSON encoder and the file system, which are parameters; exhaustion of the machine's memory below the limit
  of a single allocation; constants of the gas schedule and opcode names no code refers to.
\<close>

end
